theory Spec2Isabelle
  imports Complex_Main "HOL-Library.Multiset"
begin

section \<open>Text primitives of the matching scripts\<close>

text \<open>
  Python strings are modelled as lists of 8-bit characters, one \<open>char\<close> per code point.
  \<open>str.lower\<close> is modelled on the code points below 256: the ASCII capitals and the
  Latin-1 capitals move by 32, every other character stays.  \<open>is_space\<close> is the class
  that both \<open>str.strip()\<close> and the regular expression \<open>\s\<close> use.
\<close>

definition lower_char :: "char \<Rightarrow> char" where
  "lower_char c =
     (let n = of_char c :: nat in
      if (65 \<le> n \<and> n \<le> 90) \<or> (192 \<le> n \<and> n \<le> 222 \<and> n \<noteq> 215)
      then char_of (n + 32) else c)"

definition lower :: "string \<Rightarrow> string" where
  "lower s = map lower_char s"

definition is_space :: "char \<Rightarrow> bool" where
  "is_space c =
     (let n = of_char c :: nat in
      (9 \<le> n \<and> n \<le> 13) \<or> (28 \<le> n \<and> n \<le> 32) \<or> n = 133 \<or> n = 160)"

definition is_lower_alnum :: "char \<Rightarrow> bool" where
  "is_lower_alnum c =
     (let n = of_char c :: nat in (97 \<le> n \<and> n \<le> 122) \<or> (48 \<le> n \<and> n \<le> 57))"

text \<open>\<open>s.strip()\<close>: leading and trailing white space removed.\<close>

definition strip :: "string \<Rightarrow> string" where
  "strip s = rev (dropWhile is_space (rev (dropWhile is_space s)))"

text \<open>
  \<open>re.sub(r"C+", " ", s)\<close> for a character class \<open>C\<close>: every maximal run of
  characters of the class becomes one blank.
\<close>

function sub_runs :: "(char \<Rightarrow> bool) \<Rightarrow> string \<Rightarrow> string" where
  "sub_runs P [] = []"
| "sub_runs P (c # cs) =
     (if P c then CHR '' '' # sub_runs P (dropWhile P cs) else c # sub_runs P cs)"
  by pat_completeness auto
termination
  by (relation "measure (\<lambda>(P, s). length s)")
     (auto simp: length_dropWhile_le less_Suc_eq_le)

text \<open>
  The substitution that removes bracketed groups (\<open>re.sub\<close> with the pattern: an
  opening bracket, any characters but a closing bracket, a closing bracket, replaced by
  the empty string): scanning from the left, an opening bracket
  with a closing bracket somewhere after it is removed together with everything up to
  the first closing bracket; an opening bracket that is never closed stays.
\<close>

function strip_brackets :: "string \<Rightarrow> string" where
  "strip_brackets [] = []"
| "strip_brackets (c # cs) =
     (if c = CHR ''['' \<and> CHR '']'' \<in> set cs
      then strip_brackets (tl (dropWhile (\<lambda>d. d \<noteq> CHR '']'') cs))
      else c # strip_brackets cs)"
  by pat_completeness auto
termination
proof (relation "measure length", goal_cases)
  case 1
  show ?case by simp
next
  case (2 c cs)
  have "length (tl (dropWhile (\<lambda>d. d \<noteq> CHR '']'') cs)) \<le> length cs"
    by (metis length_dropWhile_le length_tl diff_le_self le_trans)
  then show ?case by simp
next
  case (3 c cs)
  show ?case by simp
qed

text \<open>\<open>norm\<close> of \<open>tmdb_match_seen_sc.py\<close> and \<open>tmdb_match_watchlist_sc.py\<close>;
  the argument \<open>None\<close> is read as the empty string (\<open>s or ""\<close>).\<close>

definition norm_sc :: "string \<Rightarrow> string" where
  "norm_sc s =
     (let s1 = lower s;
          s2 = strip_brackets s1;
          s3 = sub_runs (\<lambda>c. \<not> (is_lower_alnum c \<or> c = CHR '' '')) s2
      in strip (sub_runs is_space s3))"

text \<open>\<open>norm\<close> of \<open>tmdb_match_br.py\<close>.\<close>

definition norm_br :: "string \<Rightarrow> string" where
  "norm_br s = sub_runs is_space (lower (strip s))"

section \<open>Python and SQL primitives\<close>

text \<open>\<open>s.startswith(p)\<close> and the substring test \<open>p in s\<close>.\<close>

definition startswith :: "string \<Rightarrow> string \<Rightarrow> bool" where
  "startswith s p = (take (length p) s = p)"

fun py_in :: "string \<Rightarrow> string \<Rightarrow> bool" where
  "py_in p [] = (p = [])"
| "py_in p (c # cs) = (startswith (c # cs) p \<or> py_in p cs)"

text \<open>\<open>x or ""\<close> for an optional string.\<close>

definition or_empty :: "string option \<Rightarrow> string" where
  "or_empty x = (case x of None \<Rightarrow> [] | Some s \<Rightarrow> s)"

text \<open>\<open>str(n)\<close> for an integer: decimal digits, a minus sign for negative numbers.\<close>

definition digit_char :: "nat \<Rightarrow> char" where
  "digit_char d = char_of (48 + d)"

fun digits :: "nat \<Rightarrow> string" where
  "digits n = (if n < 10 then [digit_char n] else digits (n div 10) @ [digit_char (n mod 10)])"

declare digits.simps [simp del]

definition str_int :: "int \<Rightarrow> string" where
  "str_int i = (if i < 0 then CHR ''-'' # digits (nat (- i)) else digits (nat i))"

text \<open>\<open>sep.join(xs)\<close>.\<close>

fun join :: "string \<Rightarrow> string list \<Rightarrow> string" where
  "join sep [] = []"
| "join sep [x] = x"
| "join sep (x # y # ys) = x @ sep @ join sep (y # ys)"

text \<open>
  \<open>xs.sort(key=lambda x: x[0], reverse=True)\<close> on a list of pairs: descending in the
  first component, elements with equal keys keep their order (Python's sort is stable,
  also with \<open>reverse=True\<close>).  \<open>sort_key\<close> is the stable insertion sort of the library;
  the key is negated to sort downwards.
\<close>

definition sort_desc :: "(int \<times> 'a) list \<Rightarrow> (int \<times> 'a) list" where
  "sort_desc xs = sort_key (\<lambda>p. - fst p) xs"

section \<open>Shapes of normalised text\<close>

text \<open>
  Three shapes that the output of the normalisers has: each white-space character is a
  single blank standing alone (\<open>spaced\<close>), no white space at either end
  (\<open>trimmed\<close>), and only lower-case letters, digits and blanks (\<open>plain\<close>).
\<close>

fun spaced :: "(char \<Rightarrow> bool) \<Rightarrow> string \<Rightarrow> bool" where
  "spaced P [] = True"
| "spaced P (c # cs) =
     ((P c \<longrightarrow> c = CHR '' '' \<and> (cs = [] \<or> \<not> P (hd cs))) \<and> spaced P cs)"

definition trimmed :: "string \<Rightarrow> bool" where
  "trimmed s = (s = [] \<or> (\<not> is_space (hd s) \<and> \<not> is_space (last s)))"

definition plain :: "string \<Rightarrow> bool" where
  "plain s = (\<forall>c\<in>set s. is_lower_alnum c \<or> c = CHR '' '')"

section \<open>The catalogue client\<close>

text \<open>
  Exceptions are values.  Each carries the text that \<open>str(e)\<close> gives, since the
  scripts store that text in \<open>match_note\<close>.
\<close>

datatype error =
    RuntimeError string
  | HTTPError string
  | RequestException string
  | KeyError string
  | ValueError string
  | IndexError string
  | TypeError string

fun str_error :: "error \<Rightarrow> string" where
  "str_error (RuntimeError m) = m"
| "str_error (HTTPError m) = m"
| "str_error (RequestException m) = m"
| "str_error (KeyError m) = m"
| "str_error (ValueError m) = m"
| "str_error (IndexError m) = m"
| "str_error (TypeError m) = m"

text \<open>
  One HTTP response: the status code, the text that \<open>raise_for_status\<close> puts in its
  exception when the status is an error, and the decoded JSON body.
\<close>

record 'a response =
  status_code :: nat
  reason :: string
  json :: 'a

text \<open>
  \<open>tmdb_get\<close> of the matching scripts and of \<open>tmdb_apply_br.py\<close>.  The argument
  \<open>rs\<close> lists the responses that the server gives to the successive requests of this
  call; when it is used up the request itself fails (time-out), an exception that
  \<open>tmdb_get\<close> does not catch.  \<open>i\<close> is the loop variable of
  \<open>for i in range(retry)\<close>.  The result comes with the list of the pauses made, in
  seconds (\<open>time.sleep(1.5 + i)\<close>).
\<close>

fun tmdb_get_loop ::
  "string \<Rightarrow> nat \<Rightarrow> nat \<Rightarrow> 'a response list \<Rightarrow> (error + 'a) \<times> rat list" where
  "tmdb_get_loop msg retry i rs =
     (if retry \<le> i then (Inl (RuntimeError msg), [])
      else case rs of
        [] \<Rightarrow> (Inl (RequestException ''timed out''), [])
      | r # rs' \<Rightarrow>
          if status_code r = 429
          then (let (res, pauses) = tmdb_get_loop msg retry (Suc i) rs'
                in (res, (3 / 2 + of_nat i) # pauses))
          else if 400 \<le> status_code r \<and> status_code r < 600
          then (Inl (HTTPError (reason r)), [])
          else (Inr (json r), []))"

declare tmdb_get_loop.simps [simp del]

text \<open>The Blu-ray and NAS scripts name the path in the message, the SensCritique
  matchers do not; all use \<open>retry=3\<close>.\<close>

definition tmdb_get_br :: "string \<Rightarrow> 'a response list \<Rightarrow> (error + 'a) \<times> rat list" where
  "tmdb_get_br path rs = tmdb_get_loop (''TMDb rate-limited too long on '' @ path) 3 0 rs"

definition tmdb_get_sc :: "'a response list \<Rightarrow> (error + 'a) \<times> rat list" where
  "tmdb_get_sc rs = tmdb_get_loop ''TMDb rate limit'' 3 0 rs"

text \<open>\<open>tmdb_get\<close> of \<open>tmdb_apply_seen_sc.py\<close>: one request, no retry.\<close>

definition tmdb_get_once :: "'a response list \<Rightarrow> error + 'a" where
  "tmdb_get_once rs =
     (case rs of
        [] \<Rightarrow> Inl (RequestException ''timed out'')
      | r # _ \<Rightarrow>
          if 400 \<le> status_code r \<and> status_code r < 600
          then Inl (HTTPError (reason r)) else Inr (json r))"

text \<open>What the catalogue sends: search results, crew lists and film details.\<close>

record candidate =
  cand_id :: int
  cand_title :: "string option"
  cand_original_title :: "string option"
  cand_release_date :: "string option"

text \<open>A member of a JSON object that the scripts read in more than one way: the key may
  be missing, its value may be \<open>null\<close>, or it is a text.  \<open>field_text\<close> is the reading
  of \<open>x.get(k)\<close> and of \<open>x.get(k, "")\<close> followed by \<open>or ""\<close>: the text, and the empty
  text for a missing key and for \<open>null\<close>.\<close>

datatype field = Missing | Null | Text string

fun field_text :: "field \<Rightarrow> string" where
  "field_text Missing = []"
| "field_text Null = []"
| "field_text (Text s) = s"

record crew_member =
  crew_name :: field
  crew_job :: "string option"

text \<open>In the other records \<open>None\<close> is a member that \<open>x.get(k)\<close> reads as \<open>None\<close>.
  The id and the name of a genre are read as \<open>g["id"]\<close> and \<open>g["name"]\<close>; there
  \<open>None\<close> is the missing key.\<close>

record genre_json =
  g_id :: "int option"
  g_name :: "string option"

record details =
  d_id :: int
  d_imdb_id :: "string option"
  d_title :: "string option"
  d_original_title :: "string option"
  d_release_date :: "string option"
  d_runtime :: "int option"
  d_overview :: "string option"
  d_original_language :: "string option"
  d_poster_path :: "string option"
  d_backdrop_path :: "string option"
  d_popularity :: "rat option"
  d_vote_average :: "rat option"
  d_vote_count :: "int option"
  d_genres :: "genre_json list"

text \<open>
  The catalogue as the scripts see it: for each call, the responses to its successive
  requests.  The bodies are the decoded lists (\<open>.get("results", [])\<close>,
  \<open>.get("crew", [])\<close>); a candidate always has its \<open>id\<close>.
\<close>

record catalog =
  search_responses :: "string \<Rightarrow> int option \<Rightarrow> candidate list response list"
  credits_responses :: "int \<Rightarrow> crew_member list response list"
  details_responses :: "int \<Rightarrow> details response list"

text \<open>The calls a script makes to the catalogue client, in order.\<close>

datatype call = Search string | Credits int | Details int

section \<open>Import rows\<close>

text \<open>The values the scripts write to \<open>match_status\<close>; \<open>REPLACED\<close> is written by
  \<open>replace_boxset_with_films.py\<close> only.\<close>

datatype status = PENDING | MATCHED | AMBIGUOUS | NOT_FOUND | ERROR | APPLIED | REPLACED

text \<open>
  One row of an import table (\<open>import_br\<close>, \<open>import_seen_sc\<close>,
  \<open>import_watchlist_sc\<close>, \<open>import_nas\<close>) with the columns the matching scripts
  read and write.  \<open>raw_title\<close> is \<open>raw_title_clean\<close> for the Blu-ray table;
  \<open>raw_directors\<close> is \<open>raw_creators\<close> there and \<open>raw_director\<close> for the NAS table.
  \<open>None\<close> is SQL \<open>NULL\<close>.  The columns that only one applier reads are added by the
  extensions below.
\<close>

record import_row =
  import_id :: nat
  raw_title :: "string option"
  raw_year :: "int option"
  raw_directors :: "string option"
  raw_first_name :: "string option"
  raw_last_name :: "string option"
  tmdb_id :: "int option"
  match_status :: status
  match_note :: "string option"

text \<open>
  What one \<open>UPDATE ... SET match_status=..., tmdb_id=..., match_note=...\<close> writes.
  The second component is \<open>None\<close> when the statement does not mention \<open>tmdb_id\<close>,
  which then keeps its value.
\<close>

datatype outcome = Outcome status "int option" string

fun write_outcome :: "outcome \<Rightarrow> 'a import_row_scheme \<Rightarrow> 'a import_row_scheme" where
  "write_outcome (Outcome st tid note) r =
     r\<lparr>match_status := st,
       tmdb_id := (case tid of None \<Rightarrow> tmdb_id r | Some i \<Rightarrow> Some i),
       match_note := Some note\<rparr>"

text \<open>\<open>UPDATE t SET ... WHERE id = iid\<close> on a table held as the list of its rows.\<close>

definition update_where ::
  "nat \<Rightarrow> ('a import_row_scheme \<Rightarrow> 'a import_row_scheme) \<Rightarrow>
   'a import_row_scheme list \<Rightarrow> 'a import_row_scheme list" where
  "update_where iid f tbl = map (\<lambda>r. if import_id r = iid then f r else r) tbl"

text \<open>\<open>SELECT ... WHERE cond ORDER BY id LIMIT n\<close>.\<close>

definition select_where ::
  "('a import_row_scheme \<Rightarrow> bool) \<Rightarrow> nat \<Rightarrow> 'a import_row_scheme list \<Rightarrow>
   'a import_row_scheme list" where
  "select_where cond n tbl = take n (sort_key import_id (filter cond tbl))"

text \<open>The handler of every matching loop: \<open>str(e)[:900]\<close> behind a prefix.\<close>

definition error_outcome :: "string \<Rightarrow> nat \<Rightarrow> error \<Rightarrow> outcome" where
  "error_outcome prefix n e = Outcome ERROR None (prefix @ take n (str_error e))"

section \<open>Scoring\<close>

text \<open>\<open>score_candidate\<close> of \<open>tmdb_match_seen_sc.py\<close>; the director argument is not
  used.  \<open>if year_q\<close> holds for a year that is neither \<open>None\<close> nor 0.\<close>

definition year_points :: "int option \<Rightarrow> candidate \<Rightarrow> int" where
  "year_points year_q cand =
     (case year_q of
        None \<Rightarrow> 0
      | Some y \<Rightarrow>
          if y \<noteq> 0 \<and> startswith (or_empty (cand_release_date cand)) (str_int y)
          then 3 else 0)"

definition score_candidate_sc :: "string \<Rightarrow> int option \<Rightarrow> string \<Rightarrow> candidate \<Rightarrow> int" where
  "score_candidate_sc title_q year_q director_q cand =
     (let title = norm_sc (or_empty (cand_title cand));
          orig = norm_sc (or_empty (cand_original_title cand));
          s = (if title = title_q \<or> orig = title_q then 5
               else if py_in title_q title \<or> py_in title_q orig then 2
               else 0)
      in s + year_points year_q cand)"

text \<open>\<open>score_candidate\<close> of \<open>tmdb_match_br.py\<close>: the other \<open>norm\<close>, and the
  containment rule asks for a non-empty query.\<close>

definition score_candidate_br :: "string \<Rightarrow> int option \<Rightarrow> string \<Rightarrow> candidate \<Rightarrow> int" where
  "score_candidate_br q_title q_year q_dir cand =
     (let title = norm_br (or_empty (cand_title cand));
          orig = norm_br (or_empty (cand_original_title cand));
          s = (if title = q_title \<or> orig = q_title then 5
               else if q_title \<noteq> [] \<and> (py_in q_title title \<or> py_in q_title orig) then 2
               else 0)
      in s + year_points q_year cand)"

text \<open>The test made for each candidate when directors are compared:
  \<open>any(director_q in d or d in director_q for d in dirs)\<close>.\<close>

definition director_match :: "string \<Rightarrow> string list \<Rightarrow> bool" where
  "director_match director_q dirs = list_ex (\<lambda>d. py_in director_q d \<or> py_in d director_q) dirs"

section \<open>The Blu-ray matcher (\<open>tmdb_match_br.py\<close>)\<close>

definition director_hint :: "'a import_row_scheme \<Rightarrow> string" where
  "director_hint row =
     (if or_empty (raw_directors row) \<noteq> [] then norm_br (or_empty (raw_directors row))
      else let fn = or_empty (raw_first_name row);
               ln = or_empty (raw_last_name row);
               full = strip (fn @ '' '' @ ln)
           in if full \<noteq> [] then norm_br full else [])"

definition get_directors_for_tmdb_id :: "catalog \<Rightarrow> int \<Rightarrow> error + string list" where
  "get_directors_for_tmdb_id cat i =
     (case fst (tmdb_get_br (''/movie/'' @ str_int i @ ''/credits'') (credits_responses cat i)) of
        Inl e \<Rightarrow> Inl e
      | Inr crew \<Rightarrow>
          Inr (map (\<lambda>c. norm_br (field_text (crew_name c)))
                 (filter (\<lambda>c. crew_job c = Some ''Director'') crew)))"

text \<open>
  The loop \<open>for _, cand in top\<close>: the credits of the candidates are fetched in order
  until one matches the hint.  The result is the candidate found, if any, with the
  list of the credits calls made; an exception of a call ends the loop.
\<close>

fun director_loop ::
  "(int \<Rightarrow> error + string list) \<Rightarrow> string \<Rightarrow> (int \<times> candidate) list \<Rightarrow>
   (error + candidate option) \<times> call list" where
  "director_loop fetch hint [] = (Inr None, [])"
| "director_loop fetch hint ((s, cand) # rest) =
     (case fetch (cand_id cand) of
        Inl e \<Rightarrow> (Inl e, [Credits (cand_id cand)])
      | Inr dirs \<Rightarrow>
          if director_match hint dirs then (Inr (Some cand), [Credits (cand_id cand)])
          else (let (res, calls) = director_loop fetch hint rest
                in (res, Credits (cand_id cand) # calls)))"

text \<open>\<open>len(top) >= 2 and top[0][0] == top[1][0]\<close>.\<close>

fun top_two_tied :: "(int \<times> 'a) list \<Rightarrow> bool" where
  "top_two_tied (a # b # _) = (fst a = fst b)"
| "top_two_tied _ = False"

text \<open>The scored candidates: the first ten results with their scores, best first.  The
  year is always \<open>None\<close> in this script (the publication date of the disc is not the
  year of the film).\<close>

definition scored_br :: "string \<Rightarrow> string \<Rightarrow> candidate list \<Rightarrow> (int \<times> candidate) list" where
  "scored_br q_title dir_hint results =
     sort_desc (map (\<lambda>r. (score_candidate_br q_title None dir_hint r, r)) (take 10 results))"

text \<open>From the scored candidates to the \<open>UPDATE\<close>, with the credits calls made.\<close>

definition decide_br ::
  "catalog \<Rightarrow> string \<Rightarrow> (int \<times> candidate) list \<Rightarrow> (error + outcome) \<times> call list" where
  "decide_br cat dir_hint scored =
     (case scored of
        [] \<Rightarrow> (Inl (IndexError ''list index out of range''), [])
      | (best_score, best) # _ \<Rightarrow>
          let top = take 3 scored;
              ambiguous = top_two_tied top;
              note = ''best_score='' @ str_int best_score
          in if ambiguous \<and> dir_hint \<noteq> []
             then (case director_loop (get_directors_for_tmdb_id cat) dir_hint top of
                     (Inl e, calls) \<Rightarrow> (Inl e, calls)
                   | (Inr (Some cand), calls) \<Rightarrow>
                       (Inr (Outcome MATCHED (Some (cand_id cand))
                              (''single result | '' @ note @ '' | dir_match='' @ dir_hint)),
                        calls)
                   | (Inr None, calls) \<Rightarrow>
                       (Inr (Outcome AMBIGUOUS (Some (cand_id best)) (''ambiguous | '' @ note)),
                        calls))
             else if ambiguous
             then (Inr (Outcome AMBIGUOUS (Some (cand_id best)) (''ambiguous | '' @ note)), [])
             else (Inr (Outcome MATCHED (Some (cand_id best)) (''single result | '' @ note)), []))"

text \<open>The body of the \<open>try\<close> block for one row.\<close>

definition resolve_br :: "catalog \<Rightarrow> 'a import_row_scheme \<Rightarrow> (error + outcome) \<times> call list" where
  "resolve_br cat it =
     (let title_clean = strip (or_empty (raw_title it));
          dir_hint = director_hint it
      in case fst (tmdb_get_br ''/search/movie'' (search_responses cat title_clean None)) of
           Inl e \<Rightarrow> (Inl e, [Search title_clean])
         | Inr results \<Rightarrow>
             if results = []
             then (Inr (Outcome NOT_FOUND None
                          (''no result for '' @ [CHR 0x27] @ title_clean @ [CHR 0x27])),
                   [Search title_clean])
             else (let (res, calls) =
                         decide_br cat dir_hint (scored_br (norm_br title_clean) dir_hint results)
                   in (res, Search title_clean # calls)))"

text \<open>\<open>try ... except Exception as e\<close>: the outcome written for the row, and the
  catalogue calls made.\<close>

definition match_br :: "catalog \<Rightarrow> 'a import_row_scheme \<Rightarrow> outcome \<times> call list" where
  "match_br cat it =
     (case resolve_br cat it of
        (Inr out, calls) \<Rightarrow> (out, calls)
      | (Inl e, calls) \<Rightarrow> (error_outcome ''match: '' 900 e, calls))"

text \<open>The rows the script selects, and its loop over them.\<close>

definition selected_br :: "'a import_row_scheme \<Rightarrow> bool" where
  "selected_br r =
     ((match_status r = NOT_FOUND \<or> match_status r = ERROR)
      \<and> (tmdb_id r = None \<or> tmdb_id r = Some 0)
      \<and> raw_title r \<noteq> None \<and> raw_title r \<noteq> Some [])"

text \<open>The loop over the selected rows.  A matcher writes nothing before its one
  \<open>UPDATE\<close>, so the roll-back of its handler leaves the table as the last commit left
  it, and each turn is the update of the row by the outcome.\<close>

definition run_matcher ::
  "('a import_row_scheme \<Rightarrow> outcome \<times> call list) \<Rightarrow>
   'a import_row_scheme list \<Rightarrow> 'a import_row_scheme list \<Rightarrow> 'a import_row_scheme list" where
  "run_matcher m items tbl =
     foldl (\<lambda>t it. update_where (import_id it) (write_outcome (fst (m it))) t) tbl items"

definition main_match_br :: "catalog \<Rightarrow> nat \<Rightarrow> 'a import_row_scheme list \<Rightarrow> 'a import_row_scheme list" where
  "main_match_br cat limit tbl = run_matcher (match_br cat) (select_where selected_br limit tbl) tbl"

section \<open>The seen-list matcher (\<open>tmdb_match_seen_sc.py\<close>)\<close>

text \<open>\<open>str(x)\<close> inside an f-string, for a column that may be \<open>NULL\<close>.\<close>

definition str_opt :: "string option \<Rightarrow> string" where
  "str_opt x = (case x of None \<Rightarrow> ''None'' | Some s \<Rightarrow> s)"

text \<open>\<open>get_directors\<close>: for a director, \<open>c["name"]\<close> raises \<open>KeyError\<close> when the
  key is missing; a \<open>null\<close> name is read by \<open>norm\<close> as the empty text.\<close>

fun director_names_seen :: "crew_member list \<Rightarrow> error + string list" where
  "director_names_seen [] = Inr []"
| "director_names_seen (c # cs) =
     (if crew_job c = Some ''Director''
      then (case crew_name c of
              Missing \<Rightarrow> Inl (KeyError ([CHR 0x27] @ ''name'' @ [CHR 0x27]))
            | Null \<Rightarrow>
                (case director_names_seen cs of
                   Inl e \<Rightarrow> Inl e
                 | Inr ds \<Rightarrow> Inr (norm_sc [] # ds))
            | Text n \<Rightarrow>
                (case director_names_seen cs of
                   Inl e \<Rightarrow> Inl e
                 | Inr ds \<Rightarrow> Inr (norm_sc n # ds)))
      else director_names_seen cs)"

definition get_directors_seen :: "catalog \<Rightarrow> int \<Rightarrow> error + string list" where
  "get_directors_seen cat i =
     (case fst (tmdb_get_sc (credits_responses cat i)) of
        Inl e \<Rightarrow> Inl e
      | Inr crew \<Rightarrow> director_names_seen crew)"

definition scored_seen ::
  "string \<Rightarrow> int option \<Rightarrow> string \<Rightarrow> candidate list \<Rightarrow> (int \<times> candidate) list" where
  "scored_seen title_q year_q director_q results =
     sort_desc (map (\<lambda>c. (score_candidate_sc title_q year_q director_q c, c)) (take 10 results))"

text \<open>\<open>len(scored) > 1 and scored[1][0] == best_score\<close> is \<open>top_two_tied scored\<close>.
  The director loop runs whenever the scores are tied; there is no test of
  \<open>director_q\<close>.\<close>

definition decide_seen ::
  "catalog \<Rightarrow> string \<Rightarrow> (int \<times> candidate) list \<Rightarrow> (error + outcome) \<times> call list" where
  "decide_seen cat director_q scored =
     (case scored of
        [] \<Rightarrow> (Inl (IndexError ''list index out of range''), [])
      | (best_score, best) # _ \<Rightarrow>
          let ambiguous = top_two_tied scored;
              note = ''score='' @ str_int best_score
          in if ambiguous
             then (case director_loop (get_directors_seen cat) director_q (take 3 scored) of
                     (Inl e, calls) \<Rightarrow> (Inl e, calls)
                   | (Inr (Some cand), calls) \<Rightarrow>
                       (Inr (Outcome MATCHED (Some (cand_id cand)) (note @ '' | director_match'')),
                        calls)
                   | (Inr None, calls) \<Rightarrow>
                       (Inr (Outcome AMBIGUOUS (Some (cand_id best)) note), calls))
             else (Inr (Outcome MATCHED (Some (cand_id best)) note), []))"

definition resolve_seen :: "catalog \<Rightarrow> 'a import_row_scheme \<Rightarrow> (error + outcome) \<times> call list" where
  "resolve_seen cat r =
     (let title_q = norm_sc (or_empty (raw_title r));
          year_q = raw_year r;
          director_q = norm_sc (or_empty (raw_directors r));
          q = or_empty (raw_title r)
      in case fst (tmdb_get_sc (search_responses cat q None)) of
           Inl e \<Rightarrow> (Inl e, [Search q])
         | Inr results \<Rightarrow>
             if results = []
             then (Inr (Outcome NOT_FOUND None
                          (''no result for '' @ [CHR 0x27] @ str_opt (raw_title r) @ [CHR 0x27])),
                   [Search q])
             else (let (res, calls) =
                         decide_seen cat director_q (scored_seen title_q year_q director_q results)
                   in (res, Search q # calls)))"

definition match_seen :: "catalog \<Rightarrow> 'a import_row_scheme \<Rightarrow> outcome \<times> call list" where
  "match_seen cat r =
     (case resolve_seen cat r of
        (Inr out, calls) \<Rightarrow> (out, calls)
      | (Inl e, calls) \<Rightarrow> (error_outcome [] 900 e, calls))"

definition selected_pending :: "'a import_row_scheme \<Rightarrow> bool" where
  "selected_pending r = (match_status r = PENDING)"

definition main_match_seen :: "catalog \<Rightarrow> nat \<Rightarrow> 'a import_row_scheme list \<Rightarrow> 'a import_row_scheme list" where
  "main_match_seen cat limit tbl =
     run_matcher (match_seen cat) (select_where selected_pending limit tbl) tbl"

section \<open>The watch-list matcher (\<open>tmdb_match_watchlist_sc.py\<close>)\<close>

definition STOP :: "string list" where
  "STOP = [''le'', ''la'', ''les'', ''un'', ''une'', ''the'', ''a'', ''an'', ''of'']"

text \<open>\<open>re.findall(r"[a-z0-9]+", t)\<close>: the maximal runs of lower-case letters and
  digits; \<open>cur\<close> is the run being read.\<close>

fun findall_alnum :: "string \<Rightarrow> string \<Rightarrow> string list" where
  "findall_alnum cur [] = (if cur = [] then [] else [cur])"
| "findall_alnum cur (c # cs) =
     (if is_lower_alnum c then findall_alnum (cur @ [c]) cs
      else if cur = [] then findall_alnum [] cs
      else cur # findall_alnum [] cs)"

text \<open>\<open>simplify_title\<close>.  The text is cut at the first colon or hyphen; the en dash of
  the source pattern lies outside the 8-bit characters of this model.\<close>

definition simplify_title :: "string option \<Rightarrow> string" where
  "simplify_title title =
     (let t = lower (or_empty title);
          t1 = strip_brackets t;
          t2 = takeWhile (\<lambda>c. c \<noteq> CHR '':'' \<and> c \<noteq> CHR ''-'') t1;
          words = filter (\<lambda>w. w \<notin> set STOP) (findall_alnum [] t2)
      in strip (join '' '' (take 5 words)))"

definition get_directors_watchlist :: "catalog \<Rightarrow> int \<Rightarrow> error + string list" where
  "get_directors_watchlist cat i =
     (case fst (tmdb_get_sc (credits_responses cat i)) of
        Inl e \<Rightarrow> Inl e
      | Inr crew \<Rightarrow>
          Inr (map (\<lambda>c. norm_sc (field_text (crew_name c)))
                 (filter (\<lambda>c. crew_job c = Some ''Director'') crew)))"

text \<open>The scoring loop keeps the first candidate with the highest score
  (\<open>if s > best_score\<close>); the pair is \<open>(best, best_score)\<close>, at first \<open>(None, -1)\<close>.
  The score computed inline is the expression of \<open>score_candidate\<close> of the seen-list
  matcher.\<close>

fun pick_best ::
  "string \<Rightarrow> int option \<Rightarrow> candidate option \<times> int \<Rightarrow> candidate list \<Rightarrow> candidate option \<times> int" where
  "pick_best title_q year_q acc [] = acc"
| "pick_best title_q year_q (best, best_score) (cand # cands) =
     (let s = score_candidate_sc title_q year_q [] cand
      in if s > best_score then pick_best title_q year_q (Some cand, s) cands
         else pick_best title_q year_q (best, best_score) cands)"

text \<open>The loop over \<open>results[:5]\<close>: an exception of \<open>get_directors\<close> is caught and
  read as an empty list.  The result is \<open>picked\<close> with the credits calls made.\<close>

fun pick_by_director ::
  "catalog \<Rightarrow> string \<Rightarrow> candidate list \<Rightarrow> int option \<times> call list" where
  "pick_by_director cat director_q [] = (None, [])"
| "pick_by_director cat director_q (cand # rest) =
     (let dirs = (case get_directors_watchlist cat (cand_id cand) of Inl e \<Rightarrow> [] | Inr ds \<Rightarrow> ds)
      in if director_match director_q dirs then (Some (cand_id cand), [Credits (cand_id cand)])
         else (let (p, calls) = pick_by_director cat director_q rest
               in (p, Credits (cand_id cand) # calls)))"

definition do_search :: "catalog \<Rightarrow> string \<Rightarrow> error + candidate list" where
  "do_search cat q = fst (tmdb_get_sc (search_responses cat q None))"

text \<open>The two search passes: the results, the query used, and the searches made.\<close>

definition search_two_pass ::
  "catalog \<Rightarrow> string option \<Rightarrow> (error + candidate list \<times> string) \<times> call list" where
  "search_two_pass cat raw =
     (case do_search cat (or_empty raw) of
        Inl e \<Rightarrow> (Inl e, [Search (or_empty raw)])
      | Inr results \<Rightarrow>
          if results = []
          then (let q2 = simplify_title raw
                in if q2 \<noteq> [] \<and> Some q2 \<noteq> raw
                   then (case do_search cat q2 of
                           Inl e \<Rightarrow> (Inl e, [Search (or_empty raw), Search q2])
                         | Inr results2 \<Rightarrow> (Inr (results2, q2), [Search (or_empty raw), Search q2]))
                   else (Inr (results, str_opt raw), [Search (or_empty raw)]))
          else (Inr (results, str_opt raw), [Search (or_empty raw)]))"

definition resolve_watchlist ::
  "catalog \<Rightarrow> 'a import_row_scheme \<Rightarrow> (error + outcome) \<times> call list" where
  "resolve_watchlist cat it =
     (let year_q = raw_year it;
          director_q = norm_sc (or_empty (raw_directors it))
      in case search_two_pass cat (raw_title it) of
           (Inl e, calls) \<Rightarrow> (Inl e, calls)
         | (Inr (results, used_q), calls) \<Rightarrow>
             if results = []
             then (Inr (Outcome NOT_FOUND None (''no result | q='' @ used_q)), calls)
             else
               let title_q = norm_sc (or_empty (raw_title it))
               in case pick_best title_q year_q (None, - 1) (take 10 results) of
                    (None, _) \<Rightarrow>
                      (Inl (TypeError ([CHR 0x27] @ ''NoneType'' @ [CHR 0x27] @ '' object is not subscriptable'')),
                       calls)
                  | (Some best, best_score) \<Rightarrow>
                      let note = ''score='' @ str_int best_score @ '' | q='' @ used_q;
                          ambiguous = (length results > 1)
                      in if ambiguous \<and> director_q \<noteq> []
                         then (case pick_by_director cat director_q (take 5 results) of
                                 (Some picked, calls2) \<Rightarrow>
                                   if picked \<noteq> 0
                                   then (Inr (Outcome MATCHED (Some picked) (note @ '' | director_match'')),
                                         calls @ calls2)
                                   else (Inr (Outcome AMBIGUOUS (Some (cand_id best))
                                                (note @ '' | director_match'')),
                                         calls @ calls2)
                               | (None, calls2) \<Rightarrow>
                                   (Inr (Outcome AMBIGUOUS (Some (cand_id best)) note), calls @ calls2))
                         else (Inr (Outcome (if ambiguous then AMBIGUOUS else MATCHED)
                                      (Some (cand_id best)) note),
                               calls))"

definition match_watchlist :: "catalog \<Rightarrow> 'a import_row_scheme \<Rightarrow> outcome \<times> call list" where
  "match_watchlist cat it =
     (case resolve_watchlist cat it of
        (Inr out, calls) \<Rightarrow> (out, calls)
      | (Inl e, calls) \<Rightarrow> (error_outcome [] 900 e, calls))"

definition main_match_watchlist ::
  "catalog \<Rightarrow> nat \<Rightarrow> 'a import_row_scheme list \<Rightarrow> 'a import_row_scheme list" where
  "main_match_watchlist cat limit tbl =
     run_matcher (match_watchlist cat) (select_where selected_pending limit tbl) tbl"

section \<open>The NAS matcher (\<open>tmdb_match_nas.py\<close>)\<close>

text \<open>The characters that \<open>norm_name\<close> keeps besides white space: lower-case letters,
  digits, the accented letters of the pattern (Latin-1 code points), apostrophe and
  hyphen.\<close>

definition name_char :: "char \<Rightarrow> bool" where
  "name_char c =
     (is_lower_alnum c \<or> c = CHR 0x27 \<or> c = CHR ''-'' \<or>
      of_char c \<in> set [224, 226, 228, 231, 233, 232, 234, 235, 238, 239, 244, 246, 249, 251, 252,
                       255, 241 :: nat])"

definition norm_name :: "string \<Rightarrow> string" where
  "norm_name s =
     (if s = [] then []
      else let s1 = strip (lower s);
               s2 = map (\<lambda>c. if name_char c \<or> is_space c then c else CHR '' '') s1
           in strip (sub_runs is_space s2))"

text \<open>\<open>repr\<close> of a list of normalised names, as the f-string of the note prints it.
  A normalised name holds no double quote, backslash or control character, so its
  \<open>repr\<close> only chooses the quotes.\<close>

definition repr_str :: "string \<Rightarrow> string" where
  "repr_str s =
     (if CHR 0x27 \<in> set s then [CHR 0x22] @ s @ [CHR 0x22] else [CHR 0x27] @ s @ [CHR 0x27])"

definition repr_list :: "string list \<Rightarrow> string" where
  "repr_list xs = ''['' @ join '', '' (map repr_str xs) @ '']''"

definition tmdb_search_movie :: "catalog \<Rightarrow> string option \<Rightarrow> int option \<Rightarrow> error + candidate list" where
  "tmdb_search_movie cat title year =
     fst (tmdb_get_br ''/search/movie''
            (search_responses cat (or_empty title)
               (case year of None \<Rightarrow> None | Some y \<Rightarrow> if y \<noteq> 0 then Some y else None)))"

definition tmdb_directors_for_movie :: "catalog \<Rightarrow> int \<Rightarrow> error + string list" where
  "tmdb_directors_for_movie cat i =
     (case fst (tmdb_get_br (''/movie/'' @ str_int i @ ''/credits'') (credits_responses cat i)) of
        Inl e \<Rightarrow> Inl e
      | Inr crew \<Rightarrow>
          Inr (map norm_name
                 (filter (\<lambda>d. d \<noteq> [])
                    (map (\<lambda>c. field_text (crew_name c))
                       (filter (\<lambda>c. crew_job c = Some ''Director'') crew)))))"

text \<open>The loop \<open>for c in candidates\<close> that fetches the directors of every candidate;
  an exception ends it.\<close>

fun score_by_director ::
  "catalog \<Rightarrow> string \<Rightarrow> candidate list \<Rightarrow>
   (error + (int \<times> int \<times> string list) list) \<times> call list" where
  "score_by_director cat raw_dir [] = (Inr [], [])"
| "score_by_director cat raw_dir (c # cs) =
     (case tmdb_directors_for_movie cat (cand_id c) of
        Inl e \<Rightarrow> (Inl e, [Credits (cand_id c)])
      | Inr dirs \<Rightarrow>
          (case score_by_director cat raw_dir cs of
             (Inl e, calls) \<Rightarrow> (Inl e, Credits (cand_id c) # calls)
           | (Inr scored, calls) \<Rightarrow>
               (Inr ((if raw_dir \<in> set dirs then 1 else 0, cand_id c, dirs) # scored),
                Credits (cand_id c) # calls)))"

definition ambiguous_nas :: "candidate list \<Rightarrow> outcome" where
  "ambiguous_nas candidates =
     Outcome AMBIGUOUS None (''candidates='' @ join '','' (map (\<lambda>c. str_int (cand_id c)) candidates))"

definition resolve_nas :: "catalog \<Rightarrow> 'a import_row_scheme \<Rightarrow> (error + outcome) \<times> call list" where
  "resolve_nas cat it =
     (let title = raw_title it;
          year = raw_year it;
          raw_dir = norm_name (or_empty (raw_directors it));
          s = Search (or_empty title)
      in case tmdb_search_movie cat title year of
           Inl e \<Rightarrow> (Inl e, [s])
         | Inr results \<Rightarrow>
             if results = [] then (Inr (Outcome NOT_FOUND None ''no result''), [s])
             else
               let candidates = take 5 results
               in if length candidates = 1
                  then (Inr (Outcome MATCHED (Some (cand_id (hd candidates))) ''single result''), [s])
                  else if raw_dir \<noteq> []
                  then (case score_by_director cat raw_dir candidates of
                          (Inl e, calls) \<Rightarrow> (Inl e, s # calls)
                        | (Inr scored, calls) \<Rightarrow>
                            (case sort_desc scored of
                               [] \<Rightarrow> (Inl (IndexError ''list index out of range''), s # calls)
                             | (best_score, best_id, best_dirs) # _ \<Rightarrow>
                                 if best_score = 1
                                 then (Inr (Outcome MATCHED (Some best_id)
                                              (''director match: '' @ repr_list best_dirs)),
                                       s # calls)
                                 else (Inr (ambiguous_nas candidates), s # calls)))
                  else (Inr (ambiguous_nas candidates), [s]))"

definition match_nas :: "catalog \<Rightarrow> 'a import_row_scheme \<Rightarrow> outcome \<times> call list" where
  "match_nas cat it =
     (case resolve_nas cat it of
        (Inr out, calls) \<Rightarrow> (out, calls)
      | (Inl e, calls) \<Rightarrow> (error_outcome [] 1000 e, calls))"

definition main_match_nas :: "catalog \<Rightarrow> nat \<Rightarrow> 'a import_row_scheme list \<Rightarrow> 'a import_row_scheme list" where
  "main_match_nas cat limit tbl =
     run_matcher (match_nas cat) (select_where selected_pending limit tbl) tbl"

section \<open>The target tables\<close>

text \<open>The import rows of the Blu-ray and of the seen-list table carry the columns their
  appliers copy.  Dates are kept as their ISO text.\<close>

record br_row = import_row +
  formats :: "string list option"
  copies :: "int option"
  ean_isbn13 :: "string option"
  number_of_discs :: "int option"
  br_notes :: "string option"

record seen_row = import_row +
  watched_date :: "string option"
  rating_10 :: "int option"

record source_row =
  source_id :: nat
  source_code :: string
  source_label :: string

record film_row =
  film_id :: nat
  film_tmdb_id :: int
  film_imdb_id :: "string option"
  film_title :: "string option"
  film_original_title :: "string option"
  film_release_date :: "string option"
  film_year :: "int option"
  film_runtime_min :: "int option"
  film_overview :: "string option"
  film_original_language :: "string option"
  film_poster_path :: "string option"
  film_backdrop_path :: "string option"
  film_popularity :: "rat option"
  film_vote_avg :: "rat option"
  film_vote_count :: "int option"

record genre_row =
  genre_id :: nat
  tmdb_genre_id :: int
  genre_name :: string

record film_source_row =
  fs_film_id :: nat
  fs_source_id :: nat
  is_available :: bool

record physical_copy_row =
  pc_film_id :: nat
  pc_format :: "string option"
  pc_formats :: "string list"
  pc_copies :: int
  pc_ean_isbn13 :: "string option"
  pc_number_of_discs :: "int option"
  pc_notes :: "string option"

record user_film_row =
  uf_user_id :: nat
  uf_film_id :: nat
  uf_status :: string
  uf_rating_10 :: "int option"
  uf_first_seen_at :: "string option"
  uf_last_seen_at :: "string option"
  uf_rewatch_count :: int

record watch_event_row =
  we_user_id :: nat
  we_film_id :: nat
  we_watched_at :: string
  we_rating_10 :: "int option"
  we_context :: string

text \<open>The database: the import table of the script at hand and the target tables, each
  the list of its rows.  Time stamps (\<open>updated_at\<close>, \<open>scanned_at\<close>) are left out.\<close>

record 'r db =
  import_rows :: "'r list"
  sources :: "source_row list"
  films :: "film_row list"
  genres :: "genre_row list"
  film_genres :: "(nat \<times> nat) list"
  film_sources :: "film_source_row list"
  physical_copies :: "physical_copy_row list"
  user_films :: "user_film_row list"
  watch_events :: "watch_event_row list"

text \<open>A connection with \<open>autocommit = False\<close>: the committed state and the state the
  open transaction sees.\<close>

record 'r conn =
  committed :: "'r db"
  working :: "'r db"

definition commit :: "'a conn \<Rightarrow> 'a conn" where
  "commit c = c\<lparr>committed := working c\<rparr>"

definition rollback :: "'a conn \<Rightarrow> 'a conn" where
  "rollback c = c\<lparr>working := committed c\<rparr>"

text \<open>A new serial key: one more than the largest key in the table.\<close>

definition fresh :: "nat list \<Rightarrow> nat" where
  "fresh ks = Suc (foldr max ks 0)"

section \<open>Statements shared by the appliers\<close>

text \<open>\<open>int(s)\<close> on a text: white space around, an optional sign, then digits with
  single underscores allowed between them.  The message of the \<open>ValueError\<close> shows the
  text in quotes.\<close>

definition is_digit :: "char \<Rightarrow> bool" where
  "is_digit c = (let n = of_char c :: nat in 48 \<le> n \<and> n \<le> 57)"

fun no_double_underscore :: "string \<Rightarrow> bool" where
  "no_double_underscore (a # b # cs) =
     (\<not> (a = CHR ''_'' \<and> b = CHR ''_'') \<and> no_double_underscore (b # cs))"
| "no_double_underscore _ = True"

definition digits_ok :: "string \<Rightarrow> bool" where
  "digits_ok s =
     (s \<noteq> [] \<and> is_digit (hd s) \<and> is_digit (last s)
      \<and> list_all (\<lambda>c. is_digit c \<or> c = CHR ''_'') s \<and> no_double_underscore s)"

definition digits_value :: "string \<Rightarrow> nat" where
  "digits_value s = foldl (\<lambda>n c. 10 * n + (of_char c - 48)) 0 (filter is_digit s)"

definition py_int :: "string \<Rightarrow> error + int" where
  "py_int s =
     (let t = strip s;
          (neg, ds) = (case t of
                         c # cs \<Rightarrow> if c = CHR ''-'' then (True, cs)
                                   else if c = CHR ''+'' then (False, cs) else (False, t)
                       | [] \<Rightarrow> (False, t))
      in if digits_ok ds
         then Inr (if neg then - int (digits_value ds) else int (digits_value ds))
         else Inl (ValueError (''invalid literal for int() with base 10: ''
                                @ [CHR 0x27] @ s @ [CHR 0x27])))"

text \<open>\<open>int(release_date[:4]) if release_date else None\<close>.\<close>

definition year_of :: "string option \<Rightarrow> error + int option" where
  "year_of release_date =
     (if or_empty release_date = [] then Inr None
      else case py_int (take 4 (or_empty release_date)) of
             Inl e \<Rightarrow> Inl e
           | Inr y \<Rightarrow> Inr (Some y))"

text \<open>The idempotency marker: \<open>match_note NOT LIKE '%applied%'\<close> and
  \<open>COALESCE(match_note,'') || ' | applied'\<close>.\<close>

definition selected_apply :: "'a import_row_scheme \<Rightarrow> bool" where
  "selected_apply r =
     (match_status r = MATCHED \<and> tmdb_id r \<noteq> None
      \<and> (case match_note r of None \<Rightarrow> True | Some n \<Rightarrow> \<not> py_in ''applied'' n))"

definition add_marker :: "'a import_row_scheme \<Rightarrow> 'a import_row_scheme" where
  "add_marker r = r\<lparr>match_note := Some (or_empty (match_note r) @ '' | applied'')\<rparr>"

definition mark_applied :: "'a import_row_scheme \<Rightarrow> 'a import_row_scheme" where
  "mark_applied r = (add_marker r)\<lparr>match_status := APPLIED\<rparr>"

section \<open>The Blu-ray applier (\<open>tmdb_apply_br.py\<close>)\<close>

text \<open>\<open>INSERT INTO source ... ON CONFLICT (code) DO UPDATE SET label ... RETURNING
  source_id\<close>.\<close>

definition ensure_source :: "string \<Rightarrow> string \<Rightarrow> 'a db \<Rightarrow> nat \<times> 'a db" where
  "ensure_source code label d =
     (case find (\<lambda>s. source_code s = code) (sources d) of
        Some s \<Rightarrow>
          (source_id s,
           d\<lparr>sources := map (\<lambda>s. if source_code s = code then s\<lparr>source_label := label\<rparr> else s)
                            (sources d)\<rparr>)
      | None \<Rightarrow>
          (let i = fresh (map source_id (sources d))
           in (i, d\<lparr>sources := sources d @
                       [\<lparr>source_id = i, source_code = code, source_label = label\<rparr>]\<rparr>)))"

text \<open>\<open>INSERT INTO film ... ON CONFLICT (tmdb_id) DO UPDATE SET ... RETURNING film_id\<close>:
  the row with the key of \<open>new\<close> takes the columns chosen by \<open>merge old new\<close> and keeps
  its \<open>film_id\<close>; without such a row, \<open>new\<close> is added under a new \<open>film_id\<close>.\<close>

definition upsert_film_row ::
  "(film_row \<Rightarrow> film_row \<Rightarrow> film_row) \<Rightarrow> film_row \<Rightarrow> film_row list \<Rightarrow> nat \<times> film_row list" where
  "upsert_film_row merge new fs =
     (case find (\<lambda>f. film_tmdb_id f = film_tmdb_id new) fs of
        Some old \<Rightarrow>
          (film_id old,
           map (\<lambda>f. if film_tmdb_id f = film_tmdb_id new
                     then (merge f new)\<lparr>film_id := film_id f\<rparr> else f) fs)
      | None \<Rightarrow>
          (let i = fresh (map film_id fs) in (i, fs @ [new\<lparr>film_id := i\<rparr>])))"

text \<open>\<open>upsert_film\<close>: every column comes from the details.\<close>

definition upsert_film :: "details \<Rightarrow> 'a db \<Rightarrow> error + nat \<times> 'a db" where
  "upsert_film d dbs =
     (let release_date = (if or_empty (d_release_date d) = [] then None else d_release_date d)
      in case year_of release_date of
           Inl e \<Rightarrow> Inl e
         | Inr year \<Rightarrow>
             (let new = \<lparr>film_id = 0, film_tmdb_id = d_id d, film_imdb_id = d_imdb_id d,
                         film_title = d_title d, film_original_title = d_original_title d,
                         film_release_date = release_date, film_year = year,
                         film_runtime_min = d_runtime d, film_overview = d_overview d,
                         film_original_language = d_original_language d,
                         film_poster_path = d_poster_path d,
                         film_backdrop_path = d_backdrop_path d,
                         film_popularity = d_popularity d, film_vote_avg = d_vote_average d,
                         film_vote_count = d_vote_count d\<rparr>;
                  (i, fs) = upsert_film_row (\<lambda>old new. new) new (films dbs)
              in Inr (i, dbs\<lparr>films := fs\<rparr>)))"

text \<open>\<open>upsert_genres\<close>: \<open>g["id"]\<close> and \<open>g["name"]\<close> raise \<open>KeyError\<close> when the key is
  missing; the genres before it are already written.\<close>

definition upsert_genre :: "int \<Rightarrow> string \<Rightarrow> genre_row list \<Rightarrow> nat \<times> genre_row list" where
  "upsert_genre gid name gs =
     (case find (\<lambda>g. tmdb_genre_id g = gid) gs of
        Some old \<Rightarrow>
          (genre_id old, map (\<lambda>g. if tmdb_genre_id g = gid then g\<lparr>genre_name := name\<rparr> else g) gs)
      | None \<Rightarrow>
          (let i = fresh (map genre_id gs)
           in (i, gs @ [\<lparr>genre_id = i, tmdb_genre_id = gid, genre_name = name\<rparr>])))"

fun upsert_genres :: "nat \<Rightarrow> genre_json list \<Rightarrow> 'a db \<Rightarrow> error + 'a db" where
  "upsert_genres fid [] dbs = Inr dbs"
| "upsert_genres fid (g # gs) dbs =
     (case g_id g of
        None \<Rightarrow> Inl (KeyError ([CHR 0x27] @ ''id'' @ [CHR 0x27]))
      | Some gid \<Rightarrow>
          (case g_name g of
             None \<Rightarrow> Inl (KeyError ([CHR 0x27] @ ''name'' @ [CHR 0x27]))
           | Some name \<Rightarrow>
               (let (gen_id, gens) = upsert_genre gid name (genres dbs);
                    fg = (if (fid, gen_id) \<in> set (film_genres dbs) then film_genres dbs
                          else film_genres dbs @ [(fid, gen_id)])
                in upsert_genres fid gs (dbs\<lparr>genres := gens, film_genres := fg\<rparr>))))"

text \<open>\<open>INSERT INTO film_source ... ON CONFLICT (film_id, source_id) DO NOTHING\<close>.  The
  declaration of the table is not among the scripts; no foreign key is checked here.\<close>

definition link_source :: "nat \<Rightarrow> nat \<Rightarrow> 'a db \<Rightarrow> 'a db" where
  "link_source fid sid dbs =
     (if list_ex (\<lambda>l. fs_film_id l = fid \<and> fs_source_id l = sid) (film_sources dbs) then dbs
      else dbs\<lparr>film_sources := film_sources dbs @
                  [\<lparr>fs_film_id = fid, fs_source_id = sid, is_available = True\<rparr>]\<rparr>)"

definition upper_char :: "char \<Rightarrow> char" where
  "upper_char c =
     (let n = of_char c :: nat in
      if (97 \<le> n \<and> n \<le> 122) \<or> (224 \<le> n \<and> n \<le> 254 \<and> n \<noteq> 247)
      then char_of (n - 32) else c)"

definition choose_primary_format :: "string list \<Rightarrow> string option" where
  "choose_primary_format fmts =
     (if fmts = [] then None
      else let s = set (map (map upper_char) fmts)
           in if ''4K'' \<in> s then Some ''UHD''
              else if ''BR'' \<in> s then Some ''BLURAY''
              else if ''DVD'' \<in> s then Some ''DVD''
              else None)"

text \<open>\<open>INSERT INTO physical_copy ... ON CONFLICT (film_id) DO UPDATE SET ...\<close>.\<close>

definition upsert_physical_copy :: "nat \<Rightarrow> 'a br_row_scheme \<Rightarrow> 'a br_row_scheme db \<Rightarrow> 'a br_row_scheme db" where
  "upsert_physical_copy fid it dbs =
     (let fmts = (case formats it of None \<Rightarrow> [] | Some f \<Rightarrow> f);
          new = \<lparr>pc_film_id = fid, pc_format = choose_primary_format fmts, pc_formats = fmts,
                 pc_copies = (case copies it of None \<Rightarrow> 1 | Some c \<Rightarrow> c),
                 pc_ean_isbn13 = ean_isbn13 it, pc_number_of_discs = number_of_discs it,
                 pc_notes = br_notes it\<rparr>
      in if list_ex (\<lambda>p. pc_film_id p = fid) (physical_copies dbs)
         then dbs\<lparr>physical_copies := map (\<lambda>p. if pc_film_id p = fid then new else p)
                                          (physical_copies dbs)\<rparr>
         else dbs\<lparr>physical_copies := physical_copies dbs @ [new]\<rparr>)"

text \<open>The body of the \<open>try\<close> block for one selected row, on the state the transaction
  sees.  A selected row has a \<open>tmdb_id\<close>; the first case is never taken for one.\<close>

definition apply_br_steps ::
  "catalog \<Rightarrow> nat \<Rightarrow> 'a br_row_scheme \<Rightarrow> 'a br_row_scheme db \<Rightarrow> error + 'a br_row_scheme db" where
  "apply_br_steps cat br_source_id it dbs =
     (case tmdb_id it of
        None \<Rightarrow> Inl (TypeError ''tmdb_id is NULL'')
      | Some tid \<Rightarrow>
          (case fst (tmdb_get_br (''/movie/'' @ str_int tid) (details_responses cat tid)) of
             Inl e \<Rightarrow> Inl e
           | Inr d \<Rightarrow>
               (case upsert_film d dbs of
                  Inl e \<Rightarrow> Inl e
                | Inr (fid, db1) \<Rightarrow>
                    (case upsert_genres fid (d_genres d) db1 of
                       Inl e \<Rightarrow> Inl e
                     | Inr db2 \<Rightarrow>
                         (let db3 = link_source fid br_source_id db2;
                              db4 = upsert_physical_copy fid it db3
                          in Inr (db4\<lparr>import_rows :=
                                    update_where (import_id it) mark_applied (import_rows db4)\<rparr>))))))"

text \<open>One turn of the loop: commit on success; on an exception roll back, write
  \<open>ERROR\<close> with the shortened message, and commit that.\<close>

definition apply_one ::
  "('a import_row_scheme \<Rightarrow> 'a import_row_scheme db \<Rightarrow> error + 'a import_row_scheme db) \<Rightarrow>
   string \<Rightarrow> 'a import_row_scheme conn \<Rightarrow> 'a import_row_scheme \<Rightarrow> 'a import_row_scheme conn" where
  "apply_one steps prefix c it =
     (case steps it (working c) of
        Inr d \<Rightarrow> commit (c\<lparr>working := d\<rparr>)
      | Inl e \<Rightarrow>
          (let c1 = rollback c;
               d = working c1
           in commit (c1\<lparr>working :=
                d\<lparr>import_rows := update_where (import_id it)
                                    (write_outcome (error_outcome prefix 900 e)) (import_rows d)\<rparr>\<rparr>)))"

text \<open>\<open>main\<close>: the source row is written and the rows are selected in the transaction
  that the first turn of the loop ends; leaving the \<open>with conn\<close> block commits.\<close>

definition main_apply_br :: "catalog \<Rightarrow> nat \<Rightarrow> 'a br_row_scheme db \<Rightarrow> 'a br_row_scheme db" where
  "main_apply_br cat limit d0 =
     (let (br_source_id, d1) = ensure_source ''BR'' ''Blu-ray / Physique'' d0;
          c = \<lparr>committed = d0, working = d1\<rparr>;
          items = select_where selected_apply limit (import_rows d1);
          c' = foldl (apply_one (apply_br_steps cat br_source_id) ''apply: '') c items
      in committed (commit c'))"

section \<open>The seen-list applier (\<open>tmdb_apply_seen_sc.py\<close>)\<close>

definition USER_ID :: nat where
  "USER_ID = 1"

definition normalize_date :: "string option \<Rightarrow> string option" where
  "normalize_date d = (if or_empty d = [] \<or> d = Some ''1970-01-01'' then None else d)"

text \<open>The film statement of this script writes seven columns; on a conflict the other
  columns of the row keep their values, in a new row they are \<open>NULL\<close>.\<close>

definition upsert_film_seen :: "details \<Rightarrow> 'a db \<Rightarrow> error + nat \<times> 'a db" where
  "upsert_film_seen d dbs =
     (case year_of (d_release_date d) of
        Inl e \<Rightarrow> Inl e
      | Inr year \<Rightarrow>
          (let new = \<lparr>film_id = 0, film_tmdb_id = d_id d, film_imdb_id = None,
                      film_title = d_title d, film_original_title = d_original_title d,
                      film_release_date = d_release_date d, film_year = year,
                      film_runtime_min = d_runtime d, film_overview = d_overview d,
                      film_original_language = None, film_poster_path = None,
                      film_backdrop_path = None, film_popularity = None, film_vote_avg = None,
                      film_vote_count = None\<rparr>;
               merge = (\<lambda>old n. old\<lparr>film_title := film_title n,
                                     film_original_title := film_original_title n,
                                     film_release_date := film_release_date n,
                                     film_year := film_year n,
                                     film_runtime_min := film_runtime_min n,
                                     film_overview := film_overview n\<rparr>);
               (i, fs) = upsert_film_row merge new (films dbs)
           in Inr (i, dbs\<lparr>films := fs\<rparr>)))"

text \<open>\<open>INSERT INTO user_film ... ON CONFLICT (user_id, film_id) DO UPDATE SET status,
  rating_10, last_seen_at\<close>.\<close>

definition upsert_user_film ::
  "nat \<Rightarrow> int option \<Rightarrow> string option \<Rightarrow> 'a db \<Rightarrow> 'a db" where
  "upsert_user_film fid rating watched dbs =
     (if list_ex (\<lambda>u. uf_user_id u = USER_ID \<and> uf_film_id u = fid) (user_films dbs)
      then dbs\<lparr>user_films :=
             map (\<lambda>u. if uf_user_id u = USER_ID \<and> uf_film_id u = fid
                       then u\<lparr>uf_status := ''SEEN'', uf_rating_10 := rating,
                              uf_last_seen_at := watched\<rparr>
                       else u) (user_films dbs)\<rparr>
      else dbs\<lparr>user_films := user_films dbs @
             [\<lparr>uf_user_id = USER_ID, uf_film_id = fid, uf_status = ''SEEN'',
               uf_rating_10 = rating, uf_first_seen_at = watched, uf_last_seen_at = watched,
               uf_rewatch_count = 0\<rparr>]\<rparr>)"

definition apply_seen_steps ::
  "catalog \<Rightarrow> 'a seen_row_scheme \<Rightarrow> 'a seen_row_scheme db \<Rightarrow> error + 'a seen_row_scheme db" where
  "apply_seen_steps cat r dbs =
     (case tmdb_id r of
        None \<Rightarrow> Inl (TypeError ''tmdb_id is NULL'')
      | Some tid \<Rightarrow>
          (case tmdb_get_once (details_responses cat tid) of
             Inl e \<Rightarrow> Inl e
           | Inr d \<Rightarrow>
               (case upsert_film_seen d dbs of
                  Inl e \<Rightarrow> Inl e
                | Inr (fid, db1) \<Rightarrow>
                    (let watched = normalize_date (watched_date r);
                         db2 = upsert_user_film fid (rating_10 r) watched db1;
                         db3 = (case watched of
                                  None \<Rightarrow> db2
                                | Some w \<Rightarrow>
                                    db2\<lparr>watch_events := watch_events db2 @
                                      [\<lparr>we_user_id = USER_ID, we_film_id = fid, we_watched_at = w,
                                        we_rating_10 = rating_10 r,
                                        we_context = ''senscritique_import''\<rparr>]\<rparr>)
                     in Inr (db3\<lparr>import_rows :=
                               update_where (import_id r) add_marker (import_rows db3)\<rparr>)))))"

definition main_apply_seen :: "catalog \<Rightarrow> nat \<Rightarrow> 'a seen_row_scheme db \<Rightarrow> 'a seen_row_scheme db" where
  "main_apply_seen cat limit d0 =
     (let c = \<lparr>committed = d0, working = d0\<rparr>;
          rows = select_where selected_apply limit (import_rows d0);
          c' = foldl (apply_one (apply_seen_steps cat) []) c rows
      in committed (commit c'))"

section \<open>Manual resolution (\<open>resolve_seen_sc.py\<close>) and the states a row can reach\<close>

text \<open>The two writes of the interactive script: the operator marks the row as not found,
  or gives a catalogue id (a choice of 0 is refused: \<open>if not chosen_id\<close>).\<close>

definition manual_not_found :: "'a import_row_scheme \<Rightarrow> 'a import_row_scheme" where
  "manual_not_found r =
     r\<lparr>match_status := NOT_FOUND,
       match_note := Some (or_empty (match_note r) @ '' | manual_not_found'')\<rparr>"

definition manual_fix :: "int \<Rightarrow> 'a import_row_scheme \<Rightarrow> 'a import_row_scheme" where
  "manual_fix chosen_id r =
     r\<lparr>tmdb_id := Some chosen_id, match_status := MATCHED,
       match_note := Some (or_empty (match_note r) @ '' | manual_fix'')\<rparr>"

text \<open>\<open>replace_boxset_with_films.py\<close> archives the row of a box set, whatever its
  state.\<close>

definition replaced :: "'a import_row_scheme \<Rightarrow> 'a import_row_scheme" where
  "replaced r =
     r\<lparr>match_status := REPLACED,
       match_note := Some (or_empty (match_note r) @ '' | replaced_by_manual_ids'')\<rparr>"

definition selected_resolve :: "'a import_row_scheme \<Rightarrow> bool" where
  "selected_resolve r =
     (match_status r = ERROR \<or> match_status r = AMBIGUOUS \<or> match_status r = NOT_FOUND)"

text \<open>
  The states of a row: it is inserted as \<open>PENDING\<close> without id by the import scripts (or
  as \<open>MATCHED\<close> with an id by \<open>replace_boxset_with_films.py\<close>), and then changed by the
  matchers, by the appliers (which set \<open>APPLIED\<close> and the marker for the Blu-ray and NAS
  tables, the marker alone for the SensCritique tables), by the error handler of an
  applier, by manual resolution, each on the rows it selects, and by the archiving of a box
  set.  \<open>import_br.py\<close> and \<open>import_nas.py\<close> do not write the two columns; their rows are
  taken to start as those of the SensCritique import scripts do.
\<close>

inductive reachable :: "'a import_row_scheme \<Rightarrow> bool" where
  imported: "match_status r = PENDING \<Longrightarrow> tmdb_id r = None \<Longrightarrow> reachable r"
| boxset: "match_status r = MATCHED \<Longrightarrow> tmdb_id r = Some i \<Longrightarrow> reachable r"
| by_match_br: "reachable r \<Longrightarrow> selected_br r \<Longrightarrow>
     reachable (write_outcome (fst (match_br cat r)) r)"
| by_match_seen: "reachable r \<Longrightarrow> selected_pending r \<Longrightarrow>
     reachable (write_outcome (fst (match_seen cat r)) r)"
| by_match_watchlist: "reachable r \<Longrightarrow> selected_pending r \<Longrightarrow>
     reachable (write_outcome (fst (match_watchlist cat r)) r)"
| by_match_nas: "reachable r \<Longrightarrow> selected_pending r \<Longrightarrow>
     reachable (write_outcome (fst (match_nas cat r)) r)"
| by_apply: "reachable r \<Longrightarrow> selected_apply r \<Longrightarrow> reachable (mark_applied r)"
| by_apply_sc: "reachable r \<Longrightarrow> selected_apply r \<Longrightarrow> reachable (add_marker r)"
| by_apply_error: "reachable r \<Longrightarrow> selected_apply r \<Longrightarrow>
     reachable (write_outcome (error_outcome prefix 900 e) r)"
| by_manual_fix: "reachable r \<Longrightarrow> selected_resolve r \<Longrightarrow> chosen_id \<noteq> 0 \<Longrightarrow>
     reachable (manual_fix chosen_id r)"
| by_manual_not_found: "reachable r \<Longrightarrow> selected_resolve r \<Longrightarrow>
     reachable (manual_not_found r)"
| by_replace: "reachable r \<Longrightarrow> reachable (replaced r)"

section \<open>The rules as the specification words them\<close>

text \<open>
  The score as the specification states it, for comparison with the code: 5 for an exact
  match of the normalised query with the title or the original title, otherwise 2 for
  containment in either direction, and 3 when the first four characters of the release
  date are the query year.
\<close>

definition spec_score :: "string \<Rightarrow> int option \<Rightarrow> candidate \<Rightarrow> int" where
  "spec_score q year_q cand =
     (let t = norm_sc (or_empty (cand_title cand));
          ot = norm_sc (or_empty (cand_original_title cand))
      in (if t = q \<or> ot = q then 5
          else if py_in q t \<or> py_in t q \<or> py_in q ot \<or> py_in ot q then 2 else 0)
         + (case year_q of
              None \<Rightarrow> 0
            | Some y \<Rightarrow> if take 4 (or_empty (cand_release_date cand)) = str_int y then 3 else 0))"

text \<open>
  The same with containment in one direction only: the query inside the title or the
  original title.  \<open>t\<close> and \<open>ot\<close> are the normalised titles, \<open>rd\<close> the release date;
  \<open>allow\<close> says whether the containment rule may fire.
\<close>

definition one_way_score :: "bool \<Rightarrow> string \<Rightarrow> int option \<Rightarrow> string \<Rightarrow> string \<Rightarrow> string \<Rightarrow> int" where
  "one_way_score allow q year_q t ot rd =
     (if t = q \<or> ot = q then 5 else if allow \<and> (py_in q t \<or> py_in q ot) then 2 else 0)
     + (case year_q of None \<Rightarrow> 0 | Some y \<Rightarrow> if take 4 rd = str_int y then 3 else 0)"

text \<open>A query year is plain when it is absent or has four digits.\<close>

definition plain_year :: "int option \<Rightarrow> bool" where
  "plain_year year_q = (case year_q of None \<Rightarrow> True | Some y \<Rightarrow> 1000 \<le> y \<and> y \<le> 9999)"

text \<open>
  The director rule without the loop.  A candidate is decisive when its credits call
  raises or returns directors that meet the hint; the loop ends at the first decisive
  candidate, and \<open>credits_until\<close> lists the credits calls up to and including it.
\<close>

definition decisive :: "(int \<Rightarrow> error + string list) \<Rightarrow> string \<Rightarrow> int \<times> candidate \<Rightarrow> bool" where
  "decisive fetch hint p =
     (case fetch (cand_id (snd p)) of Inl e \<Rightarrow> True | Inr dirs \<Rightarrow> director_match hint dirs)"

definition credits_until ::
  "(int \<Rightarrow> error + string list) \<Rightarrow> string \<Rightarrow> (int \<times> candidate) list \<Rightarrow> call list" where
  "credits_until fetch hint xs =
     map (\<lambda>p. Credits (cand_id (snd p)))
       (takeWhile (\<lambda>p. \<not> decisive fetch hint p) xs
        @ take 1 (dropWhile (\<lambda>p. \<not> decisive fetch hint p) xs))"

text \<open>The same for the watch-list matcher, where a credits call that raises counts as an
  empty list of directors.\<close>

definition watch_meets :: "catalog \<Rightarrow> string \<Rightarrow> candidate \<Rightarrow> bool" where
  "watch_meets cat director_q c =
     director_match director_q
       (case get_directors_watchlist cat (cand_id c) of Inl e \<Rightarrow> [] | Inr ds \<Rightarrow> ds)"

definition watch_credits_until :: "catalog \<Rightarrow> string \<Rightarrow> candidate list \<Rightarrow> call list" where
  "watch_credits_until cat director_q cs =
     map (\<lambda>c. Credits (cand_id c))
       (takeWhile (\<lambda>c. \<not> watch_meets cat director_q c) cs
        @ take 1 (dropWhile (\<lambda>c. \<not> watch_meets cat director_q c) cs))"

fun is_credits :: "call \<Rightarrow> bool" where
  "is_credits (Credits i) = True"
| "is_credits _ = False"

fun outcome_status :: "outcome \<Rightarrow> status" where
  "outcome_status (Outcome st tid note) = st"

fun outcome_id :: "outcome \<Rightarrow> int option" where
  "outcome_id (Outcome st tid note) = tid"

fun outcome_note :: "outcome \<Rightarrow> string" where
  "outcome_note (Outcome st tid note) = note"

text \<open>
  Ambiguity as the specification words it, without reference to the sorted list: there
  are at least two candidates and the highest score is reached by at least two of them.
\<close>

definition tied_at_top :: "(int \<times> 'a) list \<Rightarrow> bool" where
  "tied_at_top xs =
     (2 \<le> length xs \<and> 2 \<le> length (filter (\<lambda>p. fst p = Max (set (map fst xs))) xs))"

fun is_search :: "call \<Rightarrow> bool" where
  "is_search (Search q) = True"
| "is_search _ = False"

text \<open>An outcome that sets neither \<open>APPLIED\<close> nor \<open>PENDING\<close> and names an id whenever
  it sets \<open>MATCHED\<close>.\<close>

fun sound_outcome :: "outcome \<Rightarrow> bool" where
  "sound_outcome (Outcome st tid note) =
     (st \<noteq> APPLIED \<and> st \<noteq> PENDING \<and> (st = MATCHED \<longrightarrow> tid \<noteq> None))"

text \<open>The invariant of the specification, and the parts of it that the scripts keep.\<close>

definition id_iff_resolved :: "'a import_row_scheme \<Rightarrow> bool" where
  "id_iff_resolved r =
     ((tmdb_id r \<noteq> None) =
      (match_status r = MATCHED \<or> match_status r = AMBIGUOUS \<or> match_status r = APPLIED))"

definition id_if_matched :: "'a import_row_scheme \<Rightarrow> bool" where
  "id_if_matched r =
     (match_status r = MATCHED \<or> match_status r = APPLIED \<longrightarrow> tmdb_id r \<noteq> None)"

definition no_id_if_pending :: "'a import_row_scheme \<Rightarrow> bool" where
  "no_id_if_pending r = (match_status r = PENDING \<longrightarrow> tmdb_id r = None)"

section \<open>Example data\<close>

text \<open>Responses, candidates, catalogues and rows on which the theorems are evaluated.\<close>

definition ok :: "'a \<Rightarrow> 'a response list" where
  "ok x = [\<lparr>status_code = 200, reason = ''OK'', json = x\<rparr>]"

definition too_many :: "'a \<Rightarrow> 'a response" where
  "too_many x = \<lparr>status_code = 429, reason = ''429 Client Error: Too Many Requests'', json = x\<rparr>"

definition heat :: candidate where
  "heat = \<lparr>cand_id = 949, cand_title = Some ''Heat'', cand_original_title = Some ''Heat'',
           cand_release_date = Some ''1995-12-15''\<rparr>"

definition pending_row :: "string \<Rightarrow> int option \<Rightarrow> string option \<Rightarrow> import_row" where
  "pending_row title year director =
     \<lparr>import_id = 1, raw_title = Some title, raw_year = year, raw_directors = director,
      raw_first_name = None, raw_last_name = None, tmdb_id = None, match_status = PENDING,
      match_note = None\<rparr>"

definition director :: "string \<Rightarrow> crew_member" where
  "director n = \<lparr>crew_name = Text n, crew_job = Some ''Director''\<rparr>"

text \<open>A catalogue that answers every search with the same results and knows the
  directors of some films; it has no details.\<close>

definition fixed_catalog :: "candidate list \<Rightarrow> (int \<Rightarrow> crew_member list) \<Rightarrow> catalog" where
  "fixed_catalog results crew =
     \<lparr>search_responses = (\<lambda>q y. ok results),
      credits_responses = (\<lambda>i. ok (crew i)),
      details_responses = (\<lambda>i. [])\<rparr>"

text \<open>A catalogue whose search is rate-limited on every request.\<close>

definition limited_catalog :: catalog where
  "limited_catalog =
     \<lparr>search_responses = (\<lambda>q y. [too_many [], too_many [], too_many [], too_many []]),
      credits_responses = (\<lambda>i. []),
      details_responses = (\<lambda>i. [])\<rparr>"

text \<open>Two films called Heat, the second directed by Michael Mann, and five results of
  which only the first has the exact title.\<close>

definition heat_twice :: "candidate list" where
  "heat_twice = [heat, heat\<lparr>cand_id := 950\<rparr>]"

definition mann_only :: "int \<Rightarrow> crew_member list" where
  "mann_only i = (if i = 950 then [director ''Michael  Mann''] else [])"

definition heat_sequels :: "candidate list" where
  "heat_sequels =
     [heat,
      heat\<lparr>cand_id := 2, cand_title := Some ''Heat 2'', cand_original_title := Some ''Heat 2''\<rparr>,
      heat\<lparr>cand_id := 3, cand_title := Some ''Heat 3'', cand_original_title := Some ''Heat 3''\<rparr>,
      heat\<lparr>cand_id := 4, cand_title := Some ''Heat 4'', cand_original_title := Some ''Heat 4''\<rparr>,
      heat\<lparr>cand_id := 5, cand_title := Some ''Heat 5'', cand_original_title := Some ''Heat 5''\<rparr>]"

text \<open>A catalogue that has results for one query only.\<close>

definition keyed_catalog :: "string \<Rightarrow> candidate list \<Rightarrow> catalog" where
  "keyed_catalog q results =
     \<lparr>search_responses = (\<lambda>q' y. ok (if q' = q then results else [])),
      credits_responses = (\<lambda>i. ok []),
      details_responses = (\<lambda>i. [])\<rparr>"

definition no_crew :: "int \<Rightarrow> crew_member list" where
  "no_crew i = []"

text \<open>Three rows after a step of a script: left ambiguous by the NAS matcher, matched by
  the seen-list matcher, and that row after a failed apply.\<close>

definition nas_ambiguous_row :: import_row where
  "nas_ambiguous_row =
     write_outcome (fst (match_nas (fixed_catalog heat_twice no_crew) (pending_row ''Heat'' None None)))
       (pending_row ''Heat'' None None)"

definition seen_matched_row :: import_row where
  "seen_matched_row =
     write_outcome
       (fst (match_seen (fixed_catalog [heat] no_crew) (pending_row ''Heat'' (Some 1995) None)))
       (pending_row ''Heat'' (Some 1995) None)"

definition apply_failed_row :: import_row where
  "apply_failed_row =
     write_outcome (error_outcome ''apply: '' 900 (HTTPError ''404 Client Error: Not Found''))
       seen_matched_row"

text \<open>A catalogue whose search for Heat is rate-limited and finds the film for every
  other title; one that knows the details of film 949 only, and one whose details of
  film 949 list a genre without id.\<close>

definition flaky_catalog :: catalog where
  "flaky_catalog =
     \<lparr>search_responses =
        (\<lambda>q y. if q = ''Heat'' then [too_many [], too_many [], too_many []] else ok [heat]),
      credits_responses = (\<lambda>i. ok []),
      details_responses = (\<lambda>i. [])\<rparr>"

definition details_heat :: details where
  "details_heat =
     \<lparr>d_id = 949, d_imdb_id = Some ''tt0113277'', d_title = Some ''Heat'',
      d_original_title = Some ''Heat'', d_release_date = Some ''1995-12-15'',
      d_runtime = Some 170, d_overview = None, d_original_language = Some ''en'',
      d_poster_path = None, d_backdrop_path = None, d_popularity = None,
      d_vote_average = None, d_vote_count = Some 7000,
      d_genres = [\<lparr>g_id = Some 80, g_name = Some ''Crime''\<rparr>]\<rparr>"

definition not_found :: "'a \<Rightarrow> 'a response" where
  "not_found x = \<lparr>status_code = 404, reason = ''404 Client Error: Not Found'', json = x\<rparr>"

definition details_catalog :: catalog where
  "details_catalog =
     \<lparr>search_responses = (\<lambda>q y. []),
      credits_responses = (\<lambda>i. []),
      details_responses = (\<lambda>i. if i = 949 then ok details_heat else [not_found details_heat])\<rparr>"

definition broken_genre_catalog :: catalog where
  "broken_genre_catalog =
     \<lparr>search_responses = (\<lambda>q y. []),
      credits_responses = (\<lambda>i. []),
      details_responses =
        (\<lambda>i. ok (details_heat\<lparr>d_genres := [\<lparr>g_id = None, g_name = Some ''Crime''\<rparr>]\<rparr>))\<rparr>"

text \<open>A matched Blu-ray row and a matched seen-list row for film 949, and a database
  that holds only import rows.\<close>

definition br_heat :: br_row where
  "br_heat =
     \<lparr>import_id = 1, raw_title = Some ''Heat'', raw_year = None, raw_directors = None,
      raw_first_name = None, raw_last_name = None, tmdb_id = Some 949, match_status = MATCHED,
      match_note = Some ''single result | best_score=5'', formats = Some [''BR''],
      copies = None, ean_isbn13 = None, number_of_discs = Some 1, br_notes = None\<rparr>"

definition seen_heat :: seen_row where
  "seen_heat =
     \<lparr>import_id = 1, raw_title = Some ''Heat'', raw_year = Some 1995, raw_directors = None,
      raw_first_name = None, raw_last_name = None, tmdb_id = Some 949, match_status = MATCHED,
      match_note = Some ''score=8'', watched_date = Some ''2020-05-01'', rating_10 = Some 9\<rparr>"

definition only_rows :: "'r list \<Rightarrow> 'r db" where
  "only_rows rs =
     \<lparr>import_rows = rs, sources = [], films = [], genres = [], film_genres = [],
      film_sources = [], physical_copies = [], user_films = [], watch_events = []\<rparr>"

text \<open>Five results with the title Heat; two such results followed by a sequel; a crew
  table in which only film 3 is directed by Michael Mann; and a catalogue that finds the
  two films called Heat, knows Michael Mann as the director of film 949, and does not
  answer the credits request for any other film.\<close>

definition heat_five :: "candidate list" where
  "heat_five =
     [heat\<lparr>cand_id := 1\<rparr>, heat\<lparr>cand_id := 2\<rparr>, heat\<lparr>cand_id := 3\<rparr>, heat\<lparr>cand_id := 4\<rparr>,
      heat\<lparr>cand_id := 5\<rparr>]"

definition heat_pair_and_sequel :: "candidate list" where
  "heat_pair_and_sequel =
     [heat, heat\<lparr>cand_id := 950\<rparr>,
      heat\<lparr>cand_id := 3, cand_title := Some ''Heat 2'', cand_original_title := Some ''Heat 2''\<rparr>]"

definition mann_third :: "int \<Rightarrow> crew_member list" where
  "mann_third i = (if i = 3 then [director ''Michael Mann''] else [])"

definition mann_first_catalog :: catalog where
  "mann_first_catalog =
     \<lparr>search_responses = (\<lambda>q y. ok heat_twice),
      credits_responses = (\<lambda>i. if i = 949 then ok [director ''Michael Mann''] else []),
      details_responses = (\<lambda>i. [])\<rparr>"


text \<open>A seen-list row left ambiguous with the id of its first candidate, and that row
  marked as not found by the operator.\<close>

definition seen_ambiguous_row :: import_row where
  "seen_ambiguous_row =
     write_outcome
       (fst (match_seen (fixed_catalog heat_twice no_crew) (pending_row ''Heat'' (Some 1995) None)))
       (pending_row ''Heat'' (Some 1995) None)"

definition given_up_row :: import_row where
  "given_up_row = manual_not_found seen_ambiguous_row"

text \<open>Two matched Blu-ray rows: the first names film 7, whose details the catalogue does
  not have, the second film 949.\<close>

definition br_unknown :: br_row where
  "br_unknown = br_heat\<lparr>tmdb_id := Some 7\<rparr>"

definition br_heat_second :: br_row where
  "br_heat_second = br_heat\<lparr>import_id := 2\<rparr>"

section \<open>Normalisation is idempotent\<close>

lemma set_sub_runs: "set (sub_runs P s) \<subseteq> {c \<in> set s. \<not> P c} \<union> {CHR '' ''}"
proof (induction P s rule: sub_runs.induct)
  case (1 P)
  show ?case by simp
next
  case (2 P c cs)
  show ?case
  proof (cases "P c")
    case True
    have "set (dropWhile P cs) \<subseteq> set cs" by (rule set_dropWhileD[THEN subsetI]) 
    with 2 True show ?thesis by auto
  next
    case False
    with 2 show ?thesis by auto
  qed
qed

lemma hd_sub_runs:
  "s = [] \<or> \<not> P (hd s) \<Longrightarrow> sub_runs P s = [] \<or> \<not> P (hd (sub_runs P s))"
  by (cases s) auto

lemma last_sub_runs:
  "s \<noteq> [] \<Longrightarrow> \<not> P (last s) \<Longrightarrow>
   sub_runs P s \<noteq> [] \<and> last (sub_runs P s) = last s"
proof (induction P s rule: sub_runs.induct)
  case (1 P)
  then show ?case by simp
next
  case (2 P c cs)
  show ?case
  proof (cases "P c")
    case True
    with 2 have ne: "cs \<noteq> []" by auto
    have split: "takeWhile P cs @ dropWhile P cs = cs" by simp
    have dne: "dropWhile P cs \<noteq> []"
    proof
      assume "dropWhile P cs = []"
      then have "\<forall>x\<in>set cs. P x" by (simp add: dropWhile_eq_Nil_conv)
      with ne have "P (last cs)" by simp
      with 2 ne show False by simp
    qed
    then have "last (dropWhile P cs) = last cs"
      by (metis split last_appendR)
    with 2 True ne dne show ?thesis by simp
  next
    case False
    with 2 show ?thesis by (cases cs) auto
  qed
qed

lemma spaced_sub_runs: "spaced P (sub_runs P s)"
proof (induction P s rule: sub_runs.induct)
  case (1 P)
  show ?case by simp
next
  case (2 P c cs)
  show ?case
  proof (cases "P c")
    case True
    have "dropWhile P cs = [] \<or> \<not> P (hd (dropWhile P cs))"
      by (metis hd_dropWhile)
    then have "sub_runs P (dropWhile P cs) = [] \<or> \<not> P (hd (sub_runs P (dropWhile P cs)))"
      by (rule hd_sub_runs)
    with 2 True show ?thesis by simp
  next
    case False
    with 2 show ?thesis by simp
  qed
qed

lemma sub_runs_spaced: "spaced P s \<Longrightarrow> sub_runs P s = s"
proof (induction s)
  case Nil
  show ?case by simp
next
  case (Cons c cs)
  show ?case
  proof (cases "P c")
    case True
    with Cons.prems have c: "c = CHR '' ''" and h: "cs = [] \<or> \<not> P (hd cs)" by auto
    from h have "dropWhile P cs = cs" by (cases cs) auto
    with Cons True c show ?thesis by simp
  next
    case False
    with Cons show ?thesis by simp
  qed
qed

lemma spaced_append_left: "spaced P (xs @ ys) \<Longrightarrow> spaced P xs"
proof (induction xs)
  case Nil
  show ?case by simp
next
  case (Cons c xs)
  then show ?case by (cases xs) auto
qed

lemma spaced_append_right: "spaced P (xs @ ys) \<Longrightarrow> spaced P ys"
  by (induction xs) auto

lemma rstrip_prefix:
  "rev (dropWhile P (rev s)) @ rev (takeWhile P (rev s)) = s"
  by (metis rev_append rev_rev_ident takeWhile_dropWhile_id)

lemma strip_decomp: "\<exists>a b. s = a @ strip s @ b"
proof -
  have "s = takeWhile is_space s @ dropWhile is_space s" by simp
  moreover have "dropWhile is_space s = strip s @ rev (takeWhile is_space (rev (dropWhile is_space s)))"
    unfolding strip_def by (simp add: rstrip_prefix)
  ultimately show ?thesis by metis
qed

lemma spaced_strip: "spaced P s \<Longrightarrow> spaced P (strip s)"
  by (metis strip_decomp spaced_append_left spaced_append_right)

lemma set_strip: "set (strip s) \<subseteq> set s"
  by (metis strip_decomp set_append Un_upper1 Un_upper2 subset_trans)

lemma dropWhile_keep: "xs = [] \<or> \<not> P (hd xs) \<Longrightarrow> dropWhile P xs = xs"
  by (cases xs) auto

lemma strip_trimmed: "trimmed s \<Longrightarrow> strip s = s"
proof (cases s)
  case Nil
  then show ?thesis by (simp add: strip_def)
next
  case (Cons c cs)
  assume "trimmed s"
  with Cons have h: "\<not> is_space c" and l: "\<not> is_space (last s)" by (auto simp: trimmed_def)
  from h Cons have 1: "dropWhile is_space s = s" by simp
  from Cons have "hd (rev s) = last s" by (metis hd_rev list.distinct(1))
  with l have "\<not> is_space (hd (rev s))" by simp
  then have 2: "dropWhile is_space (rev s) = rev s" by (simp add: dropWhile_keep)
  show ?thesis by (simp add: strip_def 1 2)
qed

lemma trimmed_strip: "trimmed (strip s)"
proof (cases "strip s = []")
  case True
  then show ?thesis by (simp add: trimmed_def)
next
  case False
  let ?u = "dropWhile is_space s"
  let ?w = "dropWhile is_space (rev ?u)"
  have s: "strip s = rev ?w" by (simp add: strip_def)
  with False have wne: "?w \<noteq> []" by simp
  then have "\<not> is_space (hd ?w)" by (metis hd_dropWhile)
  then have lst: "\<not> is_space (last (strip s))" using wne by (simp add: s last_rev)
  have une: "?u \<noteq> []" using wne by (metis dropWhile.simps(1) rev.simps(1))
  then have hu: "\<not> is_space (hd ?u)" by (metis hd_dropWhile)
  have "?u = strip s @ rev (takeWhile is_space (rev ?u))"
    unfolding strip_def by (simp add: rstrip_prefix)
  with False have "hd ?u = hd (strip s)" by (metis hd_append2)
  with hu lst False show ?thesis by (simp add: trimmed_def)
qed

lemma is_space_lower_char: "is_space (lower_char c) = is_space c"
  unfolding is_space_def lower_char_def Let_def by auto

lemma lower_char_idem: "lower_char (lower_char c) = lower_char c"
  unfolding lower_char_def Let_def by auto

lemma lower_char_blank: "lower_char CHR '' '' = CHR '' ''"
  by (simp add: lower_char_def)

lemma lower_char_alnum: "is_lower_alnum c \<Longrightarrow> lower_char c = c"
  unfolding lower_char_def is_lower_alnum_def Let_def by auto

lemma bracket_not_alnum: "\<not> is_lower_alnum CHR ''[''" "CHR ''['' \<noteq> CHR '' ''"
  by (simp_all add: is_lower_alnum_def)

lemma blank_is_space: "is_space CHR '' ''"
  by (simp add: is_space_def)

lemma alnum_not_space: "is_lower_alnum c \<Longrightarrow> \<not> is_space c"
  unfolding is_lower_alnum_def is_space_def Let_def by auto

lemma sub_runs_none: "\<forall>c\<in>set s. \<not> P c \<Longrightarrow> sub_runs P s = s"
  by (induction s) auto

lemma strip_brackets_none: "CHR ''['' \<notin> set s \<Longrightarrow> strip_brackets s = s"
  by (induction s) auto

lemma plain_norm_sc: "plain (norm_sc t)"
proof -
  let ?Q = "\<lambda>c. \<not> (is_lower_alnum c \<or> c = CHR '' '')"
  let ?s3 = "sub_runs ?Q (strip_brackets (lower t))"
  have "set ?s3 \<subseteq> {c. \<not> ?Q c}"
    using set_sub_runs[of ?Q "strip_brackets (lower t)"] by auto
  then have "set (sub_runs is_space ?s3) \<subseteq> {c. \<not> ?Q c}"
    using set_sub_runs[of is_space ?s3] by auto
  then have "set (norm_sc t) \<subseteq> {c. \<not> ?Q c}"
    using set_strip[of "sub_runs is_space ?s3"] by (auto simp: norm_sc_def Let_def)
  then show ?thesis by (auto simp: plain_def)
qed

lemma spaced_norm_sc: "spaced is_space (norm_sc t)"
  by (simp add: norm_sc_def Let_def spaced_strip spaced_sub_runs)

lemma trimmed_norm_sc: "trimmed (norm_sc t)"
  by (simp add: norm_sc_def Let_def trimmed_strip)

lemma norm_sc_fixed:
  assumes "plain r" and "spaced is_space r" and "trimmed r"
  shows "norm_sc r = r"
proof -
  have "\<forall>c\<in>set r. lower_char c = c"
    using assms(1) by (auto simp: plain_def lower_char_alnum lower_char_blank)
  then have 1: "lower r = r" by (simp add: lower_def map_idI)
  have "CHR ''['' \<notin> set r"
    using assms(1) bracket_not_alnum by (auto simp: plain_def)
  then have 2: "strip_brackets r = r" by (rule strip_brackets_none)
  have 3: "sub_runs (\<lambda>c. \<not> (is_lower_alnum c \<or> c = CHR '' '')) r = r"
    using assms(1) by (intro sub_runs_none) (auto simp: plain_def)
  have 4: "sub_runs is_space r = r" using assms(2) by (rule sub_runs_spaced)
  have 5: "strip r = r" using assms(3) by (rule strip_trimmed)
  show ?thesis unfolding norm_sc_def Let_def by (simp only: 1 2 3 4 5)
qed

lemma norm_sc_idem: "norm_sc (norm_sc t) = norm_sc t"
  by (rule norm_sc_fixed) (rule plain_norm_sc spaced_norm_sc trimmed_norm_sc)+

lemma trimmed_lower: "trimmed s \<Longrightarrow> trimmed (lower s)"
  by (cases s) (auto simp: trimmed_def lower_def is_space_lower_char last_map)

lemma trimmed_sub_runs: "trimmed s \<Longrightarrow> trimmed (sub_runs is_space s)"
proof (cases "s = []")
  case True
  then show ?thesis by (simp add: trimmed_def)
next
  case False
  assume "trimmed s"
  with False have h: "\<not> is_space (hd s)" and l: "\<not> is_space (last s)"
    by (auto simp: trimmed_def)
  from False l have a: "sub_runs is_space s \<noteq> []" and b: "last (sub_runs is_space s) = last s"
    using last_sub_runs[of s is_space] by auto
  from h have "sub_runs is_space s = [] \<or> \<not> is_space (hd (sub_runs is_space s))"
    by (intro hd_sub_runs) simp
  with a b l show ?thesis by (simp add: trimmed_def)
qed

lemma lower_norm_br: "lower (norm_br t) = norm_br t"
proof -
  let ?y = "lower (strip t)"
  have "\<forall>c\<in>set (norm_br t). lower_char c = c"
  proof
    fix c assume "c \<in> set (norm_br t)"
    then have "c \<in> set ?y \<or> c = CHR '' ''"
      using set_sub_runs[of is_space ?y] by (auto simp: norm_br_def)
    then show "lower_char c = c"
      by (auto simp: lower_def lower_char_idem lower_char_blank)
  qed
  then show ?thesis by (simp add: lower_def map_idI)
qed

lemma norm_br_idem: "norm_br (norm_br t) = norm_br t"
proof -
  have "trimmed (norm_br t)"
    by (simp add: norm_br_def trimmed_sub_runs trimmed_lower trimmed_strip)
  then have 1: "strip (norm_br t) = norm_br t" by (rule strip_trimmed)
  have "spaced is_space (norm_br t)" by (simp add: norm_br_def spaced_sub_runs)
  then have 2: "sub_runs is_space (norm_br t) = norm_br t" by (rule sub_runs_spaced)
  have "norm_br (norm_br t) = sub_runs is_space (lower (strip (norm_br t)))"
    by (simp add: norm_br_def)
  also have "\<dots> = norm_br t" by (simp add: 1 lower_norm_br 2)
  finally show ?thesis .
qed

text \<open>
  Claim C9.  Normalising a title twice gives the same text as normalising it once, for
  the \<open>norm\<close> of the SensCritique matchers and for the \<open>norm\<close> of the Blu-ray
  matcher.  The equation holds for every title, so in particular for every title that
  carries no bracketed annotation.
\<close>

theorem norm_idempotent:
  "norm_sc (norm_sc t) = norm_sc t \<and> norm_br (norm_br t) = norm_br t"
  by (simp add: norm_sc_idem norm_br_idem)

section \<open>The retry budget of the catalogue client\<close>

lemma tmdb_get_loop_429:
  "i < retry \<Longrightarrow> status_code r = 429 \<Longrightarrow>
   tmdb_get_loop msg retry i (r # rs) =
     (fst (tmdb_get_loop msg retry (Suc i) rs), (3 / 2 + of_nat i) # snd (tmdb_get_loop msg retry (Suc i) rs))"
  by (subst tmdb_get_loop.simps) (simp add: split_def Let_def)

lemma tmdb_get_loop_ok:
  "i < retry \<Longrightarrow> status_code r \<noteq> 429 \<Longrightarrow> \<not> (400 \<le> status_code r \<and> status_code r < 600) \<Longrightarrow>
   tmdb_get_loop msg retry i (r # rs) = (Inr (json r), [])"
  by (subst tmdb_get_loop.simps) simp

lemma tmdb_get_loop_spent:
  "retry \<le> i \<Longrightarrow> tmdb_get_loop msg retry i rs = (Inl (RuntimeError msg), [])"
  by (subst tmdb_get_loop.simps) simp

lemma tmdb_get_loop_prefix_ok:
  "\<forall>p\<in>set pre. status_code p = 429 \<Longrightarrow> i + length pre < retry \<Longrightarrow>
   status_code r \<noteq> 429 \<Longrightarrow> \<not> (400 \<le> status_code r \<and> status_code r < 600) \<Longrightarrow>
   tmdb_get_loop msg retry i (pre @ r # rest) =
     (Inr (json r), map (\<lambda>k. 3 / 2 + of_nat k) [i ..< i + length pre])"
proof (induction pre arbitrary: i)
  case Nil
  then show ?case by (simp add: tmdb_get_loop_ok)
next
  case (Cons p pre)
  from Cons.prems have "tmdb_get_loop msg retry (Suc i) (pre @ r # rest) =
     (Inr (json r), map (\<lambda>k. 3 / 2 + of_nat k) [Suc i ..< Suc i + length pre])"
    by (intro Cons.IH) auto
  with Cons.prems show ?case
    by (simp add: tmdb_get_loop_429 upt_conv_Cons del: upt_Suc)
qed

lemma tmdb_get_loop_prefix_limited:
  "\<forall>p\<in>set pre. status_code p = 429 \<Longrightarrow> i + length pre = retry \<Longrightarrow>
   tmdb_get_loop msg retry i (pre @ rest) =
     (Inl (RuntimeError msg), map (\<lambda>k. 3 / 2 + of_nat k) [i ..< retry])"
proof (induction pre arbitrary: i)
  case Nil
  then show ?case by (simp add: tmdb_get_loop_spent)
next
  case (Cons p pre)
  from Cons.prems have "tmdb_get_loop msg retry (Suc i) (pre @ rest) =
     (Inl (RuntimeError msg), map (\<lambda>k. 3 / 2 + of_nat k) [Suc i ..< retry])"
    by (intro Cons.IH) auto
  moreover from Cons.prems have "i < retry" by simp
  ultimately show ?case using Cons.prems
    by (simp add: tmdb_get_loop_429 upt_conv_Cons del: upt_Suc)
qed

lemma tmdb_get_br_limited:
  assumes "\<forall>p\<in>set pre. status_code p = 429" and "length pre = 3"
  shows "tmdb_get_br path (pre @ rest) =
           (Inl (RuntimeError (''TMDb rate-limited too long on '' @ path)), [3 / 2, 5 / 2, 7 / 2])"
proof -
  have "[0 ..< 3] = [0, 1, 2::nat]" by (simp add: upt_conv_Cons)
  then have "map (\<lambda>k. 3 / 2 + of_nat k) [0 ..< 3] = [3 / 2, 5 / 2, 7 / 2 :: rat]" by simp
  with assms show ?thesis
    unfolding tmdb_get_br_def by (simp add: tmdb_get_loop_prefix_limited)
qed

lemma match_br_search_error:
  assumes "fst (tmdb_get_br ''/search/movie''
                  (search_responses cat (strip (or_empty (raw_title it))) None)) = Inl e"
  shows "fst (match_br cat it) = error_outcome ''match: '' 900 e"
  using assms by (simp add: match_br_def resolve_br_def Let_def)

lemma tmdb_get_sc_limited:
  assumes "\<forall>p\<in>set pre. status_code p = 429" and "length pre = 3"
  shows "tmdb_get_sc (pre @ rest) = (Inl (RuntimeError ''TMDb rate limit''), [3 / 2, 5 / 2, 7 / 2])"
proof -
  have "[0 ..< 3] = [0, 1, 2::nat]" by (simp add: upt_conv_Cons)
  then have "map (\<lambda>k. 3 / 2 + of_nat k) [0 ..< 3] = [3 / 2, 5 / 2, 7 / 2 :: rat]" by simp
  with assms show ?thesis
    unfolding tmdb_get_sc_def by (simp add: tmdb_get_loop_prefix_limited)
qed

lemma match_seen_search_error:
  assumes "fst (tmdb_get_sc (search_responses cat (or_empty (raw_title r)) None)) = Inl e"
  shows "fst (match_seen cat r) = error_outcome [] 900 e"
  using assms by (simp add: match_seen_def resolve_seen_def Let_def)

lemma tmdb_get_once_429:
  assumes "\<forall>p\<in>set pre. status_code p = 429" and "pre \<noteq> []"
  shows "tmdb_get_once (pre @ rest) = Inl (HTTPError (reason (hd pre)))"
  using assms by (cases pre) (simp_all add: tmdb_get_once_def)

text \<open>
  Claim C4, as the code has it.  The \<open>tmdb_get\<close> with the retry loop, in both its
  variants (the one of the Blu-ray and NAS scripts and the one of the SensCritique
  matchers), makes at most three requests.  When the first responses are 429 and there are
  at most two of them, a following response that is neither 429 nor an error status is
  returned, after one pause of 1.5 s plus the attempt index per 429.  When the first three
  responses are 429 the call raises the rate-limit \<open>RuntimeError\<close> after pauses of 1.5, 2.5
  and 3.5 s, whatever a fourth request would have returned, and a Blu-ray or seen-list row
  whose search ends so is written as \<open>ERROR\<close> with that message.  The \<open>tmdb_get\<close> without
  retry loop, of the seen-list applier, raises the HTTP error of the first response when
  that is a 429, whatever would follow.
\<close>

theorem tmdb_get_retry_budget:
  assumes "\<forall>p\<in>set pre. status_code p = 429"
  shows "(length pre \<le> 2 \<and> status_code r \<noteq> 429 \<and> \<not> (400 \<le> status_code r \<and> status_code r < 600) \<longrightarrow>
            tmdb_get_br path (pre @ r # rest) =
              (Inr (json r), map (\<lambda>k. 3 / 2 + of_nat k) [0 ..< length pre])
            \<and> tmdb_get_sc (pre @ r # rest) =
              (Inr (json r), map (\<lambda>k. 3 / 2 + of_nat k) [0 ..< length pre]))
       \<and> (length pre = 3 \<longrightarrow>
            tmdb_get_br path (pre @ rest) =
              (Inl (RuntimeError (''TMDb rate-limited too long on '' @ path)), [3 / 2, 5 / 2, 7 / 2])
            \<and> tmdb_get_sc (pre @ rest) =
              (Inl (RuntimeError ''TMDb rate limit''), [3 / 2, 5 / 2, 7 / 2])
            \<and> (search_responses cat (strip (or_empty (raw_title it))) None = pre @ rest \<longrightarrow>
                 fst (match_br cat it) =
                   Outcome ERROR None (''match: TMDb rate-limited too long on /search/movie''))
            \<and> (search_responses cat (or_empty (raw_title it)) None = pre @ rest \<longrightarrow>
                 fst (match_seen cat it) = Outcome ERROR None ''TMDb rate limit''))
       \<and> (pre \<noteq> [] \<longrightarrow> tmdb_get_once (pre @ rest) = Inl (HTTPError (reason (hd pre))))"
proof (intro conjI impI)
  assume a: "length pre \<le> 2 \<and> status_code r \<noteq> 429 \<and> \<not> (400 \<le> status_code r \<and> status_code r < 600)"
  with assms show "tmdb_get_br path (pre @ r # rest) =
      (Inr (json r), map (\<lambda>k. 3 / 2 + of_nat k) [0 ..< length pre])"
    unfolding tmdb_get_br_def
    using tmdb_get_loop_prefix_ok[of pre 0 3 r _ rest] by simp
  from a assms show "tmdb_get_sc (pre @ r # rest) =
      (Inr (json r), map (\<lambda>k. 3 / 2 + of_nat k) [0 ..< length pre])"
    unfolding tmdb_get_sc_def
    using tmdb_get_loop_prefix_ok[of pre 0 3 r _ rest] by simp
next
  assume "length pre = 3"
  with assms show "tmdb_get_br path (pre @ rest) =
      (Inl (RuntimeError (''TMDb rate-limited too long on '' @ path)), [3 / 2, 5 / 2, 7 / 2])"
    by (rule tmdb_get_br_limited)
next
  assume "length pre = 3"
  with assms show "tmdb_get_sc (pre @ rest) =
      (Inl (RuntimeError ''TMDb rate limit''), [3 / 2, 5 / 2, 7 / 2])"
    by (rule tmdb_get_sc_limited)
next
  assume len: "length pre = 3"
    and s: "search_responses cat (strip (or_empty (raw_title it))) None = pre @ rest"
  from assms len have "tmdb_get_br ''/search/movie'' (pre @ rest) =
      (Inl (RuntimeError (''TMDb rate-limited too long on '' @ ''/search/movie'')), [3 / 2, 5 / 2, 7 / 2])"
    by (rule tmdb_get_br_limited)
  with s have "fst (tmdb_get_br ''/search/movie''
      (search_responses cat (strip (or_empty (raw_title it))) None)) =
      Inl (RuntimeError (''TMDb rate-limited too long on /search/movie''))"
    by simp
  then have "fst (match_br cat it) =
      error_outcome ''match: '' 900 (RuntimeError (''TMDb rate-limited too long on /search/movie''))"
    by (rule match_br_search_error)
  then show "fst (match_br cat it) =
      Outcome ERROR None (''match: TMDb rate-limited too long on /search/movie'')"
    by (simp add: error_outcome_def)
next
  assume len: "length pre = 3"
    and s: "search_responses cat (or_empty (raw_title it)) None = pre @ rest"
  from assms len have "tmdb_get_sc (pre @ rest) =
      (Inl (RuntimeError ''TMDb rate limit''), [3 / 2, 5 / 2, 7 / 2])"
    by (rule tmdb_get_sc_limited)
  with s have "fst (tmdb_get_sc (search_responses cat (or_empty (raw_title it)) None)) =
      Inl (RuntimeError ''TMDb rate limit'')"
    by simp
  then have "fst (match_seen cat it) = error_outcome [] 900 (RuntimeError ''TMDb rate limit'')"
    by (rule match_seen_search_error)
  then show "fst (match_seen cat it) = Outcome ERROR None ''TMDb rate limit''"
    by (simp add: error_outcome_def)
next
  assume "pre \<noteq> []"
  with assms show "tmdb_get_once (pre @ rest) = Inl (HTTPError (reason (hd pre)))"
    by (rule tmdb_get_once_429)
qed

text \<open>
  The theorem at two 429 responses followed by a 200, at four 429 responses, at rows whose
  search is rate-limited on every request, and at the client without retry loop.
\<close>

theorem tmdb_get_retry_budget_witness:
  "tmdb_get_br ''/search/movie'' [too_many [], too_many [], \<lparr>status_code = 200, reason = ''OK'', json = [heat]\<rparr>]
     = (Inr [heat], [3 / 2, 5 / 2])
   \<and> tmdb_get_sc [too_many [], too_many [], \<lparr>status_code = 200, reason = ''OK'', json = [heat]\<rparr>]
     = (Inr [heat], [3 / 2, 5 / 2])
   \<and> tmdb_get_br ''/search/movie'' [too_many [], too_many [], too_many [], too_many [heat]]
     = (Inl (RuntimeError ''TMDb rate-limited too long on /search/movie''), [3 / 2, 5 / 2, 7 / 2])
   \<and> tmdb_get_sc [too_many [], too_many [], too_many [], too_many [heat]]
     = (Inl (RuntimeError ''TMDb rate limit''), [3 / 2, 5 / 2, 7 / 2])
   \<and> fst (match_br limited_catalog (pending_row ''Heat'' None None))
     = Outcome ERROR None ''match: TMDb rate-limited too long on /search/movie''
   \<and> fst (match_seen limited_catalog (pending_row ''Heat'' None None))
     = Outcome ERROR None ''TMDb rate limit''
   \<and> tmdb_get_once [too_many [], \<lparr>status_code = 200, reason = ''OK'', json = [heat]\<rparr>]
     = Inl (HTTPError ''429 Client Error: Too Many Requests'')"
proof -
  let ?ok = "\<lparr>status_code = 200, reason = ''OK'', json = [heat]\<rparr>"
  let ?it = "pending_row ''Heat'' None None"
  have one: "\<forall>p\<in>set [too_many []]. status_code (p :: candidate list response) = 429"
    by (simp add: too_many_def)
  have two: "\<forall>p\<in>set [too_many [], too_many []]. status_code (p :: candidate list response) = 429"
    by (simp add: too_many_def)
  have three: "\<forall>p\<in>set [too_many [], too_many [], too_many []].
      status_code (p :: candidate list response) = 429"
    by (simp add: too_many_def)
  have up: "[0 ..< 2] = [0, 1::nat]" by (simp add: upt_conv_Cons)
  have s: "search_responses limited_catalog (strip (or_empty (raw_title ?it))) None
      = [too_many [], too_many [], too_many []] @ [too_many []]"
    by (simp add: limited_catalog_def)
  have s': "search_responses limited_catalog (or_empty (raw_title ?it)) None
      = [too_many [], too_many [], too_many []] @ [too_many []]"
    by (simp add: limited_catalog_def)
  have r: "reason (too_many [] :: candidate list response) = ''429 Client Error: Too Many Requests''"
    by (simp add: too_many_def)
  show ?thesis
    using tmdb_get_retry_budget[OF two, of ?ok "''/search/movie''" "[]" limited_catalog ?it]
          tmdb_get_retry_budget[OF three, of ?ok "''/search/movie''" "[too_many [heat]]" limited_catalog ?it]
          tmdb_get_retry_budget[OF three, of ?ok "''/search/movie''" "[too_many []]" limited_catalog ?it]
          tmdb_get_retry_budget[OF one, of ?ok "''/search/movie''" "[?ok]" limited_catalog ?it]
          s s' r
    by (simp add: up)
qed

text \<open>
  The claim as written fails: three 429 responses followed by a 200 do not succeed.  The
  loop ends after the third request and raises; the fourth response is never asked for.
\<close>

theorem fourth_attempt_not_made:
  "tmdb_get_br ''/search/movie''
     [too_many [], too_many [], too_many [], \<lparr>status_code = 200, reason = ''OK'', json = [heat]\<rparr>]
   = (Inl (RuntimeError ''TMDb rate-limited too long on /search/movie''), [3 / 2, 5 / 2, 7 / 2])"
  by code_simp

section \<open>Scoring rules\<close>

lemma length_digits_1: "n < 10 \<Longrightarrow> length (digits n) = 1"
  by (subst digits.simps) simp

lemma length_digits_2: "10 \<le> n \<Longrightarrow> n < 100 \<Longrightarrow> length (digits n) = 2"
  by (subst digits.simps) (simp add: length_digits_1)

lemma length_digits_3: "100 \<le> n \<Longrightarrow> n < 1000 \<Longrightarrow> length (digits n) = 3"
  by (subst digits.simps) (simp add: length_digits_2)

lemma length_digits_4: "1000 \<le> n \<Longrightarrow> n < 10000 \<Longrightarrow> length (digits n) = 4"
  by (subst digits.simps) (simp add: length_digits_3)

lemma length_str_int_year: "1000 \<le> y \<Longrightarrow> y \<le> 9999 \<Longrightarrow> length (str_int y) = 4"
  by (simp add: str_int_def length_digits_4)

lemma year_points_plain:
  assumes "plain_year year_q"
  shows "year_points year_q cand =
     (case year_q of None \<Rightarrow> 0
      | Some y \<Rightarrow> if take 4 (or_empty (cand_release_date cand)) = str_int y then 3 else 0)"
proof (cases year_q)
  case None
  then show ?thesis by (simp add: year_points_def)
next
  case (Some y)
  with assms have "1000 \<le> y" "y \<le> 9999" by (simp_all add: plain_year_def)
  then have "length (str_int y) = 4" "y \<noteq> 0" by (simp_all add: length_str_int_year)
  with Some show ?thesis by (simp add: year_points_def startswith_def)
qed

text \<open>
  Claim C1, as the code has it.  For a query year that is absent or has four digits, the
  score of both \<open>score_candidate\<close> functions is 5 for an exact match of the normalised
  query with the title or the original title, otherwise 2 when the query is contained in
  one of them (in the Blu-ray matcher only for a non-empty query), plus 3 when the first
  four characters of the release date are the query year.  A title contained in the query
  scores nothing.  For the single candidate Heat (1995) and the query Heat, 1995 the
  score is 8 and the seen-list matcher writes \<open>MATCHED\<close>.
\<close>

theorem score_candidate_rules:
  assumes "plain_year year_q"
  shows "score_candidate_sc q year_q d cand =
           one_way_score True q year_q (norm_sc (or_empty (cand_title cand)))
             (norm_sc (or_empty (cand_original_title cand))) (or_empty (cand_release_date cand))
       \<and> score_candidate_br q year_q d cand =
           one_way_score (q \<noteq> []) q year_q (norm_br (or_empty (cand_title cand)))
             (norm_br (or_empty (cand_original_title cand))) (or_empty (cand_release_date cand))
       \<and> score_candidate_sc (norm_sc ''Heat'') (Some 1995) d heat = 8
       \<and> score_candidate_br (norm_br ''Heat'') (Some 1995) d heat = 8
       \<and> fst (match_seen (fixed_catalog [heat] no_crew) (pending_row ''Heat'' (Some 1995) None))
           = Outcome MATCHED (Some 949) ''score=8''"
proof (intro conjI)
  show "score_candidate_sc q year_q d cand =
           one_way_score True q year_q (norm_sc (or_empty (cand_title cand)))
             (norm_sc (or_empty (cand_original_title cand))) (or_empty (cand_release_date cand))"
    using year_points_plain[OF assms, of cand]
    by (simp add: score_candidate_sc_def one_way_score_def Let_def)
  show "score_candidate_br q year_q d cand =
           one_way_score (q \<noteq> []) q year_q (norm_br (or_empty (cand_title cand)))
             (norm_br (or_empty (cand_original_title cand))) (or_empty (cand_release_date cand))"
    using year_points_plain[OF assms, of cand]
    by (simp add: score_candidate_br_def one_way_score_def Let_def)
  show "score_candidate_sc (norm_sc ''Heat'') (Some 1995) d heat = 8"
    unfolding score_candidate_sc_def by code_simp
  show "score_candidate_br (norm_br ''Heat'') (Some 1995) d heat = 8"
    unfolding score_candidate_br_def by code_simp
  show "fst (match_seen (fixed_catalog [heat] no_crew) (pending_row ''Heat'' (Some 1995) None))
           = Outcome MATCHED (Some 949) ''score=8''"
    by code_simp
qed

theorem score_candidate_rules_witness:
  "plain_year (Some 1995)
   \<and> score_candidate_sc ''heat'' (Some 1995) [] heat = 8
   \<and> one_way_score True ''heat'' (Some 1995) ''heat'' ''heat'' ''1995-12-15'' = 8"
proof -
  have h: "plain_year (Some 1995)" by (simp add: plain_year_def)
  have n: "norm_sc (or_empty (cand_title heat)) = ''heat''"
          "norm_sc (or_empty (cand_original_title heat)) = ''heat''"
          "or_empty (cand_release_date heat) = ''1995-12-15''"
    by code_simp+
  have v: "one_way_score True ''heat'' (Some 1995) ''heat'' ''heat'' ''1995-12-15'' = 8"
    by code_simp
  from score_candidate_rules[OF h, of "''heat''" "[]" heat] n v h show ?thesis by simp
qed

text \<open>
  The claim as written fails for containment in the other direction: the candidate title
  \<open>heat\<close> is contained in the query \<open>heat 2\<close>, the rule of the specification gives 2,
  both score functions give 0.
\<close>

theorem reverse_containment_scores_nothing:
  "py_in (norm_sc (or_empty (cand_title heat))) ''heat 2''
   \<and> spec_score ''heat 2'' None heat = 2
   \<and> score_candidate_sc ''heat 2'' None [] heat = 0
   \<and> score_candidate_br ''heat 2'' None [] heat = 0"
  by code_simp

section \<open>The director loop\<close>


lemma director_loop_calls_length:
  "length (snd (director_loop fetch hint xs)) \<le> length xs"
  by (induction xs) (auto split: sum.splits prod.splits)

lemma director_loop_decisive:
  "director_loop fetch hint xs =
     (case find (decisive fetch hint) xs of
        None \<Rightarrow> Inr None
      | Some p \<Rightarrow>
          (case fetch (cand_id (snd p)) of Inl e \<Rightarrow> Inl e | Inr dirs \<Rightarrow> Inr (Some (snd p))),
      credits_until fetch hint xs)"
proof (induction xs)
  case Nil
  show ?case by (simp add: credits_until_def)
next
  case (Cons p xs)
  obtain s cand where p: "p = (s, cand)" by (cases p)
  show ?case
  proof (cases "fetch (cand_id cand)")
    case (Inl e)
    then show ?thesis by (simp add: p decisive_def credits_until_def)
  next
    case (Inr dirs)
    show ?thesis
    proof (cases "director_match hint dirs")
      case True
      with Inr show ?thesis by (simp add: p decisive_def credits_until_def)
    next
      case False
      with Inr Cons show ?thesis by (simp add: p decisive_def credits_until_def split_def)
    qed
  qed
qed

lemma credits_until_length: "length (credits_until fetch hint xs) \<le> length xs"
  using director_loop_calls_length[of fetch hint xs] by (simp add: director_loop_decisive)

lemma credits_until_credits: "filter is_credits (credits_until fetch hint xs) = credits_until fetch hint xs"
  by (simp add: credits_until_def filter_map comp_def)

lemma top_two_tied_take: "top_two_tied (take 3 xs) = top_two_tied xs"
proof (cases xs)
  case Nil
  then show ?thesis by simp
next
  case (Cons a ys)
  then show ?thesis by (cases ys) (simp_all add: numeral_3_eq_3)
qed

lemma pick_by_director_meets:
  "pick_by_director cat q cs =
     (map_option cand_id (find (watch_meets cat q) cs), watch_credits_until cat q cs)"
proof (induction cs)
  case Nil
  show ?case by (simp add: watch_credits_until_def)
next
  case (Cons c cs)
  show ?case
  proof (cases "watch_meets cat q c")
    case True
    then show ?thesis by (simp add: watch_meets_def watch_credits_until_def Let_def)
  next
    case False
    with Cons show ?thesis by (simp add: watch_meets_def watch_credits_until_def Let_def)
  qed
qed

section \<open>The scoring loop of the watch-list matcher\<close>

lemma year_points_nonneg: "0 \<le> year_points y c"
  by (simp add: year_points_def split: option.splits)

lemma score_sc_nonneg: "0 \<le> score_candidate_sc q y d c"
  using year_points_nonneg[of y c] by (simp add: score_candidate_sc_def Let_def)

lemma pick_best_keeps_some: "fst (pick_best q y (Some b, s) cs) \<noteq> None"
  by (induction cs arbitrary: b s) (simp_all add: Let_def)

lemma pick_best_nonempty: "cs \<noteq> [] \<Longrightarrow> fst (pick_best q y (None, - 1) cs) \<noteq> None"
proof (cases cs)
  case Nil
  assume "cs \<noteq> []"
  with Nil show ?thesis by simp
next
  case (Cons c rest)
  have "- 1 < score_candidate_sc q y [] c" using score_sc_nonneg[of q y "[]" c] by simp
  then show ?thesis by (simp add: Cons Let_def pick_best_keeps_some)
qed

lemma match_watchlist_outcome:
  "fst (resolve_watchlist cat it) = Inr out \<Longrightarrow> fst (match_watchlist cat it) = out"
  by (cases "resolve_watchlist cat it") (auto simp: match_watchlist_def)

section \<open>Disambiguation by director\<close>

lemma decide_br_tied:
  assumes "top_two_tied scored" and "hint \<noteq> []"
  shows "decide_br cat hint scored =
     ((case find (decisive (get_directors_for_tmdb_id cat) hint) (take 3 scored) of
         None \<Rightarrow>
           Inr (Outcome AMBIGUOUS (Some (cand_id (snd (hd scored))))
                  (''ambiguous | best_score='' @ str_int (fst (hd scored))))
       | Some p \<Rightarrow>
           (case get_directors_for_tmdb_id cat (cand_id (snd p)) of
              Inl e \<Rightarrow> Inl e
            | Inr dirs \<Rightarrow>
                Inr (Outcome MATCHED (Some (cand_id (snd p)))
                       (''single result | best_score='' @ str_int (fst (hd scored))
                        @ '' | dir_match='' @ hint)))),
      credits_until (get_directors_for_tmdb_id cat) hint (take 3 scored))"
proof (cases scored)
  case Nil
  with assms(1) show ?thesis by simp
next
  case (Cons a ys)
  obtain bs b where a: "a = (bs, b)" by (cases a)
  have t: "top_two_tied (take 3 scored)" using assms(1) by (simp add: top_two_tied_take)
  show ?thesis
    using t assms(2) unfolding decide_br_def director_loop_decisive
    by (simp add: Cons a Let_def split: option.splits sum.splits)
qed

lemma resolve_br_found:
  assumes "fst (tmdb_get_br ''/search/movie''
                  (search_responses cat (strip (or_empty (raw_title it))) None)) = Inr results"
    and "results \<noteq> []"
  shows "resolve_br cat it =
     (fst (decide_br cat (director_hint it)
             (scored_br (norm_br (strip (or_empty (raw_title it)))) (director_hint it) results)),
      Search (strip (or_empty (raw_title it)))
        # snd (decide_br cat (director_hint it)
             (scored_br (norm_br (strip (or_empty (raw_title it)))) (director_hint it) results)))"
  using assms by (simp add: resolve_br_def Let_def split_def)

lemma match_br_calls: "snd (match_br cat it) = snd (resolve_br cat it)"
  by (simp add: match_br_def split: prod.splits sum.splits)

lemma match_br_outcome:
  "fst (resolve_br cat it) = Inr out \<Longrightarrow> fst (match_br cat it) = out"
  by (cases "resolve_br cat it") (auto simp: match_br_def)

lemma match_br_raised:
  "fst (resolve_br cat it) = Inl e \<Longrightarrow>
   fst (match_br cat it) = Outcome ERROR None (''match: '' @ take 900 (str_error e))"
  by (cases "resolve_br cat it") (auto simp: match_br_def error_outcome_def)

lemma search_two_pass_calls: "filter is_credits (snd (search_two_pass cat raw)) = []"
  by (auto simp: search_two_pass_def Let_def split: sum.splits)

lemma watch_credits_until_credits:
  "filter is_credits (watch_credits_until cat q cs) = watch_credits_until cat q cs"
  by (simp add: watch_credits_until_def filter_map comp_def)

lemma watch_credits_until_length: "length (watch_credits_until cat q cs) \<le> length cs"
proof -
  let ?P = "\<lambda>c. \<not> watch_meets cat q c"
  have "length (takeWhile ?P cs) + length (dropWhile ?P cs) = length cs"
    by (metis length_append takeWhile_dropWhile_id)
  then have "length (takeWhile ?P cs) + min (length (dropWhile ?P cs)) 1 \<le> length cs"
    by linarith
  then show ?thesis by (simp add: watch_credits_until_def)
qed

lemma resolve_watchlist_hint:
  assumes "search_two_pass cat (raw_title it) = (Inr (results, used_q), calls)"
    and "1 < length results"
    and "norm_sc (or_empty (raw_directors it)) \<noteq> []"
    and "pick_best (norm_sc (or_empty (raw_title it))) (raw_year it) (None, - 1) (take 10 results)
           = (Some best, s)"
  shows "resolve_watchlist cat it =
     (Inr (case find (watch_meets cat (norm_sc (or_empty (raw_directors it)))) (take 5 results) of
             Some c \<Rightarrow>
               if cand_id c \<noteq> 0
               then Outcome MATCHED (Some (cand_id c))
                      (''score='' @ str_int s @ '' | q='' @ used_q @ '' | director_match'')
               else Outcome AMBIGUOUS (Some (cand_id best))
                      (''score='' @ str_int s @ '' | q='' @ used_q @ '' | director_match'')
           | None \<Rightarrow>
               Outcome AMBIGUOUS (Some (cand_id best)) (''score='' @ str_int s @ '' | q='' @ used_q)),
      calls @ watch_credits_until cat (norm_sc (or_empty (raw_directors it))) (take 5 results))"
proof -
  from assms(2) have ne: "results \<noteq> []" by auto
  show ?thesis
    unfolding resolve_watchlist_def Let_def assms(1) pick_by_director_meets
    using ne assms(2,3,4) by (simp split: option.splits)
qed

lemma match_watchlist_calls: "snd (match_watchlist cat it) = snd (resolve_watchlist cat it)"
  by (simp add: match_watchlist_def split: prod.splits sum.splits)

text \<open>
  Claim C2, as the code has it.  In the Blu-ray matcher, for a record whose search
  succeeds with results, whose two best scores are tied and whose director hint is not
  empty: the credits calls are those of the three best-scored candidates, in order, up to
  and including the first decisive one (its credits call raises, or its directors meet the
  hint by containment in either direction), so at most three; the record is \<open>MATCHED\<close> to
  that candidate with the note ending in \<open>dir_match=<hint>\<close> when its credits call
  returned, \<open>ERROR\<close> when it raised, and \<open>AMBIGUOUS\<close> with the first candidate when none of
  the three is decisive.  In the watch-list matcher, for a record with more than one result
  and a non-empty hint, the credits calls are those of the first five results in catalogue
  order up to and including the first whose directors meet the hint (a call that raises
  counting as no directors), so at most five; the record is \<open>MATCHED\<close> to that result with
  the note ending in \<open>director_match\<close>, or \<open>AMBIGUOUS\<close> with the best-scored result when
  there is none (or when the id of the result found is 0).
\<close>

theorem director_disambiguation:
  assumes "fst (tmdb_get_br ''/search/movie''
                  (search_responses cat (strip (or_empty (raw_title it))) None)) = Inr results"
    and "results \<noteq> []"
    and "scored = scored_br (norm_br (strip (or_empty (raw_title it)))) (director_hint it) results"
    and "top_two_tied scored"
    and "director_hint it \<noteq> []"
  shows "filter is_credits (snd (match_br cat it)) =
           credits_until (get_directors_for_tmdb_id cat) (director_hint it) (take 3 scored)
       \<and> length (filter is_credits (snd (match_br cat it))) \<le> 3
       \<and> fst (match_br cat it) =
           (case find (decisive (get_directors_for_tmdb_id cat) (director_hint it)) (take 3 scored) of
              None \<Rightarrow>
                Outcome AMBIGUOUS (Some (cand_id (snd (hd scored))))
                  (''ambiguous | best_score='' @ str_int (fst (hd scored)))
            | Some p \<Rightarrow>
                (case get_directors_for_tmdb_id cat (cand_id (snd p)) of
                   Inl e \<Rightarrow> Outcome ERROR None (''match: '' @ take 900 (str_error e))
                 | Inr dirs \<Rightarrow>
                     Outcome MATCHED (Some (cand_id (snd p)))
                       (''single result | best_score='' @ str_int (fst (hd scored))
                        @ '' | dir_match='' @ director_hint it)))
       \<and> (search_two_pass cat2 (raw_title it2) = (Inr (results2, used_q), calls2)
            \<and> 1 < length results2
            \<and> norm_sc (or_empty (raw_directors it2)) \<noteq> []
            \<and> pick_best (norm_sc (or_empty (raw_title it2))) (raw_year it2) (None, - 1)
                 (take 10 results2) = (Some best, s) \<longrightarrow>
              filter is_credits (snd (match_watchlist cat2 it2)) =
                watch_credits_until cat2 (norm_sc (or_empty (raw_directors it2))) (take 5 results2)
            \<and> length (filter is_credits (snd (match_watchlist cat2 it2))) \<le> 5
            \<and> fst (match_watchlist cat2 it2) =
                (case find (watch_meets cat2 (norm_sc (or_empty (raw_directors it2))))
                        (take 5 results2) of
                   Some c \<Rightarrow>
                     if cand_id c \<noteq> 0
                     then Outcome MATCHED (Some (cand_id c))
                            (''score='' @ str_int s @ '' | q='' @ used_q @ '' | director_match'')
                     else Outcome AMBIGUOUS (Some (cand_id best))
                            (''score='' @ str_int s @ '' | q='' @ used_q @ '' | director_match'')
                 | None \<Rightarrow>
                     Outcome AMBIGUOUS (Some (cand_id best))
                       (''score='' @ str_int s @ '' | q='' @ used_q)))"
proof (intro conjI impI)
  let ?fetch = "get_directors_for_tmdb_id cat"
  let ?hint = "director_hint it"
  have d: "decide_br cat ?hint scored =
     ((case find (decisive ?fetch ?hint) (take 3 scored) of
         None \<Rightarrow>
           Inr (Outcome AMBIGUOUS (Some (cand_id (snd (hd scored))))
                  (''ambiguous | best_score='' @ str_int (fst (hd scored))))
       | Some p \<Rightarrow>
           (case ?fetch (cand_id (snd p)) of
              Inl e \<Rightarrow> Inl e
            | Inr dirs \<Rightarrow>
                Inr (Outcome MATCHED (Some (cand_id (snd p)))
                       (''single result | best_score='' @ str_int (fst (hd scored))
                        @ '' | dir_match='' @ ?hint)))),
      credits_until ?fetch ?hint (take 3 scored))"
    using assms(4,5) by (rule decide_br_tied)
  have r: "resolve_br cat it =
     (fst (decide_br cat ?hint scored),
      Search (strip (or_empty (raw_title it))) # snd (decide_br cat ?hint scored))"
    unfolding assms(3) using assms(1,2) by (rule resolve_br_found)
  show c: "filter is_credits (snd (match_br cat it)) = credits_until ?fetch ?hint (take 3 scored)"
    by (simp add: match_br_calls r d credits_until_credits)
  have "length (credits_until ?fetch ?hint (take 3 scored)) \<le> length (take 3 scored)"
    by (rule credits_until_length)
  then show "length (filter is_credits (snd (match_br cat it))) \<le> 3"
    by (simp add: c)
  show "fst (match_br cat it) =
           (case find (decisive ?fetch ?hint) (take 3 scored) of
              None \<Rightarrow>
                Outcome AMBIGUOUS (Some (cand_id (snd (hd scored))))
                  (''ambiguous | best_score='' @ str_int (fst (hd scored)))
            | Some p \<Rightarrow>
                (case ?fetch (cand_id (snd p)) of
                   Inl e \<Rightarrow> Outcome ERROR None (''match: '' @ take 900 (str_error e))
                 | Inr dirs \<Rightarrow>
                     Outcome MATCHED (Some (cand_id (snd p)))
                       (''single result | best_score='' @ str_int (fst (hd scored))
                        @ '' | dir_match='' @ ?hint)))"
  proof (cases "find (decisive ?fetch ?hint) (take 3 scored)")
    case None
    then have "fst (resolve_br cat it) =
        Inr (Outcome AMBIGUOUS (Some (cand_id (snd (hd scored))))
               (''ambiguous | best_score='' @ str_int (fst (hd scored))))"
      by (simp add: r d)
    then show ?thesis using None by (simp add: match_br_outcome)
  next
    case (Some p)
    show ?thesis
    proof (cases "?fetch (cand_id (snd p))")
      case (Inl e)
      with Some have "fst (resolve_br cat it) = Inl e" by (simp add: r d)
      then show ?thesis using Some Inl by (simp add: match_br_raised)
    next
      case (Inr dirs)
      with Some have "fst (resolve_br cat it) =
          Inr (Outcome MATCHED (Some (cand_id (snd p)))
                 (''single result | best_score='' @ str_int (fst (hd scored))
                  @ '' | dir_match='' @ ?hint))"
        by (simp add: r d)
      then show ?thesis using Some Inr by (simp add: match_br_outcome)
    qed
  qed
next
  let ?q = "norm_sc (or_empty (raw_directors it2))"
  assume a: "search_two_pass cat2 (raw_title it2) = (Inr (results2, used_q), calls2)
            \<and> 1 < length results2
            \<and> ?q \<noteq> []
            \<and> pick_best (norm_sc (or_empty (raw_title it2))) (raw_year it2) (None, - 1)
                 (take 10 results2) = (Some best, s)"
  then have sp: "search_two_pass cat2 (raw_title it2) = (Inr (results2, used_q), calls2)"
    and l: "1 < length results2" and h: "?q \<noteq> []"
    and pb: "pick_best (norm_sc (or_empty (raw_title it2))) (raw_year it2) (None, - 1)
                 (take 10 results2) = (Some best, s)"
    by simp_all
  note rw = resolve_watchlist_hint[OF sp l h pb]
  have cs: "filter is_credits calls2 = []"
    using search_two_pass_calls[of cat2 "raw_title it2"] sp by simp
  show c: "filter is_credits (snd (match_watchlist cat2 it2)) = watch_credits_until cat2 ?q (take 5 results2)"
    by (simp add: match_watchlist_calls rw cs watch_credits_until_credits)
  have "length (watch_credits_until cat2 ?q (take 5 results2)) \<le> length (take 5 results2)"
    by (rule watch_credits_until_length)
  then show "length (filter is_credits (snd (match_watchlist cat2 it2))) \<le> 5"
    by (simp add: c)
  show "fst (match_watchlist cat2 it2) =
                (case find (watch_meets cat2 ?q) (take 5 results2) of
                   Some c \<Rightarrow>
                     if cand_id c \<noteq> 0
                     then Outcome MATCHED (Some (cand_id c))
                            (''score='' @ str_int s @ '' | q='' @ used_q @ '' | director_match'')
                     else Outcome AMBIGUOUS (Some (cand_id best))
                            (''score='' @ str_int s @ '' | q='' @ used_q @ '' | director_match'')
                 | None \<Rightarrow>
                     Outcome AMBIGUOUS (Some (cand_id best))
                       (''score='' @ str_int s @ '' | q='' @ used_q))"
    by (rule match_watchlist_outcome) (simp add: rw)
qed

text \<open>
  The theorem at a catalogue whose first result is directed by Michael Mann and whose other
  credits calls would time out: one credits call, and the record is matched.
\<close>

theorem director_disambiguation_witness:
  "fst (match_br mann_first_catalog (pending_row ''Heat'' None (Some ''Mann'')))
     = Outcome MATCHED (Some 949) ''single result | best_score=5 | dir_match=mann''
   \<and> filter is_credits (snd (match_br mann_first_catalog (pending_row ''Heat'' None (Some ''Mann''))))
     = [Credits 949]
   \<and> fst (match_watchlist mann_first_catalog (pending_row ''Heat'' None (Some ''Mann'')))
     = Outcome MATCHED (Some 949) ''score=5 | q=Heat | director_match''
   \<and> filter is_credits (snd (match_watchlist mann_first_catalog (pending_row ''Heat'' None (Some ''Mann''))))
     = [Credits 949]"
proof -
  let ?cat = "mann_first_catalog"
  let ?it = "pending_row ''Heat'' None (Some ''Mann'')"
  let ?scored = "[(5 :: int, heat), (5, heat\<lparr>cand_id := 950\<rparr>)]"
  have 1: "fst (tmdb_get_br ''/search/movie''
             (search_responses ?cat (strip (or_empty (raw_title ?it))) None)) = Inr heat_twice"
    by code_simp
  have 2: "heat_twice \<noteq> []" by (simp add: heat_twice_def)
  have 3: "?scored = scored_br (norm_br (strip (or_empty (raw_title ?it)))) (director_hint ?it) heat_twice"
    by code_simp
  have 4: "top_two_tied ?scored" by simp
  have 5: "director_hint ?it \<noteq> []" by code_simp
  have 6: "search_two_pass ?cat (raw_title ?it) = (Inr (heat_twice, ''Heat''), [Search ''Heat''])
      \<and> 1 < length heat_twice
      \<and> norm_sc (or_empty (raw_directors ?it)) \<noteq> []
      \<and> pick_best (norm_sc (or_empty (raw_title ?it))) (raw_year ?it) (None, - 1) (take 10 heat_twice)
          = (Some heat, 5)"
    by code_simp
  have 7: "credits_until (get_directors_for_tmdb_id ?cat) (director_hint ?it) (take 3 ?scored)
      = [Credits 949]" by code_simp
  have 8: "(case find (decisive (get_directors_for_tmdb_id ?cat) (director_hint ?it)) (take 3 ?scored) of
              None \<Rightarrow>
                Outcome AMBIGUOUS (Some (cand_id (snd (hd ?scored))))
                  (''ambiguous | best_score='' @ str_int (fst (hd ?scored)))
            | Some p \<Rightarrow>
                (case get_directors_for_tmdb_id ?cat (cand_id (snd p)) of
                   Inl e \<Rightarrow> Outcome ERROR None (''match: '' @ take 900 (str_error e))
                 | Inr dirs \<Rightarrow>
                     Outcome MATCHED (Some (cand_id (snd p)))
                       (''single result | best_score='' @ str_int (fst (hd ?scored))
                        @ '' | dir_match='' @ director_hint ?it)))
      = Outcome MATCHED (Some 949) ''single result | best_score=5 | dir_match=mann''"
    by code_simp
  have 9: "watch_credits_until ?cat (norm_sc (or_empty (raw_directors ?it))) (take 5 heat_twice)
      = [Credits 949]" by code_simp
  have 10: "(case find (watch_meets ?cat (norm_sc (or_empty (raw_directors ?it)))) (take 5 heat_twice) of
                   Some c \<Rightarrow>
                     if cand_id c \<noteq> 0
                     then Outcome MATCHED (Some (cand_id c))
                            (''score='' @ str_int 5 @ '' | q='' @ ''Heat'' @ '' | director_match'')
                     else Outcome AMBIGUOUS (Some (cand_id heat))
                            (''score='' @ str_int 5 @ '' | q='' @ ''Heat'' @ '' | director_match'')
                 | None \<Rightarrow>
                     Outcome AMBIGUOUS (Some (cand_id heat))
                       (''score='' @ str_int 5 @ '' | q='' @ ''Heat''))
      = Outcome MATCHED (Some 949) ''score=5 | q=Heat | director_match''"
    by code_simp
  note t = director_disambiguation[OF 1 2 3 4 5, where ?cat2.0 = ?cat and ?it2.0 = ?it
      and ?results2.0 = heat_twice and used_q = "''Heat''" and ?calls2.0 = "[Search ''Heat'']"
      and best = heat and s = 5]
  from t have a: "filter is_credits (snd (match_br ?cat ?it)) =
           credits_until (get_directors_for_tmdb_id ?cat) (director_hint ?it) (take 3 ?scored)"
    by (rule conjunct1)
  from t have b: "fst (match_br ?cat ?it) =
           (case find (decisive (get_directors_for_tmdb_id ?cat) (director_hint ?it)) (take 3 ?scored) of
              None \<Rightarrow>
                Outcome AMBIGUOUS (Some (cand_id (snd (hd ?scored))))
                  (''ambiguous | best_score='' @ str_int (fst (hd ?scored)))
            | Some p \<Rightarrow>
                (case get_directors_for_tmdb_id ?cat (cand_id (snd p)) of
                   Inl e \<Rightarrow> Outcome ERROR None (''match: '' @ take 900 (str_error e))
                 | Inr dirs \<Rightarrow>
                     Outcome MATCHED (Some (cand_id (snd p)))
                       (''single result | best_score='' @ str_int (fst (hd ?scored))
                        @ '' | dir_match='' @ director_hint ?it)))"
    by (rule conjunct2[THEN conjunct2, THEN conjunct1])
  from t 6 have c: "filter is_credits (snd (match_watchlist ?cat ?it)) =
                watch_credits_until ?cat (norm_sc (or_empty (raw_directors ?it))) (take 5 heat_twice)"
    and d: "fst (match_watchlist ?cat ?it) =
                (case find (watch_meets ?cat (norm_sc (or_empty (raw_directors ?it)))) (take 5 heat_twice) of
                   Some c \<Rightarrow>
                     if cand_id c \<noteq> 0
                     then Outcome MATCHED (Some (cand_id c))
                            (''score='' @ str_int 5 @ '' | q='' @ ''Heat'' @ '' | director_match'')
                     else Outcome AMBIGUOUS (Some (cand_id heat))
                            (''score='' @ str_int 5 @ '' | q='' @ ''Heat'' @ '' | director_match'')
                 | None \<Rightarrow>
                     Outcome AMBIGUOUS (Some (cand_id heat))
                       (''score='' @ str_int 5 @ '' | q='' @ ''Heat''))"
    by blast+
  from a b c d show ?thesis unfolding 7 8 9 10 by blast
qed

text \<open>
  Claim C2 as the specification words it fails inside its own condition.  With five results
  all scoring 5 and a hint that no director meets, the watch-list matcher calls the credits
  endpoint five times.  With scores 5, 5 and 2 the Blu-ray matcher fetches the directors of
  the third candidate, which is not tied, and matches the record to it.
\<close>

theorem tied_records_outside_the_rule:
  "map (score_candidate_sc ''heat'' None []) heat_five = [5, 5, 5, 5, 5]
   \<and> norm_sc ''Mann'' = ''mann''
   \<and> filter is_credits (snd (match_watchlist (fixed_catalog heat_five no_crew)
                                (pending_row ''Heat'' None (Some ''Mann''))))
     = [Credits 1, Credits 2, Credits 3, Credits 4, Credits 5]
   \<and> map fst (scored_br ''heat'' ''mann'' heat_pair_and_sequel) = [5, 5, 2]
   \<and> filter is_credits (snd (match_br (fixed_catalog heat_pair_and_sequel mann_third)
                                (pending_row ''Heat'' None (Some ''Mann''))))
     = [Credits 949, Credits 950, Credits 3]
   \<and> fst (match_br (fixed_catalog heat_pair_and_sequel mann_third)
             (pending_row ''Heat'' None (Some ''Mann'')))
     = Outcome MATCHED (Some 3) ''single result | best_score=5 | dir_match=mann''"
  by code_simp

section \<open>The seen-list matcher with an empty hint\<close>











section \<open>Ambiguity\<close>

lemma sort_desc_mset: "mset (sort_desc xs) = mset xs"
  by (simp add: sort_desc_def)

lemma sort_desc_sorted: "sorted_wrt (\<lambda>p q. fst q \<le> fst p) (sort_desc xs)"
proof -
  have "sorted (map (\<lambda>p. - fst p) (sort_desc xs))"
    unfolding sort_desc_def by (rule sorted_sort_key)
  then show ?thesis by (simp add: sorted_map)
qed

lemma length_filter_mset_eq:
  assumes "mset ys = mset xs"
  shows "length (filter P ys) = length (filter P xs)"
proof -
  have "mset (filter P ys) = mset (filter P xs)" using assms by (metis mset_filter)
  then show ?thesis by (metis size_mset)
qed

lemma tied_sorted:
  assumes "sorted_wrt (\<lambda>p q. fst q \<le> fst p) ys"
  shows "top_two_tied ys = tied_at_top ys"
proof (cases ys)
  case Nil
  then show ?thesis by (simp add: tied_at_top_def)
next
  case (Cons a rest)
  with assms have le: "\<forall>p\<in>set rest. fst p \<le> fst a" by simp
  have mx: "Max (set (map fst ys)) = fst a"
  proof (rule Max_eqI)
    show "finite (set (map fst ys))" by simp
    show "\<And>y. y \<in> set (map fst ys) \<Longrightarrow> y \<le> fst a" using le Cons by auto
    show "fst a \<in> set (map fst ys)" using Cons by simp
  qed
  have t: "tied_at_top ys = (2 \<le> length ys \<and> 2 \<le> length (filter (\<lambda>p. fst p = fst a) ys))"
    by (simp only: tied_at_top_def mx)
  show ?thesis
  proof (cases rest)
    case Nil
    with Cons show ?thesis by (simp add: tied_at_top_def)
  next
    case (Cons b rest')
    with assms \<open>ys = a # rest\<close> have ba: "fst b \<le> fst a" and lb: "\<forall>p\<in>set rest'. fst p \<le> fst b"
      by simp_all
    show ?thesis
    proof (cases "fst a = fst b")
      case True
      then show ?thesis
        unfolding t using \<open>ys = a # rest\<close> Cons by simp
    next
      case False
      with ba have "fst b < fst a" by simp
      with lb have "\<forall>p\<in>set rest'. fst p \<noteq> fst a" by auto
      then have "filter (\<lambda>p. fst p = fst a) rest' = []" by (simp add: filter_empty_conv)
      with False show ?thesis
        unfolding t using \<open>ys = a # rest\<close> Cons by simp
    qed
  qed
qed

lemma tied_at_top_mset:
  assumes "mset ys = mset xs"
  shows "tied_at_top ys = tied_at_top xs"
proof -
  have "set ys = set xs" using assms by (rule mset_eq_setD)
  then have s: "set (map fst ys) = set (map fst xs)" by simp
  have l: "length ys = length xs" using assms by (rule mset_eq_length)
  show ?thesis
    unfolding tied_at_top_def s l
    using length_filter_mset_eq[OF assms] by simp
qed

lemma top_two_tied_sort_desc: "top_two_tied (sort_desc xs) = tied_at_top xs"
  using tied_sorted[OF sort_desc_sorted, of xs] tied_at_top_mset[OF sort_desc_mset, of xs] by simp


lemma sort_desc_empty: "(sort_desc xs = []) = (xs = [])"
  by (metis sort_desc_mset mset_zero_iff)

lemma sorted_hd_max:
  assumes "sorted_wrt (\<lambda>p q. fst q \<le> fst p) ys" and "ys \<noteq> []"
  shows "fst (hd ys) = Max (set (map fst ys))"
proof (cases ys)
  case Nil
  with assms(2) show ?thesis by simp
next
  case (Cons a rest)
  with assms have le: "\<forall>p\<in>set rest. fst p \<le> fst a" by simp
  have "Max (set (map fst ys)) = fst a"
  proof (rule Max_eqI)
    show "finite (set (map fst ys))" by simp
    show "\<And>y. y \<in> set (map fst ys) \<Longrightarrow> y \<le> fst a" using le Cons by auto
    show "fst a \<in> set (map fst ys)" using Cons by simp
  qed
  then show ?thesis by (simp add: Cons)
qed

lemma sort_desc_hd_max: "xs \<noteq> [] \<Longrightarrow> fst (hd (sort_desc xs)) = Max (set (map fst xs))"
proof -
  assume ne: "xs \<noteq> []"
  have "set (sort_desc xs) = set xs" using sort_desc_mset[of xs] by (rule mset_eq_setD)
  then have "set (map fst (sort_desc xs)) = set (map fst xs)" by simp
  then show ?thesis
    using sorted_hd_max[OF sort_desc_sorted, of xs] ne by (simp add: sort_desc_empty)
qed

lemma decide_br_untied:
  assumes "scored \<noteq> []" and "\<not> top_two_tied scored"
  shows "decide_br cat hint scored =
     (Inr (Outcome MATCHED (Some (cand_id (snd (hd scored))))
             (''single result | best_score='' @ str_int (fst (hd scored)))), [])"
proof (cases scored)
  case Nil
  with assms(1) show ?thesis by simp
next
  case (Cons a ys)
  obtain bs b where a: "a = (bs, b)" by (cases a)
  have "\<not> top_two_tied (take 3 scored)" using assms(2) by (simp add: top_two_tied_take)
  then show ?thesis unfolding decide_br_def by (simp add: Cons a Let_def)
qed

lemma decide_br_tied_no_hint:
  assumes "top_two_tied scored"
  shows "decide_br cat [] scored =
     (Inr (Outcome AMBIGUOUS (Some (cand_id (snd (hd scored))))
             (''ambiguous | best_score='' @ str_int (fst (hd scored)))), [])"
proof (cases scored)
  case Nil
  with assms(1) show ?thesis by simp
next
  case (Cons a ys)
  obtain bs b where a: "a = (bs, b)" by (cases a)
  have "top_two_tied (take 3 scored)" using assms by (simp add: top_two_tied_take)
  then show ?thesis unfolding decide_br_def by (simp add: Cons a Let_def)
qed

lemma score_br_same_titles:
  assumes "norm_br (or_empty (cand_title c1)) = norm_br (or_empty (cand_title c2))"
    and "norm_br (or_empty (cand_original_title c1)) = norm_br (or_empty (cand_original_title c2))"
  shows "score_candidate_br q None d c1 = score_candidate_br q None d c2"
  using assms by (simp add: score_candidate_br_def year_points_def Let_def)

lemma match_watchlist_no_hint:
  assumes "do_search cat (or_empty (raw_title it)) = Inr results"
    and "results \<noteq> []"
    and "norm_sc (or_empty (raw_directors it)) = []"
  shows "outcome_status (fst (match_watchlist cat it)) = (if 1 < length results then AMBIGUOUS else MATCHED)"
proof -
  from assms(2) have "take 10 results \<noteq> []" by simp
  then have "fst (pick_best (norm_sc (or_empty (raw_title it))) (raw_year it) (None, - 1) (take 10 results)) \<noteq> None"
    by (rule pick_best_nonempty)
  then obtain best s where pb:
    "pick_best (norm_sc (or_empty (raw_title it))) (raw_year it) (None, - 1) (take 10 results) = (Some best, s)"
    by (cases "pick_best (norm_sc (or_empty (raw_title it))) (raw_year it) (None, - 1) (take 10 results)") auto
  have sp: "search_two_pass cat (raw_title it) = (Inr (results, str_opt (raw_title it)), [Search (or_empty (raw_title it))])"
    using assms(1,2) by (simp add: search_two_pass_def)
  have "resolve_watchlist cat it =
          (Inr (Outcome (if 1 < length results then AMBIGUOUS else MATCHED) (Some (cand_id best))
                 (''score='' @ str_int s @ '' | q='' @ str_opt (raw_title it))),
           [Search (or_empty (raw_title it))])"
    unfolding resolve_watchlist_def Let_def sp
    using assms(2,3) pb by simp
  then have "fst (match_watchlist cat it) =
           Outcome (if 1 < length results then AMBIGUOUS else MATCHED) (Some (cand_id best))
                  (''score='' @ str_int s @ '' | q='' @ str_opt (raw_title it))"
    by (intro match_watchlist_outcome) simp
  then show ?thesis by simp
qed

text \<open>
  Claim C3, as the code has it.  For a Blu-ray row whose search succeeds with results, let
  the pairs be the first ten results with their scores and the scored list their stable
  sort by descending score.  The test of the matcher on the scored list holds exactly when
  there are at least two pairs and the highest score is reached by at least two of them;
  the head of the scored list has the highest score.  When the pairs are not tied the row
  is \<open>MATCHED\<close> to the head with the note \<open>single result | best_score=N\<close>; when they are
  tied and the row has no director hint it is \<open>AMBIGUOUS\<close>, the id of the head is stored
  and the note is \<open>ambiguous | best_score=N\<close>; and the row is \<open>AMBIGUOUS\<close> exactly when
  the pairs are tied and either there is no hint or none of the three best candidates is
  decisive for the hint.  In particular two results with the same normalised titles and no
  hint give \<open>AMBIGUOUS\<close> with the id of the first and a note that holds the score, not the
  ids.  In the watch-list matcher a row with results and no director hint is \<open>AMBIGUOUS\<close>
  exactly when there is more than one result, whatever the scores.
\<close>

theorem ambiguity_rule:
  assumes "fst (tmdb_get_br ''/search/movie''
                  (search_responses cat (strip (or_empty (raw_title it))) None)) = Inr results"
    and "results \<noteq> []"
    and "pairs = map (\<lambda>r. (score_candidate_br (norm_br (strip (or_empty (raw_title it)))) None
                              (director_hint it) r, r)) (take 10 results)"
    and "scored = sort_desc pairs"
  shows "top_two_tied scored = tied_at_top pairs
       \<and> fst (hd scored) = Max (set (map fst pairs))
       \<and> (\<not> tied_at_top pairs \<longrightarrow>
            fst (match_br cat it) =
              Outcome MATCHED (Some (cand_id (snd (hd scored))))
                (''single result | best_score='' @ str_int (fst (hd scored))))
       \<and> (tied_at_top pairs \<and> director_hint it = [] \<longrightarrow>
            fst (match_br cat it) =
              Outcome AMBIGUOUS (Some (cand_id (snd (hd scored))))
                (''ambiguous | best_score='' @ str_int (fst (hd scored))))
       \<and> (outcome_status (fst (match_br cat it)) = AMBIGUOUS) =
            (tied_at_top pairs
             \<and> (director_hint it = []
                \<or> find (decisive (get_directors_for_tmdb_id cat) (director_hint it)) (take 3 scored)
                   = None))
       \<and> (results = [c1, c2]
            \<and> norm_br (or_empty (cand_title c1)) = norm_br (or_empty (cand_title c2))
            \<and> norm_br (or_empty (cand_original_title c1)) = norm_br (or_empty (cand_original_title c2))
            \<and> director_hint it = [] \<longrightarrow>
          fst (match_br cat it) =
            Outcome AMBIGUOUS (Some (cand_id c1))
              (''ambiguous | best_score=''
               @ str_int (score_candidate_br (norm_br (strip (or_empty (raw_title it)))) None [] c1)))
       \<and> (do_search cat2 (or_empty (raw_title it2)) = Inr results2 \<and> results2 \<noteq> []
            \<and> norm_sc (or_empty (raw_directors it2)) = [] \<longrightarrow>
          (outcome_status (fst (match_watchlist cat2 it2)) = AMBIGUOUS) = (1 < length results2))"
proof -
  let ?q = "norm_br (strip (or_empty (raw_title it)))"
  let ?hint = "director_hint it"
  let ?fetch = "get_directors_for_tmdb_id cat"
  have sc: "scored_br ?q ?hint results = scored"
    by (simp add: scored_br_def assms(3,4))
  have pne: "pairs \<noteq> []" using assms(2,3) by simp
  then have ne: "scored \<noteq> []" by (simp add: assms(4) sort_desc_empty)
  have t: "top_two_tied scored = tied_at_top pairs"
    unfolding assms(4) by (rule top_two_tied_sort_desc)
  have m: "fst (hd scored) = Max (set (map fst pairs))"
    unfolding assms(4) using pne by (rule sort_desc_hd_max)
  have r: "resolve_br cat it =
     (fst (decide_br cat ?hint scored),
      Search (strip (or_empty (raw_title it))) # snd (decide_br cat ?hint scored))"
    using resolve_br_found[OF assms(1,2)] by (simp only: sc)
  have untied: "fst (match_br cat it) =
              Outcome MATCHED (Some (cand_id (snd (hd scored))))
                (''single result | best_score='' @ str_int (fst (hd scored)))"
    if "\<not> tied_at_top pairs"
  proof -
    from that t have "\<not> top_two_tied scored" by simp
    then have "fst (resolve_br cat it) =
        Inr (Outcome MATCHED (Some (cand_id (snd (hd scored))))
                (''single result | best_score='' @ str_int (fst (hd scored))))"
      using ne by (simp add: r decide_br_untied)
    then show ?thesis by (rule match_br_outcome)
  qed
  have nohint: "fst (match_br cat it) =
              Outcome AMBIGUOUS (Some (cand_id (snd (hd scored))))
                (''ambiguous | best_score='' @ str_int (fst (hd scored)))"
    if "tied_at_top pairs" and "?hint = []"
  proof -
    from that t have "top_two_tied scored" by simp
    then have "fst (resolve_br cat it) =
        Inr (Outcome AMBIGUOUS (Some (cand_id (snd (hd scored))))
                (''ambiguous | best_score='' @ str_int (fst (hd scored))))"
      using that(2) by (simp add: r decide_br_tied_no_hint)
    then show ?thesis by (rule match_br_outcome)
  qed
  have iff: "(outcome_status (fst (match_br cat it)) = AMBIGUOUS) =
            (tied_at_top pairs \<and> (?hint = [] \<or> find (decisive ?fetch ?hint) (take 3 scored) = None))"
  proof (cases "tied_at_top pairs")
    case False
    then show ?thesis by (simp add: untied)
  next
    case True
    show ?thesis
    proof (cases "?hint = []")
      case h: True
      from nohint[OF True h] True h show ?thesis by simp
    next
      case h: False
      from True t have tt: "top_two_tied scored" by simp
      note d = decide_br_tied[OF tt h, of cat]
      show ?thesis
      proof (cases "find (decisive ?fetch ?hint) (take 3 scored)")
        case None
        then have "fst (resolve_br cat it) =
            Inr (Outcome AMBIGUOUS (Some (cand_id (snd (hd scored))))
                   (''ambiguous | best_score='' @ str_int (fst (hd scored))))"
          by (simp add: r d)
        then have "outcome_status (fst (match_br cat it)) = AMBIGUOUS"
          by (simp add: match_br_outcome)
        with True None show ?thesis by simp
      next
        case (Some p)
        have "outcome_status (fst (match_br cat it)) \<noteq> AMBIGUOUS"
        proof (cases "?fetch (cand_id (snd p))")
          case (Inl e)
          with Some have "fst (resolve_br cat it) = Inl e" by (simp add: r d)
          then show ?thesis by (simp add: match_br_raised)
        next
          case (Inr dirs)
          with Some have "fst (resolve_br cat it) =
              Inr (Outcome MATCHED (Some (cand_id (snd p)))
                     (''single result | best_score='' @ str_int (fst (hd scored))
                      @ '' | dir_match='' @ ?hint))"
            by (simp add: r d)
          then show ?thesis by (simp add: match_br_outcome)
        qed
        with h Some show ?thesis by simp
      qed
    qed
  qed
  have two: "fst (match_br cat it) =
            Outcome AMBIGUOUS (Some (cand_id c1))
              (''ambiguous | best_score='' @ str_int (score_candidate_br ?q None [] c1))"
    if a: "results = [c1, c2]
            \<and> norm_br (or_empty (cand_title c1)) = norm_br (or_empty (cand_title c2))
            \<and> norm_br (or_empty (cand_original_title c1)) = norm_br (or_empty (cand_original_title c2))
            \<and> ?hint = []"
  proof -
    let ?s = "score_candidate_br ?q None [] c1"
    from a have eq: "score_candidate_br ?q None [] c2 = ?s"
      using score_br_same_titles[of c1 c2 ?q "[]"] by simp
    from a have p: "pairs = [(?s, c1), (?s, c2)]" by (simp add: assms(3) eq)
    then have s: "scored = [(?s, c1), (?s, c2)]" by (simp add: assms(4) sort_desc_def)
    have "tied_at_top pairs" using t by (simp add: s)
    from nohint[OF this] a show ?thesis by (simp add: s)
  qed
  have w: "(outcome_status (fst (match_watchlist cat2 it2)) = AMBIGUOUS) = (1 < length results2)"
    if a: "do_search cat2 (or_empty (raw_title it2)) = Inr results2 \<and> results2 \<noteq> []
            \<and> norm_sc (or_empty (raw_directors it2)) = []"
  proof -
    from a have "outcome_status (fst (match_watchlist cat2 it2)) =
        (if 1 < length results2 then AMBIGUOUS else MATCHED)"
      by (intro match_watchlist_no_hint) simp_all
    then show ?thesis by simp
  qed
  from t m untied nohint iff two w show ?thesis by blast
qed

text \<open>
  The theorem at two tied results (ambiguous in both matchers), at two results with the
  scores 5 and 2 (matched by the Blu-ray matcher), and at a single result (matched by the
  watch-list matcher).
\<close>

theorem ambiguity_rule_witness:
  "tied_at_top [(5 :: int, heat), (5, heat\<lparr>cand_id := 950\<rparr>)]
   \<and> director_hint (pending_row ''Heat'' None None) = []
   \<and> fst (match_br (fixed_catalog heat_twice mann_only) (pending_row ''Heat'' None None))
       = Outcome AMBIGUOUS (Some 949) ''ambiguous | best_score=5''
   \<and> outcome_status (fst (match_watchlist (fixed_catalog heat_twice mann_only)
                             (pending_row ''Heat'' None None))) = AMBIGUOUS
   \<and> \<not> tied_at_top [(5 :: int, heat), (2, heat_sequels ! 1)]
   \<and> fst (match_br (fixed_catalog (take 2 heat_sequels) mann_only) (pending_row ''Heat'' None None))
       = Outcome MATCHED (Some 949) ''single result | best_score=5''
   \<and> outcome_status (fst (match_watchlist (fixed_catalog [heat] no_crew)
                             (pending_row ''Heat'' None None))) \<noteq> AMBIGUOUS"
proof -
  let ?a = "fixed_catalog heat_twice mann_only"
  let ?b = "fixed_catalog (take 2 heat_sequels) mann_only"
  let ?c = "fixed_catalog [heat] no_crew"
  let ?it = "pending_row ''Heat'' None None"
  let ?h = "heat\<lparr>cand_id := 950\<rparr>"
  let ?pa = "[(5 :: int, heat), (5, ?h)]"
  let ?pb = "[(5 :: int, heat), (2, heat_sequels ! 1)]"
  have a1: "fst (tmdb_get_br ''/search/movie''
             (search_responses ?a (strip (or_empty (raw_title ?it))) None)) = Inr heat_twice"
    by code_simp
  have b1: "fst (tmdb_get_br ''/search/movie''
             (search_responses ?b (strip (or_empty (raw_title ?it))) None)) = Inr (take 2 heat_sequels)"
    by code_simp
  have a2: "heat_twice \<noteq> []" by (simp add: heat_twice_def)
  have b2: "take 2 heat_sequels \<noteq> []" by (simp add: heat_sequels_def)
  have a3: "?pa = map (\<lambda>r. (score_candidate_br (norm_br (strip (or_empty (raw_title ?it)))) None
                              (director_hint ?it) r, r)) (take 10 heat_twice)"
    by code_simp
  have b3: "?pb = map (\<lambda>r. (score_candidate_br (norm_br (strip (or_empty (raw_title ?it)))) None
                              (director_hint ?it) r, r)) (take 10 (take 2 heat_sequels))"
    by code_simp
  have a4: "?pa = sort_desc ?pa" by code_simp
  have b4: "?pb = sort_desc ?pb" by code_simp
  have ta: "tied_at_top ?pa" by (simp add: tied_at_top_def)
  have tb: "\<not> tied_at_top ?pb" by (simp add: tied_at_top_def)
  have h: "director_hint ?it = []" by code_simp
  have a5: "heat_twice = [heat, ?h]
      \<and> norm_br (or_empty (cand_title heat)) = norm_br (or_empty (cand_title ?h))
      \<and> norm_br (or_empty (cand_original_title heat)) = norm_br (or_empty (cand_original_title ?h))
      \<and> director_hint ?it = []"
    using h by (simp add: heat_twice_def)
  have a6: "do_search ?a (or_empty (raw_title ?it)) = Inr heat_twice \<and> heat_twice \<noteq> []
      \<and> norm_sc (or_empty (raw_directors ?it)) = []"
    by code_simp
  have c6: "do_search ?c (or_empty (raw_title ?it)) = Inr [heat] \<and> [heat] \<noteq> []
      \<and> norm_sc (or_empty (raw_directors ?it)) = []"
    by code_simp
  have e1: "Outcome AMBIGUOUS (Some (cand_id heat))
              (''ambiguous | best_score=''
               @ str_int (score_candidate_br (norm_br (strip (or_empty (raw_title ?it)))) None [] heat))
      = Outcome AMBIGUOUS (Some 949) ''ambiguous | best_score=5''"
    by code_simp
  have e2: "Outcome MATCHED (Some (cand_id (snd (hd ?pb))))
                (''single result | best_score='' @ str_int (fst (hd ?pb)))
      = Outcome MATCHED (Some 949) ''single result | best_score=5''"
    by code_simp
  note A = ambiguity_rule[OF a1 a2 a3 a4, where ?c1.0 = heat and ?c2.0 = ?h and ?cat2.0 = ?a
      and ?it2.0 = ?it and ?results2.0 = heat_twice]
  note B = ambiguity_rule[OF b1 b2 b3 b4, where ?cat2.0 = ?c and ?it2.0 = ?it and ?results2.0 = "[heat]"]
  from A a5 have m1: "fst (match_br ?a ?it) =
            Outcome AMBIGUOUS (Some (cand_id heat))
              (''ambiguous | best_score=''
               @ str_int (score_candidate_br (norm_br (strip (or_empty (raw_title ?it)))) None [] heat))"
    by blast
  from A a6 have "(outcome_status (fst (match_watchlist ?a ?it)) = AMBIGUOUS) = (1 < length heat_twice)"
    by blast
  then have w1: "outcome_status (fst (match_watchlist ?a ?it)) = AMBIGUOUS"
    by (simp add: heat_twice_def)
  from B tb have m2: "fst (match_br ?b ?it) =
              Outcome MATCHED (Some (cand_id (snd (hd ?pb))))
                (''single result | best_score='' @ str_int (fst (hd ?pb)))"
    by blast
  from B c6 have "(outcome_status (fst (match_watchlist ?c ?it)) = AMBIGUOUS) = (1 < length [heat])"
    by blast
  then have w2: "outcome_status (fst (match_watchlist ?c ?it)) \<noteq> AMBIGUOUS" by simp
  from ta h m1 w1 tb m2 w2 show ?thesis unfolding e1 e2 by blast
qed

text \<open>
  The claim as written fails twice.  For two tied candidates 949 and 950 the note of the
  Blu-ray matcher is \<open>ambiguous | best_score=5\<close> and names neither id.  In the watch-list
  matcher two results with the scores 5 and 2 are written as \<open>AMBIGUOUS\<close> although the
  two best scores differ.
\<close>

theorem tied_ids_not_in_note:
  "fst (match_br (fixed_catalog heat_twice mann_only) (pending_row ''Heat'' None None))
     = Outcome AMBIGUOUS (Some 949) ''ambiguous | best_score=5''
   \<and> \<not> py_in ''949'' ''ambiguous | best_score=5''
   \<and> \<not> py_in ''950'' ''ambiguous | best_score=5''
   \<and> map (score_candidate_sc ''heat'' None []) (take 2 heat_sequels) = [5, 2]
   \<and> outcome_status (fst (match_watchlist (fixed_catalog (take 2 heat_sequels) mann_only)
                             (pending_row ''Heat'' None None))) = AMBIGUOUS"
  by code_simp

section \<open>The fallback search\<close>

lemma pick_by_director_credits: "list_all is_credits (snd (pick_by_director cat q xs))"
  by (induction xs) (auto simp: Let_def split: prod.splits)

lemma match_watchlist_found:
  assumes "search_two_pass cat (raw_title it) = (Inr (results, used_q), calls)"
    and "results \<noteq> []"
  shows "(outcome_status (fst (match_watchlist cat it)) = MATCHED
          \<or> outcome_status (fst (match_watchlist cat it)) = AMBIGUOUS)
       \<and> filter is_search (snd (match_watchlist cat it)) = filter is_search calls"
proof -
  let ?pb = "pick_best (norm_sc (or_empty (raw_title it))) (raw_year it) (None, - 1) (take 10 results)"
  from assms(2) have "take 10 results \<noteq> []" by simp
  then have "fst ?pb \<noteq> None" by (rule pick_best_nonempty)
  then obtain best s where pb: "?pb = (Some best, s)" by (cases ?pb) auto
  let ?pd = "pick_by_director cat (norm_sc (or_empty (raw_directors it))) (take 5 results)"
  obtain p calls2 where pd: "?pd = (p, calls2)" by (cases ?pd)
  have "list_all is_credits (snd ?pd)" by (rule pick_by_director_credits)
  with pd have "list_all is_credits calls2" by simp
  then have c2: "filter is_search calls2 = []"
    by (induction calls2) (auto elim: is_credits.elims)
  show ?thesis
    unfolding match_watchlist_def resolve_watchlist_def Let_def assms(1)
    using assms(2) pb pd c2
    by (auto split: option.splits)
qed

lemma match_watchlist_not_found:
  assumes "search_two_pass cat (raw_title it) = (Inr ([], used_q), calls)"
  shows "match_watchlist cat it = (Outcome NOT_FOUND None (''no result | q='' @ used_q), calls)"
  unfolding match_watchlist_def resolve_watchlist_def Let_def assms by simp

text \<open>
  Claim C5, as the code has it.  In the watch-list matcher, when the search for the raw
  title returns nothing, the search is repeated once with the simplified title, provided
  that it is not empty and differs from the raw title.  If the second search returns
  nothing either, the row is written as \<open>NOT_FOUND\<close> with the simplified query in the
  note; if it returns results, the row ends as \<open>MATCHED\<close> or \<open>AMBIGUOUS\<close> after exactly
  these two searches.  When the simplified title is empty or equal to the raw title there
  is no second search and the row is \<open>NOT_FOUND\<close> with the raw title in the note.
\<close>

theorem fallback_search:
  assumes "do_search cat (or_empty (raw_title it)) = Inr []"
    and "q2 = simplify_title (raw_title it)"
  shows "(q2 \<noteq> [] \<and> Some q2 \<noteq> raw_title it \<longrightarrow>
            (do_search cat q2 = Inr [] \<longrightarrow>
               match_watchlist cat it =
                 (Outcome NOT_FOUND None (''no result | q='' @ q2),
                  [Search (or_empty (raw_title it)), Search q2]))
          \<and> (do_search cat q2 = Inr results \<and> results \<noteq> [] \<longrightarrow>
               (outcome_status (fst (match_watchlist cat it)) = MATCHED
                \<or> outcome_status (fst (match_watchlist cat it)) = AMBIGUOUS)
               \<and> filter is_search (snd (match_watchlist cat it)) =
                   [Search (or_empty (raw_title it)), Search q2]))
       \<and> (\<not> (q2 \<noteq> [] \<and> Some q2 \<noteq> raw_title it) \<longrightarrow>
            match_watchlist cat it =
              (Outcome NOT_FOUND None (''no result | q='' @ str_opt (raw_title it)),
               [Search (or_empty (raw_title it))]))"
proof (intro conjI impI)
  assume g: "q2 \<noteq> [] \<and> Some q2 \<noteq> raw_title it" and e: "do_search cat q2 = Inr []"
  have "search_two_pass cat (raw_title it) =
      (Inr ([], q2), [Search (or_empty (raw_title it)), Search q2])"
    using assms g e by (simp add: search_two_pass_def Let_def)
  then show "match_watchlist cat it =
      (Outcome NOT_FOUND None (''no result | q='' @ q2), [Search (or_empty (raw_title it)), Search q2])"
    by (rule match_watchlist_not_found)
next
  assume g: "q2 \<noteq> [] \<and> Some q2 \<noteq> raw_title it"
    and r: "do_search cat q2 = Inr results \<and> results \<noteq> []"
  have sp: "search_two_pass cat (raw_title it) =
      (Inr (results, q2), [Search (or_empty (raw_title it)), Search q2])"
    using assms g r by (simp add: search_two_pass_def Let_def)
  from r have ne: "results \<noteq> []" by simp
  from match_watchlist_found[OF sp ne]
  show "outcome_status (fst (match_watchlist cat it)) = MATCHED
        \<or> outcome_status (fst (match_watchlist cat it)) = AMBIGUOUS"
    and "filter is_search (snd (match_watchlist cat it)) = [Search (or_empty (raw_title it)), Search q2]"
    by simp_all
next
  assume g: "\<not> (q2 \<noteq> [] \<and> Some q2 \<noteq> raw_title it)"
  have "search_two_pass cat (raw_title it) =
      (Inr ([], str_opt (raw_title it)), [Search (or_empty (raw_title it))])"
    using assms g by (auto simp: search_two_pass_def Let_def)
  then show "match_watchlist cat it =
      (Outcome NOT_FOUND None (''no result | q='' @ str_opt (raw_title it)),
       [Search (or_empty (raw_title it))])"
    by (rule match_watchlist_not_found)
qed

theorem fallback_search_witness:
  "do_search (keyed_catalog ''heat'' [heat]) (or_empty (raw_title (pending_row ''The Heat'' None None))) = Inr []
   \<and> simplify_title (raw_title (pending_row ''The Heat'' None None)) = ''heat''
   \<and> (outcome_status (fst (match_watchlist (keyed_catalog ''heat'' [heat]) (pending_row ''The Heat'' None None))) = MATCHED
       \<or> outcome_status (fst (match_watchlist (keyed_catalog ''heat'' [heat]) (pending_row ''The Heat'' None None))) = AMBIGUOUS)
   \<and> filter is_search (snd (match_watchlist (keyed_catalog ''heat'' [heat]) (pending_row ''The Heat'' None None)))
       = [Search ''The Heat'', Search ''heat'']
   \<and> match_watchlist (keyed_catalog ''none'' []) (pending_row ''The Heat'' None None)
       = (Outcome NOT_FOUND None ''no result | q=heat'', [Search ''The Heat'', Search ''heat''])"
proof -
  let ?cat = "keyed_catalog ''heat'' [heat]"
  let ?empty = "keyed_catalog ''none'' []"
  let ?it = "pending_row ''The Heat'' None None"
  have 1: "do_search ?cat (or_empty (raw_title ?it)) = Inr []" by code_simp
  have z1: "do_search ?empty (or_empty (raw_title ?it)) = Inr []" by code_simp
  have 2: "''heat'' = simplify_title (raw_title ?it)" by code_simp
  have g: "''heat'' \<noteq> [] \<and> Some ''heat'' \<noteq> raw_title ?it" by (simp add: pending_row_def)
  have "do_search ?cat ''heat'' = Inr [heat]" by code_simp
  then have r: "do_search ?cat ''heat'' = Inr [heat] \<and> [heat] \<noteq> []" by simp
  have e: "do_search ?empty ''heat'' = Inr []" by code_simp
  have t: "or_empty (raw_title ?it) = ''The Heat''" by code_simp
  from fallback_search[OF 1 2, of "[heat]"] g r
  have a: "outcome_status (fst (match_watchlist ?cat ?it)) = MATCHED
        \<or> outcome_status (fst (match_watchlist ?cat ?it)) = AMBIGUOUS"
    and b: "filter is_search (snd (match_watchlist ?cat ?it)) = [Search (or_empty (raw_title ?it)), Search ''heat'']"
    by blast+
  from fallback_search[OF z1 2, of "[]"] g e
  have c: "match_watchlist ?empty ?it =
      (Outcome NOT_FOUND None (''no result | q='' @ ''heat''), [Search (or_empty (raw_title ?it)), Search ''heat''])"
    by blast
  from a b c 1 2 show ?thesis unfolding t by simp
qed

text \<open>
  The claim as written fails.  For the raw title \<open>le\<close> the simplified title is empty:
  the watch-list matcher searches once and writes \<open>NOT_FOUND\<close>.  The seen-list matcher
  has no second search at all: a title without results is \<open>NOT_FOUND\<close> after one search,
  also when the simplified title would have results.
\<close>

theorem not_found_without_retry:
  "match_watchlist (keyed_catalog ''none'' []) (pending_row ''le'' None None)
     = (Outcome NOT_FOUND None ''no result | q=le'', [Search ''le''])
   \<and> simplify_title (Some ''The Heat'') = ''heat''
   \<and> do_search (keyed_catalog ''heat'' [heat]) ''The Heat'' = Inr []
   \<and> do_search (keyed_catalog ''heat'' [heat]) ''heat'' = Inr [heat]
   \<and> outcome_status (fst (match_seen (keyed_catalog ''heat'' [heat]) (pending_row ''The Heat'' None None)))
       = NOT_FOUND
   \<and> snd (match_seen (keyed_catalog ''heat'' [heat]) (pending_row ''The Heat'' None None))
       = [Search ''The Heat'']"
  by code_simp

section \<open>The id of a matched row\<close>

lemma sound_error_outcome: "sound_outcome (error_outcome prefix n e)"
  by (simp add: error_outcome_def)

lemma sound_decide_br: "decide_br cat hint scored = (Inr out, calls) \<Longrightarrow> sound_outcome out"
  unfolding decide_br_def Let_def
  by (auto split: list.splits prod.splits sum.splits option.splits if_splits)

lemma sound_resolve_br: "resolve_br cat r = (Inr out, calls) \<Longrightarrow> sound_outcome out"
  unfolding resolve_br_def Let_def
  by (auto split: sum.splits if_splits prod.splits dest: sound_decide_br)

lemma sound_match_br: "sound_outcome (fst (match_br cat r))"
  unfolding match_br_def
  by (auto split: prod.splits sum.splits simp: sound_error_outcome dest: sound_resolve_br)

lemma sound_decide_seen: "decide_seen cat hint scored = (Inr out, calls) \<Longrightarrow> sound_outcome out"
  unfolding decide_seen_def Let_def
  by (auto split: list.splits prod.splits sum.splits option.splits if_splits)

lemma sound_resolve_seen: "resolve_seen cat r = (Inr out, calls) \<Longrightarrow> sound_outcome out"
  unfolding resolve_seen_def Let_def
  by (auto split: sum.splits if_splits prod.splits dest: sound_decide_seen)

lemma sound_match_seen: "sound_outcome (fst (match_seen cat r))"
  unfolding match_seen_def
  by (auto split: prod.splits sum.splits simp: sound_error_outcome dest: sound_resolve_seen)

lemma sound_resolve_watchlist: "resolve_watchlist cat r = (Inr out, calls) \<Longrightarrow> sound_outcome out"
  unfolding resolve_watchlist_def Let_def
  by (auto split: sum.splits if_splits prod.splits option.splits)

lemma sound_match_watchlist: "sound_outcome (fst (match_watchlist cat r))"
  unfolding match_watchlist_def
  by (auto split: prod.splits sum.splits simp: sound_error_outcome dest: sound_resolve_watchlist)

lemma sound_resolve_nas: "resolve_nas cat r = (Inr out, calls) \<Longrightarrow> sound_outcome out"
  unfolding resolve_nas_def Let_def ambiguous_nas_def
  by (auto split: sum.splits if_splits prod.splits option.splits list.splits)

lemma sound_match_nas: "sound_outcome (fst (match_nas cat r))"
  unfolding match_nas_def
  by (auto split: prod.splits sum.splits simp: sound_error_outcome dest: sound_resolve_nas)

lemma write_sound_outcome:
  assumes "sound_outcome out"
  shows "id_if_matched (write_outcome out r) \<and> no_id_if_pending (write_outcome out r)"
  using assms by (cases out) (auto simp: id_if_matched_def no_id_if_pending_def split: option.splits)

lemma ambiguous_decide_br:
  "decide_br cat hint scored = (Inr out, calls) \<Longrightarrow> outcome_status out = AMBIGUOUS \<Longrightarrow>
   outcome_id out \<noteq> None"
  unfolding decide_br_def Let_def
  by (auto split: list.splits prod.splits sum.splits option.splits if_splits)

lemma ambiguous_resolve_br:
  "resolve_br cat r = (Inr out, calls) \<Longrightarrow> outcome_status out = AMBIGUOUS \<Longrightarrow>
   outcome_id out \<noteq> None"
  unfolding resolve_br_def Let_def
  by (auto split: sum.splits if_splits prod.splits dest: ambiguous_decide_br)

lemma ambiguous_match_br:
  "outcome_status (fst (match_br cat r)) = AMBIGUOUS \<Longrightarrow> outcome_id (fst (match_br cat r)) \<noteq> None"
  unfolding match_br_def
  by (auto split: prod.splits sum.splits simp: error_outcome_def dest: ambiguous_resolve_br)

lemma ambiguous_decide_seen:
  "decide_seen cat hint scored = (Inr out, calls) \<Longrightarrow> outcome_status out = AMBIGUOUS \<Longrightarrow>
   outcome_id out \<noteq> None"
  unfolding decide_seen_def Let_def
  by (auto split: list.splits prod.splits sum.splits option.splits if_splits)

lemma ambiguous_resolve_seen:
  "resolve_seen cat r = (Inr out, calls) \<Longrightarrow> outcome_status out = AMBIGUOUS \<Longrightarrow>
   outcome_id out \<noteq> None"
  unfolding resolve_seen_def Let_def
  by (auto split: sum.splits if_splits prod.splits dest: ambiguous_decide_seen)

lemma ambiguous_match_seen:
  "outcome_status (fst (match_seen cat r)) = AMBIGUOUS \<Longrightarrow> outcome_id (fst (match_seen cat r)) \<noteq> None"
  unfolding match_seen_def
  by (auto split: prod.splits sum.splits simp: error_outcome_def dest: ambiguous_resolve_seen)

lemma ambiguous_resolve_watchlist:
  "resolve_watchlist cat r = (Inr out, calls) \<Longrightarrow> outcome_status out = AMBIGUOUS \<Longrightarrow>
   outcome_id out \<noteq> None"
  unfolding resolve_watchlist_def Let_def
  by (auto split: sum.splits if_splits prod.splits option.splits)

lemma ambiguous_match_watchlist:
  "outcome_status (fst (match_watchlist cat r)) = AMBIGUOUS \<Longrightarrow>
   outcome_id (fst (match_watchlist cat r)) \<noteq> None"
  unfolding match_watchlist_def
  by (auto split: prod.splits sum.splits simp: error_outcome_def dest: ambiguous_resolve_watchlist)

lemma reachable_invariant:
  assumes "reachable r"
  shows "id_if_matched r \<and> no_id_if_pending r"
  using assms
proof (induction rule: reachable.induct)
  case (imported r)
  then show ?case by (simp add: id_if_matched_def no_id_if_pending_def)
next
  case (boxset r i)
  then show ?case by (simp add: id_if_matched_def no_id_if_pending_def)
next
  case (by_match_br r cat)
  show ?case by (rule write_sound_outcome) (rule sound_match_br)
next
  case (by_match_seen r cat)
  show ?case by (rule write_sound_outcome) (rule sound_match_seen)
next
  case (by_match_watchlist r cat)
  show ?case by (rule write_sound_outcome) (rule sound_match_watchlist)
next
  case (by_match_nas r cat)
  show ?case by (rule write_sound_outcome) (rule sound_match_nas)
next
  case (by_apply r)
  then show ?case
    by (simp add: id_if_matched_def no_id_if_pending_def selected_apply_def mark_applied_def add_marker_def)
next
  case (by_apply_sc r)
  then show ?case
    by (simp add: id_if_matched_def no_id_if_pending_def selected_apply_def add_marker_def)
next
  case (by_apply_error r prefix e)
  show ?case by (rule write_sound_outcome) (rule sound_error_outcome)
next
  case (by_manual_fix r chosen_id)
  show ?case by (simp add: id_if_matched_def no_id_if_pending_def manual_fix_def)
next
  case (by_manual_not_found r)
  show ?case by (simp add: id_if_matched_def no_id_if_pending_def manual_not_found_def)
next
  case (by_replace r)
  show ?case by (simp add: id_if_matched_def no_id_if_pending_def replaced_def)
qed

lemma seen_matched_row_value:
  "seen_matched_row =
     (pending_row ''Heat'' (Some 1995) None)
       \<lparr>tmdb_id := Some 949, match_status := MATCHED, match_note := Some ''score=8''\<rparr>"
proof -
  have "fst (match_seen (fixed_catalog [heat] no_crew) (pending_row ''Heat'' (Some 1995) None))
      = Outcome MATCHED (Some 949) ''score=8''"
    by code_simp
  then show ?thesis by (simp add: seen_matched_row_def pending_row_def)
qed

lemma reachable_pending_row: "reachable (pending_row t y d)"
  by (rule reachable.imported) (simp_all add: pending_row_def)

lemma reachable_seen_matched_row: "reachable seen_matched_row"
  unfolding seen_matched_row_def
  by (rule reachable.by_match_seen[OF reachable_pending_row])
     (simp add: pending_row_def selected_pending_def)

lemma seen_ambiguous_outcome:
  "fst (match_seen (fixed_catalog heat_twice no_crew) (pending_row ''Heat'' (Some 1995) None))
     = Outcome AMBIGUOUS (Some 949) ''score=8''"
  by code_simp

lemma seen_ambiguous_row_value:
  "seen_ambiguous_row =
     (pending_row ''Heat'' (Some 1995) None)
       \<lparr>tmdb_id := Some 949, match_status := AMBIGUOUS, match_note := Some ''score=8''\<rparr>"
  unfolding seen_ambiguous_row_def seen_ambiguous_outcome by (simp add: pending_row_def)

lemma reachable_seen_ambiguous_row: "reachable seen_ambiguous_row"
  unfolding seen_ambiguous_row_def
  by (rule reachable.by_match_seen[OF reachable_pending_row])
     (simp add: pending_row_def selected_pending_def)

text \<open>
  Claim C6, as the code has it.  In every state that a row can reach, a row whose status
  is \<open>MATCHED\<close> or \<open>APPLIED\<close> has its catalogue id set and a row whose status is
  \<open>PENDING\<close> has none; every step of the matchers, of the appliers, of their error
  handlers, of manual resolution and of the archiving of a box set keeps this.  A row that
  the Blu-ray, the seen-list or the watch-list matcher writes as \<open>AMBIGUOUS\<close> has its id
  set.  Nothing more of the equivalence holds: the NAS matcher writes \<open>AMBIGUOUS\<close> without
  id, and rows in \<open>ERROR\<close> and \<open>NOT_FOUND\<close> can keep an id.
\<close>

theorem id_kept_when_matched:
  assumes "reachable r"
  shows "id_if_matched r
       \<and> no_id_if_pending r
       \<and> (outcome_status (fst (match_br cat r)) = AMBIGUOUS \<longrightarrow>
            tmdb_id (write_outcome (fst (match_br cat r)) r) \<noteq> None)
       \<and> (outcome_status (fst (match_seen cat r)) = AMBIGUOUS \<longrightarrow>
            tmdb_id (write_outcome (fst (match_seen cat r)) r) \<noteq> None)
       \<and> (outcome_status (fst (match_watchlist cat r)) = AMBIGUOUS \<longrightarrow>
            tmdb_id (write_outcome (fst (match_watchlist cat r)) r) \<noteq> None)"
proof -
  have w: "tmdb_id (write_outcome out r) \<noteq> None" if "outcome_id out \<noteq> None" for out
    using that by (cases out) auto
  from assms have i: "id_if_matched r \<and> no_id_if_pending r" by (rule reachable_invariant)
  have b: "tmdb_id (write_outcome (fst (match_br cat r)) r) \<noteq> None"
    if "outcome_status (fst (match_br cat r)) = AMBIGUOUS"
    using that by (intro w ambiguous_match_br)
  have s: "tmdb_id (write_outcome (fst (match_seen cat r)) r) \<noteq> None"
    if "outcome_status (fst (match_seen cat r)) = AMBIGUOUS"
    using that by (intro w ambiguous_match_seen)
  have l: "tmdb_id (write_outcome (fst (match_watchlist cat r)) r) \<noteq> None"
    if "outcome_status (fst (match_watchlist cat r)) = AMBIGUOUS"
    using that by (intro w ambiguous_match_watchlist)
  from i b s l show ?thesis by blast
qed

text \<open>
  The theorem at a row matched by the seen-list matcher, at the pending row it started
  from, and at that row left ambiguous by the same matcher.
\<close>

theorem id_kept_when_matched_witness:
  "reachable seen_matched_row \<and> id_if_matched seen_matched_row
   \<and> match_status seen_matched_row = MATCHED \<and> tmdb_id seen_matched_row = Some 949
   \<and> reachable (pending_row ''Heat'' (Some 1995) None)
   \<and> match_status (pending_row ''Heat'' (Some 1995) None) = PENDING
   \<and> tmdb_id (pending_row ''Heat'' (Some 1995) None) = None
   \<and> outcome_status (fst (match_seen (fixed_catalog heat_twice no_crew)
                             (pending_row ''Heat'' (Some 1995) None))) = AMBIGUOUS
   \<and> tmdb_id seen_ambiguous_row \<noteq> None"
proof -
  let ?p = "pending_row ''Heat'' (Some 1995) None"
  let ?cat = "fixed_catalog heat_twice no_crew"
  note a = id_kept_when_matched[OF reachable_seen_matched_row, of ?cat]
  note b = id_kept_when_matched[OF reachable_pending_row, of "''Heat''" "Some 1995" None ?cat]
  have st: "match_status ?p = PENDING" by (simp add: pending_row_def)
  have am: "outcome_status (fst (match_seen ?cat ?p)) = AMBIGUOUS"
    by (simp add: seen_ambiguous_outcome)
  from a have 1: "id_if_matched seen_matched_row" by (rule conjunct1)
  from b st have 2: "tmdb_id ?p = None" by (simp add: no_id_if_pending_def)
  from b am have 3: "tmdb_id (write_outcome (fst (match_seen ?cat ?p)) ?p) \<noteq> None" by blast
  then have 4: "tmdb_id seen_ambiguous_row \<noteq> None" unfolding seen_ambiguous_row_def .
  from 1 2 4 st am reachable_seen_matched_row reachable_pending_row[of "''Heat''" "Some 1995" None]
  show ?thesis by (simp add: seen_matched_row_value)
qed

text \<open>
  The claim as written fails in both directions.  The NAS matcher writes \<open>AMBIGUOUS\<close>
  without touching \<open>tmdb_id\<close>, so a pending row becomes ambiguous with no id.  The error
  handler of an applier writes \<open>ERROR\<close> and leaves the id of the matched row in place.
  Manual resolution writes \<open>NOT_FOUND\<close> on an ambiguous row and leaves its id in place.
\<close>

theorem id_not_iff_resolved:
  "reachable nas_ambiguous_row \<and> match_status nas_ambiguous_row = AMBIGUOUS
   \<and> tmdb_id nas_ambiguous_row = None \<and> \<not> id_iff_resolved nas_ambiguous_row
   \<and> reachable apply_failed_row \<and> match_status apply_failed_row = ERROR
   \<and> tmdb_id apply_failed_row = Some 949 \<and> \<not> id_iff_resolved apply_failed_row
   \<and> reachable given_up_row \<and> match_status given_up_row = NOT_FOUND
   \<and> tmdb_id given_up_row = Some 949 \<and> \<not> id_iff_resolved given_up_row"
proof -
  have o: "fst (match_nas (fixed_catalog heat_twice no_crew) (pending_row ''Heat'' None None))
      = Outcome AMBIGUOUS None ''candidates=949,950''"
    by code_simp
  have a: "reachable nas_ambiguous_row"
    unfolding nas_ambiguous_row_def
    by (rule reachable.by_match_nas[OF reachable_pending_row])
       (simp add: pending_row_def selected_pending_def)
  have av: "match_status nas_ambiguous_row = AMBIGUOUS" "tmdb_id nas_ambiguous_row = None"
    unfolding nas_ambiguous_row_def o by (simp_all add: pending_row_def)
  have sel: "selected_apply seen_matched_row"
    by (simp add: seen_matched_row_value selected_apply_def pending_row_def) code_simp
  have e: "reachable apply_failed_row"
    unfolding apply_failed_row_def
    using reachable_seen_matched_row sel by (rule reachable.by_apply_error)
  have ev: "match_status apply_failed_row = ERROR" "tmdb_id apply_failed_row = Some 949"
    by (simp_all add: apply_failed_row_def error_outcome_def seen_matched_row_value pending_row_def)
  have g: "reachable given_up_row"
    unfolding given_up_row_def
    by (rule reachable.by_manual_not_found[OF reachable_seen_ambiguous_row])
       (simp add: selected_resolve_def seen_ambiguous_row_value)
  have gv: "match_status given_up_row = NOT_FOUND" "tmdb_id given_up_row = Some 949"
    by (simp_all add: given_up_row_def manual_not_found_def seen_ambiguous_row_value pending_row_def)
  from a av e ev g gv show ?thesis by (simp add: id_iff_resolved_def)
qed

section \<open>Failures and the rows of a batch\<close>

text \<open>What the handlers do for one row.  The matcher loop writes the outcome of the row and
  goes on; an update by id leaves the rows with another id as they were; an applier whose
  steps raise goes on from the committed state with the row written as \<open>ERROR\<close>.\<close>

lemma run_matcher_step:
  "run_matcher m (it # rest) tbl =
     run_matcher m rest (update_where (import_id it) (write_outcome (fst (m it))) tbl)"
  by (simp add: run_matcher_def)

lemma update_where_other:
  "i < length tbl \<Longrightarrow> import_id (tbl ! i) \<noteq> iid \<Longrightarrow> update_where iid f tbl ! i = tbl ! i"
  by (simp add: update_where_def)

lemma apply_one_failure:
  assumes "steps it (working c) = Inl e"
  shows "apply_one steps prefix c it =
     \<lparr>committed = (committed c)\<lparr>import_rows :=
          update_where (import_id it) (write_outcome (Outcome ERROR None (prefix @ take 900 (str_error e))))
            (import_rows (committed c))\<rparr>,
      working = (committed c)\<lparr>import_rows :=
          update_where (import_id it) (write_outcome (Outcome ERROR None (prefix @ take 900 (str_error e))))
            (import_rows (committed c))\<rparr>\<rparr>"
  using assms by (simp add: apply_one_def commit_def rollback_def Let_def error_outcome_def)

text \<open>
  Claim C8 says that a failure rolls back the writes of its own record only and leaves the
  other records of the batch as they would be.  The Blu-ray applier misses this for the
  first record of a run.  On a database without the \<open>BR\<close> source, with a first row whose
  details request answers 404 and a second row for film 949: the first row is written as
  \<open>ERROR\<close> with the shortened message and the second as \<open>APPLIED\<close>, but the roll-back for
  the first row has also discarded the source row that \<open>ensure_source\<close> wrote before the
  loop, so the run ends without any source, and the second record is linked to source 1,
  which does not exist.  Run alone, the second row leaves the source in place.
\<close>

theorem first_failure_discards_source:
  "map match_status (import_rows (main_apply_br details_catalog 10 (only_rows [br_unknown, br_heat_second])))
     = [ERROR, APPLIED]
   \<and> map match_note (import_rows (main_apply_br details_catalog 10 (only_rows [br_unknown, br_heat_second])))
     = [Some ''apply: 404 Client Error: Not Found'', Some ''single result | best_score=5 | applied'']
   \<and> sources (main_apply_br details_catalog 10 (only_rows [br_unknown, br_heat_second])) = []
   \<and> film_sources (main_apply_br details_catalog 10 (only_rows [br_unknown, br_heat_second]))
     = [\<lparr>fs_film_id = 1, fs_source_id = 1, is_available = True\<rparr>]
   \<and> sources (main_apply_br details_catalog 10 (only_rows [br_heat_second]))
     = [\<lparr>source_id = 1, source_code = ''BR'', source_label = ''Blu-ray / Physique''\<rparr>]
   \<and> film_sources (main_apply_br details_catalog 10 (only_rows [br_heat_second]))
     = [\<lparr>fs_film_id = 1, fs_source_id = 1, is_available = True\<rparr>]"
  by code_simp

section \<open>Applying a match once\<close>

lemma startswith_append: "startswith (p @ b) p"
  by (simp add: startswith_def)

lemma py_in_prefix: "py_in p (p @ b)"
  by (cases "p @ b") (auto simp: startswith_def dest: arg_cong[where f = "take (length p)"])

lemma py_in_middle: "py_in p (a @ p @ b)"
  by (induction a) (simp_all add: py_in_prefix)

lemma marker_present: "py_in ''applied'' (n @ '' | applied'')"
  using py_in_middle[of "''applied''" "n @ '' | ''" "[]"] by simp

lemma add_marker_not_selected: "\<not> selected_apply (add_marker r)"
  by (simp add: selected_apply_def add_marker_def marker_present)

lemma mark_applied_not_selected: "\<not> selected_apply (mark_applied r)"
  by (simp add: selected_apply_def mark_applied_def)

lemma count_key_le_one:
  "distinct (map key xs) \<Longrightarrow> length (filter (\<lambda>x. key x = k) xs) \<le> 1"
proof (induction xs)
  case Nil
  show ?case by simp
next
  case (Cons x xs)
  show ?case
  proof (cases "key x = k")
    case True
    with Cons.prems have "k \<notin> key ` set xs" by simp
    then have "\<forall>y\<in>set xs. key y \<noteq> k" by blast
    then have "filter (\<lambda>x. key x = k) xs = []" by (simp add: filter_empty_conv)
    with True show ?thesis by simp
  next
    case False
    with Cons show ?thesis by simp
  qed
qed

lemma count_key_one:
  assumes "distinct (map key xs)" and "x \<in> set xs" and "key x = k"
  shows "length (filter (\<lambda>x. key x = k) xs) = 1"
proof -
  have "x \<in> set (filter (\<lambda>x. key x = k) xs)" using assms(2,3) by simp
  then have "filter (\<lambda>x. key x = k) xs \<noteq> []" by (metis empty_iff list.set(1))
  then have "1 \<le> length (filter (\<lambda>x. key x = k) xs)" by (simp add: Suc_le_eq)
  with count_key_le_one[OF assms(1), of k] show ?thesis by simp
qed

lemma map_keeps_keys:
  assumes "\<And>x. key (g x) = key x"
  shows "map key (map g xs) = map key xs"
  using assms by simp

lemma upsert_film_row_unique:
  assumes "distinct (map film_tmdb_id fs)"
    and "\<And>f. film_tmdb_id f = film_tmdb_id new \<Longrightarrow> film_tmdb_id (merge f new) = film_tmdb_id new"
    and "upsert_film_row merge new fs = (i, fs')"
  shows "distinct (map film_tmdb_id fs')
       \<and> length (filter (\<lambda>f. film_tmdb_id f = film_tmdb_id new) fs') = 1
       \<and> (\<forall>f\<in>set fs'. film_tmdb_id f = film_tmdb_id new \<longrightarrow> film_id f = i)"
proof (cases "find (\<lambda>f. film_tmdb_id f = film_tmdb_id new) fs")
  case None
  then have no: "\<forall>f\<in>set fs. film_tmdb_id f \<noteq> film_tmdb_id new"
    by (simp add: find_None_iff)
  then have e: "filter (\<lambda>f. film_tmdb_id f = film_tmdb_id new) fs = []"
    by (simp add: filter_empty_conv)
  from None assms(3) have fs': "fs' = fs @ [new\<lparr>film_id := i\<rparr>]"
    by (auto simp: upsert_film_row_def Let_def)
  show ?thesis using assms(1) no e by (auto simp: fs')
next
  case (Some old)
  let ?g = "\<lambda>f. if film_tmdb_id f = film_tmdb_id new then (merge f new)\<lparr>film_id := film_id f\<rparr> else f"
  from Some assms(3) have i: "i = film_id old" and fs': "fs' = map ?g fs"
    by (auto simp: upsert_film_row_def)
  from Some have old: "old \<in> set fs" "film_tmdb_id old = film_tmdb_id new"
    by (auto simp: find_Some_iff)
  have k: "\<And>f. film_tmdb_id (?g f) = film_tmdb_id f" using assms(2) by simp
  have keys: "map film_tmdb_id fs' = map film_tmdb_id fs" by (simp add: fs' k)
  have d: "distinct (map film_tmdb_id fs')" using assms(1) by (simp add: keys)
  have "?g old \<in> set fs'" using old(1) by (simp add: fs')
  moreover have "film_tmdb_id (?g old) = film_tmdb_id new" using old(2) k[of old] by metis
  ultimately have c: "length (filter (\<lambda>f. film_tmdb_id f = film_tmdb_id new) fs') = 1"
    using d by (intro count_key_one[where x = "?g old"])
  have "\<forall>f\<in>set fs'. film_tmdb_id f = film_tmdb_id new \<longrightarrow> film_id f = i"
  proof (intro ballI impI)
    fix f assume "f \<in> set fs'" and fk: "film_tmdb_id f = film_tmdb_id new"
    then obtain f0 where f0: "f0 \<in> set fs" "f = ?g f0" by (auto simp: fs')
    with fk k[of f0] have "film_tmdb_id f0 = film_tmdb_id new" by simp
    with old assms(1) f0(1) have "f0 = old"
      by (metis distinct_map inj_onD)
    with f0(2) old(2) show "film_id f = i" by (simp add: i)
  qed
  with d c show ?thesis by simp
qed

lemma upsert_film_unique:
  assumes "distinct (map film_tmdb_id (films dbs))" and "upsert_film d dbs = Inr (i, db1)"
  shows "distinct (map film_tmdb_id (films db1))
       \<and> length (filter (\<lambda>f. film_tmdb_id f = d_id d) (films db1)) = 1
       \<and> (\<forall>f\<in>set (films db1). film_tmdb_id f = d_id d \<longrightarrow> film_id f = i)
       \<and> film_sources db1 = film_sources dbs \<and> import_rows db1 = import_rows dbs"
proof -
  from assms(2) obtain new fs where
    u: "upsert_film_row (\<lambda>old new. new) new (films dbs) = (i, fs)"
    and k: "film_tmdb_id new = d_id d" and d: "db1 = dbs\<lparr>films := fs\<rparr>"
    by (auto simp: upsert_film_def Let_def split: sum.splits prod.splits)
  have "\<And>f. film_tmdb_id f = film_tmdb_id new \<Longrightarrow> film_tmdb_id ((\<lambda>old new. new) f new) = film_tmdb_id new"
    by simp
  from upsert_film_row_unique[OF assms(1) this u] show ?thesis by (simp add: d k)
qed

lemma upsert_film_seen_unique:
  assumes "distinct (map film_tmdb_id (films dbs))" and "upsert_film_seen d dbs = Inr (i, db1)"
  shows "distinct (map film_tmdb_id (films db1))
       \<and> length (filter (\<lambda>f. film_tmdb_id f = d_id d) (films db1)) = 1
       \<and> (\<forall>f\<in>set (films db1). film_tmdb_id f = d_id d \<longrightarrow> film_id f = i)
       \<and> user_films db1 = user_films dbs \<and> import_rows db1 = import_rows dbs"
proof -
  let ?merge = "\<lambda>old n. old\<lparr>film_title := film_title n,
                                     film_original_title := film_original_title n,
                                     film_release_date := film_release_date n,
                                     film_year := film_year n,
                                     film_runtime_min := film_runtime_min n,
                                     film_overview := film_overview n\<rparr>"
  from assms(2) obtain new fs where
    u: "upsert_film_row ?merge new (films dbs) = (i, fs)"
    and k: "film_tmdb_id new = d_id d" and d: "db1 = dbs\<lparr>films := fs\<rparr>"
    by (auto simp: upsert_film_seen_def Let_def split: sum.splits prod.splits)
  have "\<And>f. film_tmdb_id f = film_tmdb_id new \<Longrightarrow> film_tmdb_id (?merge f new) = film_tmdb_id new"
    by simp
  from upsert_film_row_unique[OF assms(1) this u] show ?thesis by (simp add: d k)
qed

lemma upsert_genres_keeps:
  "upsert_genres fid gs dbs = Inr db2 \<Longrightarrow>
   films db2 = films dbs \<and> film_sources db2 = film_sources dbs \<and> import_rows db2 = import_rows dbs"
proof (induction gs arbitrary: dbs)
  case Nil
  then show ?case by simp
next
  case (Cons g gs)
  from Cons.prems obtain dbm where
    m: "upsert_genres fid gs dbm = Inr db2"
    and k: "films dbm = films dbs" "film_sources dbm = film_sources dbs" "import_rows dbm = import_rows dbs"
    by (auto simp: Let_def split: option.splits prod.splits)
  from Cons.IH[OF m] k show ?case by simp
qed

lemma link_source_unique:
  assumes "distinct (map (\<lambda>l. (fs_film_id l, fs_source_id l)) (film_sources dbs))"
  shows "length (filter (\<lambda>l. fs_film_id l = fid \<and> fs_source_id l = sid)
                   (film_sources (link_source fid sid dbs))) = 1
       \<and> films (link_source fid sid dbs) = films dbs
       \<and> import_rows (link_source fid sid dbs) = import_rows dbs"
proof (cases "list_ex (\<lambda>l. fs_film_id l = fid \<and> fs_source_id l = sid) (film_sources dbs)")
  case True
  then obtain l where l: "l \<in> set (film_sources dbs)" "fs_film_id l = fid" "fs_source_id l = sid"
    by (auto simp: list_ex_iff)
  then have "(\<lambda>l. (fs_film_id l, fs_source_id l)) l = (fid, sid)" by simp
  from count_key_one[OF assms l(1) this]
  have "length (filter (\<lambda>l. fs_film_id l = fid \<and> fs_source_id l = sid) (film_sources dbs)) = 1"
    by (simp add: prod_eq_iff)
  with True show ?thesis by (simp add: link_source_def)
next
  case False
  then have "filter (\<lambda>l. fs_film_id l = fid \<and> fs_source_id l = sid) (film_sources dbs) = []"
    by (auto simp: list_ex_iff filter_empty_conv)
  with False show ?thesis by (simp add: link_source_def)
qed

lemma upsert_physical_copy_keeps:
  "films (upsert_physical_copy fid it dbs) = films dbs
   \<and> film_sources (upsert_physical_copy fid it dbs) = film_sources dbs
   \<and> import_rows (upsert_physical_copy fid it dbs) = import_rows dbs"
  by (simp add: upsert_physical_copy_def Let_def)

lemma upsert_user_film_unique:
  assumes "distinct (map (\<lambda>u. (uf_user_id u, uf_film_id u)) (user_films dbs))"
  shows "length (filter (\<lambda>u. uf_user_id u = USER_ID \<and> uf_film_id u = fid)
                   (user_films (upsert_user_film fid rating watched dbs))) = 1
       \<and> films (upsert_user_film fid rating watched dbs) = films dbs
       \<and> import_rows (upsert_user_film fid rating watched dbs) = import_rows dbs"
proof (cases "list_ex (\<lambda>u. uf_user_id u = USER_ID \<and> uf_film_id u = fid) (user_films dbs)")
  case True
  let ?g = "\<lambda>u. if uf_user_id u = USER_ID \<and> uf_film_id u = fid
                 then u\<lparr>uf_status := ''SEEN'', uf_rating_10 := rating, uf_last_seen_at := watched\<rparr>
                 else u"
  have k: "\<And>u. (uf_user_id (?g u) = USER_ID \<and> uf_film_id (?g u) = fid)
               = (uf_user_id u = USER_ID \<and> uf_film_id u = fid)"
    by simp
  from True obtain u where u: "u \<in> set (user_films dbs)" "uf_user_id u = USER_ID" "uf_film_id u = fid"
    by (auto simp: list_ex_iff)
  then have "(\<lambda>u. (uf_user_id u, uf_film_id u)) u = (USER_ID, fid)" by simp
  from count_key_one[OF assms u(1) this]
  have c: "length (filter (\<lambda>u. uf_user_id u = USER_ID \<and> uf_film_id u = fid) (user_films dbs)) = 1"
    by (simp add: prod_eq_iff)
  have "filter (\<lambda>u. uf_user_id u = USER_ID \<and> uf_film_id u = fid) (map ?g (user_films dbs))
      = map ?g (filter (\<lambda>u. uf_user_id u = USER_ID \<and> uf_film_id u = fid) (user_films dbs))"
    unfolding filter_map comp_def k ..
  then have "length (filter (\<lambda>u. uf_user_id u = USER_ID \<and> uf_film_id u = fid) (map ?g (user_films dbs))) = 1"
    using c by simp
  with True show ?thesis by (simp add: upsert_user_film_def)
next
  case False
  then have "filter (\<lambda>u. uf_user_id u = USER_ID \<and> uf_film_id u = fid) (user_films dbs) = []"
    by (auto simp: list_ex_iff filter_empty_conv)
  with False show ?thesis by (simp add: upsert_user_film_def)
qed

lemma apply_br_steps_once:
  assumes "tmdb_id it = Some tid"
    and "fst (tmdb_get_br (''/movie/'' @ str_int tid) (details_responses cat tid)) = Inr d"
    and "apply_br_steps cat sid it dbs = Inr db'"
    and "distinct (map film_tmdb_id (films dbs))"
    and "distinct (map (\<lambda>l. (fs_film_id l, fs_source_id l)) (film_sources dbs))"
  shows "length (filter (\<lambda>f. film_tmdb_id f = d_id d) (films db')) = 1
       \<and> (\<forall>f\<in>set (films db'). film_tmdb_id f = d_id d \<longrightarrow>
            length (filter (\<lambda>l. fs_film_id l = film_id f \<and> fs_source_id l = sid) (film_sources db')) = 1)
       \<and> import_rows db' = update_where (import_id it) mark_applied (import_rows dbs)"
proof -
  from assms(1,2,3) obtain fid db1 db2 where
    f: "upsert_film d dbs = Inr (fid, db1)"
    and g: "upsert_genres fid (d_genres d) db1 = Inr db2"
    and r: "db' = (upsert_physical_copy fid it (link_source fid sid db2))
              \<lparr>import_rows := update_where (import_id it) mark_applied
                 (import_rows (upsert_physical_copy fid it (link_source fid sid db2)))\<rparr>"
    by (auto simp: apply_br_steps_def Let_def split: sum.splits prod.splits)
  note 1 = upsert_film_unique[OF assms(4) f]
  note 2 = upsert_genres_keeps[OF g]
  have d2: "distinct (map (\<lambda>l. (fs_film_id l, fs_source_id l)) (film_sources db2))"
    using assms(5) 1 2 by simp
  note 3 = link_source_unique[OF d2, of fid sid]
  note 4 = upsert_physical_copy_keeps[of fid it "link_source fid sid db2"]
  have films: "films db' = films db1" using 2 3 4 by (simp add: r)
  have links: "film_sources db' = film_sources (link_source fid sid db2)" using 4 by (simp add: r)
  have rows: "import_rows db' = update_where (import_id it) mark_applied (import_rows dbs)"
    using 1 2 3 4 by (simp add: r)
  show ?thesis using 1 3 by (simp add: films links rows)
qed

lemma apply_seen_steps_once:
  assumes "tmdb_id r = Some tid"
    and "tmdb_get_once (details_responses cat tid) = Inr d"
    and "apply_seen_steps cat r dbs = Inr db'"
    and "distinct (map film_tmdb_id (films dbs))"
    and "distinct (map (\<lambda>u. (uf_user_id u, uf_film_id u)) (user_films dbs))"
  shows "length (filter (\<lambda>f. film_tmdb_id f = d_id d) (films db')) = 1
       \<and> (\<forall>f\<in>set (films db'). film_tmdb_id f = d_id d \<longrightarrow>
            length (filter (\<lambda>u. uf_user_id u = USER_ID \<and> uf_film_id u = film_id f) (user_films db')) = 1)
       \<and> import_rows db' = update_where (import_id r) add_marker (import_rows dbs)"
proof -
  let ?w = "normalize_date (watched_date r)"
  from assms(1,2,3) obtain fid db1 where
    f: "upsert_film_seen d dbs = Inr (fid, db1)"
    and films: "films db' = films (upsert_user_film fid (rating_10 r) ?w db1)"
    and ufs: "user_films db' = user_films (upsert_user_film fid (rating_10 r) ?w db1)"
    and rows: "import_rows db' = update_where (import_id r) add_marker
                 (import_rows (upsert_user_film fid (rating_10 r) ?w db1))"
    by (auto simp: apply_seen_steps_def Let_def split: sum.splits prod.splits option.splits)
  note 1 = upsert_film_seen_unique[OF assms(4) f]
  have d1: "distinct (map (\<lambda>u. (uf_user_id u, uf_film_id u)) (user_films db1))"
    using assms(5) 1 by simp
  note 2 = upsert_user_film_unique[OF d1, of fid "rating_10 r" ?w]
  show ?thesis using 1 2 by (simp add: films ufs rows)
qed

lemma ensure_source_only_sources:
  "(snd (ensure_source code label d))\<lparr>sources := sources d\<rparr> = d
   \<and> import_rows (snd (ensure_source code label d)) = import_rows d"
  by (simp add: ensure_source_def Let_def split: option.splits)

lemma main_apply_seen_idle:
  "select_where selected_apply n (import_rows d) = [] \<Longrightarrow> main_apply_seen cat n d = d"
  by (simp add: main_apply_seen_def commit_def)

lemma main_apply_br_idle:
  assumes "select_where selected_apply n (import_rows d) = []"
  shows "(main_apply_br cat n d)\<lparr>sources := sources d\<rparr> = d"
proof -
  obtain i d1 where e: "ensure_source ''BR'' ''Blu-ray / Physique'' d = (i, d1)"
    by (cases "ensure_source ''BR'' ''Blu-ray / Physique'' d")
  with ensure_source_only_sources[where code = "''BR''" and label = "''Blu-ray / Physique''" and d = d]
  have k: "d1\<lparr>sources := sources d\<rparr> = d" "import_rows d1 = import_rows d" by simp_all
  have "main_apply_br cat n d = d1"
    using assms by (simp add: main_apply_br_def e k(2) commit_def)
  with k(1) show ?thesis by simp
qed

text \<open>
  Claim C7, as the code has it.  When the steps of the Blu-ray applier succeed for a row,
  on tables whose keys are unique, there is afterwards exactly one film row for the id
  of the fetched details and exactly one \<open>film_source\<close> row for that film and the source,
  and the rows with the id of the import row are marked: status \<open>APPLIED\<close>, the marker
  appended to the note.  The seen-list applier leaves exactly one film row and one
  \<open>user_film\<close> row, appends the marker and leaves the status as it was.  A row that
  carries the marker is not selected again, and a run that selects no row changes
  nothing (the Blu-ray applier only writes its source row again).
\<close>

theorem apply_once_then_skip:
  "(tmdb_id it = Some tid
      \<and> fst (tmdb_get_br (''/movie/'' @ str_int tid) (details_responses cat tid)) = Inr d
      \<and> apply_br_steps cat sid it dbs = Inr db'
      \<and> distinct (map film_tmdb_id (films dbs))
      \<and> distinct (map (\<lambda>l. (fs_film_id l, fs_source_id l)) (film_sources dbs)) \<longrightarrow>
        length (filter (\<lambda>f. film_tmdb_id f = d_id d) (films db')) = 1
      \<and> (\<forall>f\<in>set (films db'). film_tmdb_id f = d_id d \<longrightarrow>
            length (filter (\<lambda>l. fs_film_id l = film_id f \<and> fs_source_id l = sid) (film_sources db')) = 1)
      \<and> import_rows db' = update_where (import_id it) mark_applied (import_rows dbs))
   \<and> (tmdb_id r = Some tid
      \<and> tmdb_get_once (details_responses cat tid) = Inr d
      \<and> apply_seen_steps cat r sdb = Inr sdb'
      \<and> distinct (map film_tmdb_id (films sdb))
      \<and> distinct (map (\<lambda>u. (uf_user_id u, uf_film_id u)) (user_films sdb)) \<longrightarrow>
        length (filter (\<lambda>f. film_tmdb_id f = d_id d) (films sdb')) = 1
      \<and> (\<forall>f\<in>set (films sdb'). film_tmdb_id f = d_id d \<longrightarrow>
            length (filter (\<lambda>u. uf_user_id u = USER_ID \<and> uf_film_id u = film_id f) (user_films sdb')) = 1)
      \<and> import_rows sdb' = update_where (import_id r) add_marker (import_rows sdb))
   \<and> match_status (mark_applied x) = APPLIED
   \<and> match_note (mark_applied x) = Some (or_empty (match_note x) @ '' | applied'')
   \<and> \<not> selected_apply (mark_applied x)
   \<and> match_status (add_marker y) = match_status y
   \<and> match_note (add_marker y) = Some (or_empty (match_note y) @ '' | applied'')
   \<and> \<not> selected_apply (add_marker y)
   \<and> (select_where selected_apply n (import_rows dbs) = [] \<longrightarrow>
        (main_apply_br cat n dbs)\<lparr>sources := sources dbs\<rparr> = dbs)
   \<and> (select_where selected_apply n (import_rows sdb) = [] \<longrightarrow> main_apply_seen cat n sdb = sdb)"
proof (intro conjI)
  show "tmdb_id it = Some tid
      \<and> fst (tmdb_get_br (''/movie/'' @ str_int tid) (details_responses cat tid)) = Inr d
      \<and> apply_br_steps cat sid it dbs = Inr db'
      \<and> distinct (map film_tmdb_id (films dbs))
      \<and> distinct (map (\<lambda>l. (fs_film_id l, fs_source_id l)) (film_sources dbs)) \<longrightarrow>
        length (filter (\<lambda>f. film_tmdb_id f = d_id d) (films db')) = 1
      \<and> (\<forall>f\<in>set (films db'). film_tmdb_id f = d_id d \<longrightarrow>
            length (filter (\<lambda>l. fs_film_id l = film_id f \<and> fs_source_id l = sid) (film_sources db')) = 1)
      \<and> import_rows db' = update_where (import_id it) mark_applied (import_rows dbs)"
    using apply_br_steps_once[of it tid cat d sid dbs db'] by blast
  show "tmdb_id r = Some tid
      \<and> tmdb_get_once (details_responses cat tid) = Inr d
      \<and> apply_seen_steps cat r sdb = Inr sdb'
      \<and> distinct (map film_tmdb_id (films sdb))
      \<and> distinct (map (\<lambda>u. (uf_user_id u, uf_film_id u)) (user_films sdb)) \<longrightarrow>
        length (filter (\<lambda>f. film_tmdb_id f = d_id d) (films sdb')) = 1
      \<and> (\<forall>f\<in>set (films sdb'). film_tmdb_id f = d_id d \<longrightarrow>
            length (filter (\<lambda>u. uf_user_id u = USER_ID \<and> uf_film_id u = film_id f) (user_films sdb')) = 1)
      \<and> import_rows sdb' = update_where (import_id r) add_marker (import_rows sdb)"
    using apply_seen_steps_once[of r tid cat d sdb sdb'] by blast
  show "match_status (mark_applied x) = APPLIED" by (simp add: mark_applied_def)
  show "match_note (mark_applied x) = Some (or_empty (match_note x) @ '' | applied'')"
    by (simp add: mark_applied_def add_marker_def)
  show "\<not> selected_apply (mark_applied x)" by (rule mark_applied_not_selected)
  show "match_status (add_marker y) = match_status y" by (simp add: add_marker_def)
  show "match_note (add_marker y) = Some (or_empty (match_note y) @ '' | applied'')"
    by (simp add: add_marker_def)
  show "\<not> selected_apply (add_marker y)" by (rule add_marker_not_selected)
  show "select_where selected_apply n (import_rows dbs) = [] \<longrightarrow>
        (main_apply_br cat n dbs)\<lparr>sources := sources dbs\<rparr> = dbs"
    using main_apply_br_idle[of n dbs cat] by blast
  show "select_where selected_apply n (import_rows sdb) = [] \<longrightarrow> main_apply_seen cat n sdb = sdb"
    using main_apply_seen_idle[of n sdb cat] by blast
qed

theorem apply_once_then_skip_witness:
  "apply_br_steps details_catalog 1 br_heat (only_rows [br_heat])
     = Inr (projr (apply_br_steps details_catalog 1 br_heat (only_rows [br_heat])))
   \<and> length (filter (\<lambda>f. film_tmdb_id f = 949)
                (films (projr (apply_br_steps details_catalog 1 br_heat (only_rows [br_heat]))))) = 1
   \<and> import_rows (projr (apply_br_steps details_catalog 1 br_heat (only_rows [br_heat])))
       = [mark_applied br_heat]
   \<and> match_status (mark_applied br_heat) = APPLIED
   \<and> \<not> selected_apply (mark_applied br_heat)
   \<and> (main_apply_br details_catalog 10 (main_apply_br details_catalog 10 (only_rows [br_heat])))
        \<lparr>sources := sources (main_apply_br details_catalog 10 (only_rows [br_heat]))\<rparr>
       = main_apply_br details_catalog 10 (only_rows [br_heat])"
proof -
  let ?steps = "apply_br_steps details_catalog 1 br_heat (only_rows [br_heat])"
  let ?once = "main_apply_br details_catalog 10 (only_rows [br_heat])"
  have "\<not> isl ?steps" by code_simp
  then have 1: "?steps = Inr (projr ?steps)" by simp
  have 2: "tmdb_id br_heat = Some 949" by (simp add: br_heat_def)
  have 3: "fst (tmdb_get_br (''/movie/'' @ str_int 949) (details_responses details_catalog 949))
      = Inr details_heat"
    by code_simp
  have 4: "distinct (map film_tmdb_id (films (only_rows [br_heat])))"
    by (simp add: only_rows_def)
  have 5: "distinct (map (\<lambda>l. (fs_film_id l, fs_source_id l)) (film_sources (only_rows [br_heat])))"
    by (simp add: only_rows_def)
  have 6: "select_where selected_apply 10 (import_rows ?once) = []" by code_simp
  have 7: "d_id details_heat = 949" by (simp add: details_heat_def)
  have 8: "update_where (import_id br_heat) mark_applied (import_rows (only_rows [br_heat]))
      = [mark_applied br_heat]"
    by (simp add: update_where_def only_rows_def)
  note t = apply_once_then_skip[where it = br_heat and tid = 949 and cat = details_catalog
      and d = details_heat and sid = 1 and dbs = "only_rows [br_heat]" and db' = "projr ?steps"
      and x = br_heat]
  from t 1 2 3 4 5 have a: "length (filter (\<lambda>f. film_tmdb_id f = d_id details_heat) (films (projr ?steps))) = 1"
    and b: "import_rows (projr ?steps)
        = update_where (import_id br_heat) mark_applied (import_rows (only_rows [br_heat]))"
    by blast+
  from t have c: "match_status (mark_applied br_heat) = APPLIED"
    and d: "\<not> selected_apply (mark_applied br_heat)"
    by blast+
  from apply_once_then_skip[where cat = details_catalog and n = 10 and dbs = ?once] 6
  have e: "(main_apply_br details_catalog 10 ?once)\<lparr>sources := sources ?once\<rparr> = ?once"
    by blast
  from 1 a b c d e show ?thesis unfolding 7 8 by blast
qed

text \<open>
  The claim as written fails in the seen-list applier: after the apply the row still has
  the status \<open>MATCHED\<close>, with the marker in its note, and there is no \<open>film_source\<close> row.
\<close>

theorem seen_applier_leaves_matched:
  "map match_status (import_rows (main_apply_seen details_catalog 10 (only_rows [seen_heat])))
     = [MATCHED]
   \<and> map match_note (import_rows (main_apply_seen details_catalog 10 (only_rows [seen_heat])))
     = [Some ''score=8 | applied'']
   \<and> map film_tmdb_id (films (main_apply_seen details_catalog 10 (only_rows [seen_heat]))) = [949]
   \<and> film_sources (main_apply_seen details_catalog 10 (only_rows [seen_heat])) = []"
  by code_simp

end
